(* ===== verification/Prelude.thy ===== *)
theory Prelude
  imports Main "HOL-Library.Sublist"
begin

text \<open>
  What the component theories share: the three ways a Go call can end, reads of
  absent map keys, and the functions of the packages \<^verbatim>\<open>strings\<close> and
  \<^verbatim>\<open>strconv\<close> that the sources call.

  A Go string is a sequence of bytes, which is what \<^typ>\<open>string\<close> is (a \<^typ>\<open>char\<close>
  is one byte). Where the source trims or splits at white space the model knows the
  six ASCII white-space bytes; the file contents and annotations concerned are ASCII.
\<close>

section \<open>Results of calls\<close>

text \<open>
  A call returns a value, returns an error, or panics. Functions that cannot panic
  return an ordinary sum or option; \<open>outcome\<close> is for those that can.
\<close>

datatype ('e, 'a) outcome = Ok 'a | Err 'e | Panic

fun returned :: "('e, 'a) outcome \<Rightarrow> bool" where
  "returned (Ok a) = True"
| "returned _ = False"

fun outcome_bind :: "('e, 'a) outcome \<Rightarrow> ('a \<Rightarrow> ('e, 'b) outcome) \<Rightarrow> ('e, 'b) outcome" where
  "outcome_bind (Ok a) f = f a"
| "outcome_bind (Err e) f = Err e"
| "outcome_bind Panic f = Panic"

lemma outcome_bind_Ok_iff:
  "outcome_bind m f = Ok b \<longleftrightarrow> (\<exists>a. m = Ok a \<and> f a = Ok b)"
  by (cases m) auto

text \<open>How a request ends: with a response, an error or a panic, or not at all (a send to a full
  channel, a loop that is never left).\<close>

datatype 'a reply = Reply 'a | Fail string | Crash | Hang

fun reply_bind :: "'a reply \<Rightarrow> ('a \<Rightarrow> 'b reply) \<Rightarrow> 'b reply" where
  "reply_bind (Reply a) f = f a"
| "reply_bind (Fail e) f = Fail e"
| "reply_bind Crash f = Crash"
| "reply_bind Hang f = Hang"

lemma reply_bind_Reply_iff:
  "reply_bind m f = Reply b \<longleftrightarrow> (\<exists>a. m = Reply a \<and> f a = Reply b)"
  by (cases m) auto

text \<open>A sequence of steps on a state, up to the first one that does not return normally.\<close>

fun v_steps :: "('s \<Rightarrow> 's \<times> unit reply) list \<Rightarrow> 's \<Rightarrow> 's \<times> unit reply" where
  "v_steps [] s = (s, Reply ())"
| "v_steps (f # fs) s = (case f s of (s', Reply _) \<Rightarrow> v_steps fs s' | (s', r) \<Rightarrow> (s', r))"

lemma v_steps_append:
  "v_steps (fs @ gs) s = (t, Reply ()) \<longleftrightarrow> (\<exists>s'. v_steps fs s = (s', Reply ()) \<and> v_steps gs s' = (t, Reply ()))"
  by (induction fs s rule: v_steps.induct) (auto split: prod.splits reply.splits)

lemma v_steps_Cons:
  "v_steps (f # fs) s = (t, Reply ()) \<longleftrightarrow> (\<exists>s'. f s = (s', Reply ()) \<and> v_steps fs s' = (t, Reply ()))"
  by (auto split: prod.splits reply.splits)

section \<open>Maps\<close>

type_synonym str_map = "string \<rightharpoonup> string"

text \<open>Reading an absent key of a Go map gives the zero value of the element type.\<close>

definition get_or :: "'v \<Rightarrow> ('k \<rightharpoonup> 'v) \<Rightarrow> 'k \<Rightarrow> 'v" where
  "get_or z m k = (case m k of None \<Rightarrow> z | Some v \<Rightarrow> v)"

lemma get_or_None [simp]: "m k = None \<Longrightarrow> get_or z m k = z"
  by (simp add: get_or_def)

lemma get_or_Some [simp]: "m k = Some v \<Longrightarrow> get_or z m k = v"
  by (simp add: get_or_def)

lemma get_or_empty [simp]: "get_or z Map.empty k = z"
  by simp

lemma get_or_upd: "get_or z (m(k := v)) k' = (if k' = k then (case v of None \<Rightarrow> z | Some x \<Rightarrow> x) else get_or z m k')"
  by (simp add: get_or_def)

text \<open>The built-in \<^verbatim>\<open>delete\<close> on a map, for one key and for the keys of a list.\<close>

definition map_delete :: "'k \<Rightarrow> ('k \<rightharpoonup> 'v) \<Rightarrow> ('k \<rightharpoonup> 'v)" where
  "map_delete k m = m(k := None)"

fun map_delete_all :: "'k list \<Rightarrow> ('k \<rightharpoonup> 'v) \<Rightarrow> ('k \<rightharpoonup> 'v)" where
  "map_delete_all [] m = m"
| "map_delete_all (k # ks) m = map_delete_all ks (map_delete k m)"

lemma map_delete_apply [simp]: "map_delete k m k' = (if k' = k then None else m k')"
  by (simp add: map_delete_def)

lemma map_delete_all_apply [simp]:
  "map_delete_all ks m k = (if k \<in> set ks then None else m k)"
  by (induction ks arbitrary: m) auto

lemma distinct_set_singleton: "distinct xs \<Longrightarrow> set xs = {x} \<longleftrightarrow> xs = [x]"
  by (cases xs; cases "tl xs") auto

lemma map_filter_memI: "n \<in> set xs \<Longrightarrow> f n = Some y \<Longrightarrow> y \<in> set (List.map_filter f xs)"
  by (force simp: List.map_filter_def)

section \<open>Strings\<close>

text \<open>\<^verbatim>\<open>strings.HasPrefix\<close>, \<^verbatim>\<open>HasSuffix\<close>, \<^verbatim>\<open>Contains\<close>,
  \<^verbatim>\<open>TrimPrefix\<close> and \<^verbatim>\<open>TrimSuffix\<close>; the string comes first, as in Go.\<close>

definition has_prefix :: "string \<Rightarrow> string \<Rightarrow> bool" where
  "has_prefix s p = (take (length p) s = p)"

definition has_suffix :: "string \<Rightarrow> string \<Rightarrow> bool" where
  "has_suffix s p = has_prefix (rev s) (rev p)"

fun str_contains :: "string \<Rightarrow> string \<Rightarrow> bool" where
  "str_contains [] p = (p = [])"
| "str_contains (c # s) p = (has_prefix (c # s) p \<or> str_contains s p)"

definition trim_prefix :: "string \<Rightarrow> string \<Rightarrow> string" where
  "trim_prefix s p = (if has_prefix s p then drop (length p) s else s)"

definition trim_suffix :: "string \<Rightarrow> string \<Rightarrow> string" where
  "trim_suffix s p = (if has_suffix s p then take (length s - length p) s else s)"

lemma has_prefix_iff: "has_prefix s p \<longleftrightarrow> prefix p s"
  unfolding has_prefix_def by (metis append_eq_conv_conj append_take_drop_id prefix_def)

lemma has_prefix_append [simp]: "has_prefix (p @ s) p"
  by (simp add: has_prefix_def)

lemma has_prefix_refl [simp]: "has_prefix s s"
  by (simp add: has_prefix_def)

lemma has_prefix_Nil [simp]: "has_prefix s []"
  by (simp add: has_prefix_def)

lemma has_prefix_trans: "has_prefix s p \<Longrightarrow> has_prefix p q \<Longrightarrow> has_prefix s q"
  by (meson has_prefix_iff prefix_order.trans)

lemma trim_prefix_append [simp]: "trim_prefix (p @ s) p = s"
  by (simp add: trim_prefix_def)

lemma has_prefix_imp_contains: "has_prefix s p \<Longrightarrow> str_contains s p"
  by (cases s) (auto simp: has_prefix_def)

lemma str_contains_iff: "str_contains s p \<longleftrightarrow> (\<exists>u v. s = u @ p @ v)"
proof (induction s)
  case Nil
  then show ?case by auto
next
  case (Cons c s)
  have "has_prefix (c # s) p \<longleftrightarrow> (\<exists>v. c # s = p @ v)"
    by (simp add: has_prefix_iff prefix_def)
  moreover have "(\<exists>u v. c # s = u @ p @ v) \<longleftrightarrow> (\<exists>v. c # s = p @ v) \<or> (\<exists>u v. s = u @ p @ v)"
    by (metis Cons_eq_append_conv append_Cons append_Nil)
  ultimately show ?case using Cons.IH by simp
qed

text \<open>\<^verbatim>\<open>strings.Split\<close> and \<^verbatim>\<open>strings.SplitN(s, sep, 2)\<close> at a one-byte
  separator, and \<^verbatim>\<open>strings.Join\<close>.\<close>

fun split_on :: "char \<Rightarrow> string \<Rightarrow> string list" where
  "split_on c [] = [[]]"
| "split_on c (x # s) =
     (if x = c then [] # split_on c s
      else case split_on c s of [] \<Rightarrow> [[x]] | w # ws \<Rightarrow> (x # w) # ws)"

definition split_two :: "char \<Rightarrow> string \<Rightarrow> string list" where
  "split_two c s =
     (if c \<in> set s
      then [takeWhile (\<lambda>x. x \<noteq> c) s, drop 1 (dropWhile (\<lambda>x. x \<noteq> c) s)]
      else [s])"

fun join_with :: "string \<Rightarrow> string list \<Rightarrow> string" where
  "join_with sep [] = []"
| "join_with sep [w] = w"
| "join_with sep (w # v # ws) = w @ sep @ join_with sep (v # ws)"

lemma split_on_not_Nil [simp]: "split_on c s \<noteq> []"
  by (induction s) (auto split: list.splits)

lemma join_split_on: "join_with [c] (split_on c s) = s"
proof (induction s)
  case Nil
  then show ?case by simp
next
  case (Cons x s)
  obtain w ws where ws: "split_on c s = w # ws"
    by (cases "split_on c s") auto
  with Cons.IH show ?case by (cases ws) auto
qed

lemma split_on_no_sep: "c \<notin> set w \<Longrightarrow> split_on c w = [w]"
  by (induction w) auto

lemma split_on_append_sep:
  "c \<notin> set w \<Longrightarrow> split_on c (w @ c # s) = w # split_on c s"
  by (induction w) auto

lemma split_on_append: "split_on c (s @ c # t) = split_on c s @ split_on c t"
  by (induction s) (auto split: list.splits)

lemma split_join:
  "ws \<noteq> [] \<Longrightarrow> \<forall>w\<in>set ws. c \<notin> set w \<Longrightarrow> split_on c (join_with [c] ws) = ws"
proof (induction ws rule: induct_list012)
  case (2 w)
  then show ?case by (simp add: split_on_no_sep)
next
  case (3 w v ws)
  then show ?case by (simp add: split_on_append_sep)
qed simp

lemma split_on_pieces: "w \<in> set (split_on c s) \<Longrightarrow> c \<notin> set w"
  by (induction s arbitrary: w) (auto split: list.splits if_splits)

lemma split_two_eq: "c \<notin> set k \<Longrightarrow> split_two c (k @ c # v) = [k, v]"
  by (subst split_two_def, subst takeWhile_append2, force, subst dropWhile_append2, force) simp

text \<open>\<^verbatim>\<open>strings.TrimSpace\<close>, \<^verbatim>\<open>strings.Trim\<close> and \<^verbatim>\<open>strings.Fields\<close>
  on ASCII text.\<close>

definition is_space :: "char \<Rightarrow> bool" where
  "is_space c = (c \<in> set [CHR '' '', CHR 0x09, CHR 0x0A, CHR 0x0B, CHR 0x0C, CHR 0x0D])"

definition trim_by :: "(char \<Rightarrow> bool) \<Rightarrow> string \<Rightarrow> string" where
  "trim_by p s = rev (dropWhile p (rev (dropWhile p s)))"

definition trim_space :: "string \<Rightarrow> string" where
  "trim_space s = trim_by is_space s"

fun fields_aux :: "string \<Rightarrow> string \<Rightarrow> string list" where
  "fields_aux [] acc = (if acc = [] then [] else [rev acc])"
| "fields_aux (c # s) acc =
     (if is_space c then (if acc = [] then fields_aux s [] else rev acc # fields_aux s [])
      else fields_aux s (c # acc))"

definition str_fields :: "string \<Rightarrow> string list" where
  "str_fields s = fields_aux s []"

definition is_word :: "string \<Rightarrow> bool" where
  "is_word w = (w \<noteq> [] \<and> list_all (\<lambda>c. \<not> is_space c) w)"

lemma fields_aux_word:
  "list_all (\<lambda>c. \<not> is_space c) w \<Longrightarrow> fields_aux (w @ s) acc = fields_aux s (rev w @ acc)"
  by (induction w arbitrary: acc) auto

lemma is_space_blank [simp]: "is_space (CHR '' '')"
  by (simp add: is_space_def)

text \<open>Splitting at white space undoes joining words with blanks.\<close>

lemma str_fields_join: "list_all is_word ws \<Longrightarrow> str_fields (join_with '' '' ws) = ws"
proof (induction ws rule: induct_list012)
  case 1
  then show ?case by (simp add: str_fields_def)
next
  case (2 w)
  then show ?case
    using fields_aux_word [of w "[]" "[]"] by (simp add: str_fields_def is_word_def)
next
  case (3 w v ws)
  then show ?case
    using fields_aux_word [of w "CHR '' '' # join_with '' '' (v # ws)" "[]"]
    by (simp add: str_fields_def is_word_def)
qed

section \<open>Decimal numbers\<close>

text \<open>\<^verbatim>\<open>strconv.Itoa\<close>, and \<^verbatim>\<open>strconv.Atoi\<close> (an optional sign, one or more
  digits, the value in the range of a 64-bit \<^verbatim>\<open>int\<close>).\<close>

definition digit_char :: "nat \<Rightarrow> char" where
  "digit_char d = char_of (48 + d)"

fun utoa :: "nat \<Rightarrow> string" where
  "utoa n = (if n < 10 then [digit_char n] else utoa (n div 10) @ [digit_char (n mod 10)])"

declare utoa.simps [simp del]

definition itoa :: "int \<Rightarrow> string" where
  "itoa i = (if i < 0 then CHR ''-'' # utoa (nat (- i)) else utoa (nat i))"

definition is_digit :: "char \<Rightarrow> bool" where
  "is_digit c = (48 \<le> (of_char c :: nat) \<and> (of_char c :: nat) \<le> 57)"

definition digit_val :: "char \<Rightarrow> nat" where
  "digit_val c = of_char c - 48"

fun digits_val :: "nat \<Rightarrow> string \<Rightarrow> nat" where
  "digits_val acc [] = acc"
| "digits_val acc (c # s) = digits_val (10 * acc + digit_val c) s"

definition parse_uint :: "string \<Rightarrow> nat option" where
  "parse_uint s = (if s \<noteq> [] \<and> list_all is_digit s then Some (digits_val 0 s) else None)"

definition in_int64 :: "int \<Rightarrow> bool" where
  "in_int64 i = (- (2 ^ 63) \<le> i \<and> i < 2 ^ 63)"

definition atoi :: "string \<Rightarrow> int option" where
  "atoi s =
     (let (neg, ds) = (case s of [] \<Rightarrow> (False, [])
                       | c # r \<Rightarrow> if c = CHR ''-'' then (True, r)
                                  else if c = CHR ''+'' then (False, r) else (False, s))
      in case parse_uint ds of None \<Rightarrow> None
         | Some n \<Rightarrow> (let i = (if neg then - int n else int n)
                     in if in_int64 i then Some i else None))"

text \<open>Conversion of an integer to \<^verbatim>\<open>int64\<close> keeps its low 64 bits.\<close>

definition to_int64 :: "int \<Rightarrow> int" where
  "to_int64 i = (i + 2 ^ 63) mod 2 ^ 64 - 2 ^ 63"

text \<open>Go's division of a signed integer by a positive one truncates towards zero.\<close>

definition quot_trunc :: "int \<Rightarrow> int \<Rightarrow> int" where
  "quot_trunc a b = (if 0 \<le> a then a div b else - ((- a) div b))"

lemma to_int64_range: "in_int64 (to_int64 i)"
proof -
  have "0 \<le> (i + 2 ^ 63) mod 2 ^ 64" "(i + 2 ^ 63) mod 2 ^ 64 < 2 ^ 64"
    by simp_all
  then show ?thesis by (simp add: in_int64_def to_int64_def)
qed

lemma to_int64_id [simp]: "in_int64 i \<Longrightarrow> to_int64 i = i"
  by (simp add: in_int64_def to_int64_def)

lemma digit_char_props [simp]:
  assumes "d < 10"
  shows "is_digit (digit_char d)" and "digit_val (digit_char d) = d"
  using assms by (simp_all add: is_digit_def digit_char_def digit_val_def)

lemma digits_val_append: "digits_val acc (s @ t) = digits_val (digits_val acc s) t"
  by (induction s arbitrary: acc) auto

lemma utoa_digits: "list_all is_digit (utoa n)"
proof (induction n rule: utoa.induct)
  case (1 n)
  then show ?case by (subst utoa.simps) simp
qed

lemma utoa_not_Nil [simp]: "utoa n \<noteq> []"
  by (subst utoa.simps) simp

lemma digits_val_utoa: "digits_val 0 (utoa n) = n"
proof (induction n rule: utoa.induct)
  case (1 n)
  then show ?case by (subst utoa.simps) (simp add: digits_val_append)
qed

lemma utoa_chars: "c \<in> set (utoa n) \<Longrightarrow> is_digit c"
  using utoa_digits by (metis list_all_iff)

lemma parse_uint_utoa [simp]: "parse_uint (utoa n) = Some n"
  by (simp add: parse_uint_def utoa_digits digits_val_utoa)

lemma non_digits [simp]:
  "\<not> is_digit (CHR ''-'')" "\<not> is_digit (CHR ''+'')" "\<not> is_digit (CHR '','')"
  by (simp_all add: is_digit_def)

lemma atoi_itoa: "in_int64 i \<Longrightarrow> atoi (itoa i) = Some i"
proof -
  assume i: "in_int64 i"
  have "\<exists>c r. utoa n = c # r \<and> c \<noteq> CHR ''-'' \<and> c \<noteq> CHR ''+''" for n
    using utoa_digits [of n] by (cases "utoa n") auto
  then obtain c r where cr: "utoa (nat i) = c # r" "c \<noteq> CHR ''-''" "c \<noteq> CHR ''+''"
    by blast
  have "parse_uint (c # r) = Some (nat i)"
    using cr(1) by (metis parse_uint_utoa)
  then show ?thesis
    using i cr by (auto simp: atoi_def itoa_def)
qed

section \<open>Letter case\<close>

text \<open>\<^verbatim>\<open>strings.ToUpper\<close>, \<^verbatim>\<open>ToLower\<close> and \<^verbatim>\<open>EqualFold\<close> on ASCII text.\<close>

definition upper_char :: "char \<Rightarrow> char" where
  "upper_char c = (if 97 \<le> (of_char c :: nat) \<and> (of_char c :: nat) \<le> 122 then char_of (of_char c - 32 :: nat) else c)"

definition lower_char :: "char \<Rightarrow> char" where
  "lower_char c = (if 65 \<le> (of_char c :: nat) \<and> (of_char c :: nat) \<le> 90 then char_of (of_char c + 32 :: nat) else c)"

definition to_upper :: "string \<Rightarrow> string" where
  "to_upper s = map upper_char s"

definition to_lower :: "string \<Rightarrow> string" where
  "to_lower s = map lower_char s"

definition equal_fold :: "string \<Rightarrow> string \<Rightarrow> bool" where
  "equal_fold s t = (to_lower s = to_lower t)"

lemma upper_lower_char [simp]:
  "upper_char (upper_char c) = upper_char c" "upper_char (lower_char c) = upper_char c" "lower_char (upper_char c) = lower_char c"
  by (auto simp: upper_char_def lower_char_def)

lemma to_upper_simps [simp]:
  "to_upper [] = []" "to_upper (c # s) = upper_char c # to_upper s" "to_upper (s @ t) = to_upper s @ to_upper t"
  "to_upper (to_upper s) = to_upper s" "to_upper (to_lower s) = to_upper s" "to_lower (to_upper s) = to_lower s"
  by (simp_all add: to_upper_def to_lower_def)

lemma equal_fold_upper: "equal_fold s t \<longleftrightarrow> to_upper s = to_upper t"
  unfolding equal_fold_def by (metis to_upper_simps(5,6))

text \<open>Evaluation on literals.\<close>

lemmas case_eval = to_upper_def to_lower_def upper_char_def lower_char_def char_of_def bit_Suc_0_iff

section \<open>File paths\<close>

text \<open>\<^verbatim>\<open>filepath.Clean\<close>: the components that remain are kept in reverse on a stack;
  a path is rooted when it starts with a slash. \<^verbatim>\<open>filepath.Join\<close> cleans.\<close>

fun clean_aux :: "bool \<Rightarrow> string list \<Rightarrow> string list \<Rightarrow> string list" where
  "clean_aux rooted st [] = rev st"
| "clean_aux rooted st (w # ws) =
     (if w = '''' \<or> w = ''.'' then clean_aux rooted st ws
      else if w = ''..'' then
        (case st of
           [] \<Rightarrow> clean_aux rooted (if rooted then [] else [''..'']) ws
         | v # vs \<Rightarrow> if v = ''..'' then clean_aux rooted (''..'' # st) ws else clean_aux rooted vs ws)
      else clean_aux rooted (w # st) ws)"

definition path_clean :: "string \<Rightarrow> string" where
  "path_clean p =
     (let rooted = has_prefix p ''/'';
          body = join_with ''/'' (clean_aux rooted [] (split_on (CHR ''/'') p))
      in if rooted then ''/'' @ body else if body = '''' then ''.'' else body)"

definition filepath_Join :: "string list \<Rightarrow> string" where
  "filepath_Join elem =
     (case dropWhile (\<lambda>e. e = '''') elem of [] \<Rightarrow> '''' | es \<Rightarrow> path_clean (join_with ''/'' es))"

text \<open>\<^verbatim>\<open>filepath.Base\<close>.\<close>

definition filepath_Base :: "string \<Rightarrow> string" where
  "filepath_Base p =
     (if p = '''' then ''.''
      else let q = rev (dropWhile (\<lambda>ch. ch = CHR ''/'') (rev p))
           in if q = '''' then ''/'' else last (split_on (CHR ''/'') q))"

text \<open>\<^verbatim>\<open>filepath.Dir\<close>: the path up to the last slash, cleaned.\<close>

definition filepath_Dir :: "string \<Rightarrow> string" where
  "filepath_Dir p = path_clean (rev (dropWhile (\<lambda>ch. ch \<noteq> CHR ''/'') (rev p)))"

text \<open>A rooted path without empty components, dots and double dots is clean.\<close>

definition plain_component :: "string \<Rightarrow> bool" where
  "plain_component w = (w \<noteq> '''' \<and> w \<noteq> ''.'' \<and> w \<noteq> ''..'' \<and> CHR ''/'' \<notin> set w)"

lemma clean_aux_plain: "list_all plain_component ws \<Longrightarrow> clean_aux rooted st ws = rev st @ ws"
  by (induction ws arbitrary: st) (auto simp: plain_component_def)

lemma path_clean_plain:
  assumes "list_all plain_component ws" and "ws \<noteq> []"
  shows "path_clean (''/'' @ join_with ''/'' ws) = ''/'' @ join_with ''/'' ws"
proof -
  have "split_on (CHR ''/'') (join_with ''/'' ws) = ws"
    using assms by (intro split_join) (auto simp: list_all_iff plain_component_def)
  then have "split_on (CHR ''/'') (''/'' @ join_with ''/'' ws) = '''' # ws"
    by simp
  then show ?thesis
    unfolding path_clean_def using clean_aux_plain [OF assms(1), of True "[]"] by (simp add: has_prefix_def)
qed

end
