(* ===== verification/Registrar.thy ===== *)
theory Registrar
  imports Prelude
begin

text \<open>
  The name registrar (\<^verbatim>\<open>internal/registrar/registrar.go\<close>): two maps, from a key
  (a container or pod identifier) to the names it holds and from a name to its key.
  Every method holds the mutex for its whole body, so a call is one atomic step.

  The theory ends with the interface a client of the registrar relies on (the locale
  \<open>name_index\<close>) and its interpretation on these operations.
\<close>

section \<open>State and operations\<close>

datatype registrar_error = ErrNameReserved | ErrNameNotReserved | ErrNoSuchKey

record registrar =
  idx :: "string \<rightharpoonup> string list"
  names :: "string \<rightharpoonup> string"

definition NewRegistrar :: registrar where
  "NewRegistrar = \<lparr>idx = Map.empty, names = Map.empty\<rparr>"

definition Reserve :: "string \<Rightarrow> string \<Rightarrow> registrar \<Rightarrow> registrar \<times> registrar_error option" where
  "Reserve name key r =
     (case names r name of
        Some k \<Rightarrow> if k \<noteq> key then (r, Some ErrNameReserved) else (r, None)
      | None \<Rightarrow>
          (r\<lparr>idx := (idx r)(key \<mapsto> get_or [] (idx r) key @ [name]),
             names := (names r)(name \<mapsto> key)\<rparr>, None))"

text \<open>The loop of \<^verbatim>\<open>Release\<close> deletes the first occurrence of the name from the key's
  slice, if there is one.\<close>

definition Release :: "string \<Rightarrow> registrar \<Rightarrow> registrar" where
  "Release name r =
     (case names r name of
        None \<Rightarrow> r
      | Some key \<Rightarrow>
          let ns = get_or [] (idx r) key;
              idx1 = (if name \<in> set ns then (idx r)(key \<mapsto> remove1 name ns) else idx r);
              idx2 = (if length (get_or [] idx1 key) = 0 then map_delete key idx1 else idx1)
          in r\<lparr>idx := idx2, names := map_delete name (names r)\<rparr>)"

definition registrar_Delete :: "string \<Rightarrow> registrar \<Rightarrow> registrar" where
  "registrar_Delete key r =
     r\<lparr>names := map_delete_all (get_or [] (idx r) key) (names r),
       idx := map_delete key (idx r)\<rparr>"

definition GetNames :: "string \<Rightarrow> registrar \<Rightarrow> registrar_error + string list" where
  "GetNames key r = (case idx r key of None \<Rightarrow> Inl ErrNoSuchKey | Some ns \<Rightarrow> Inr ns)"

definition registrar_Get :: "string \<Rightarrow> registrar \<Rightarrow> registrar_error + string" where
  "registrar_Get name r = (case names r name of None \<Rightarrow> Inl ErrNameNotReserved | Some k \<Rightarrow> Inr k)"

definition GetAll :: "registrar \<Rightarrow> (string \<rightharpoonup> string list)" where
  "GetAll r = idx r"

section \<open>The two maps agree\<close>

definition registrar_inv :: "registrar \<Rightarrow> bool" where
  "registrar_inv r \<longleftrightarrow>
     (\<forall>name key. names r name = Some key \<longleftrightarrow> name \<in> set (get_or [] (idx r) key)) \<and>
     (\<forall>key. distinct (get_or [] (idx r) key)) \<and>
     (\<forall>key. idx r key \<noteq> Some [])"

lemma registrar_invD:
  assumes "registrar_inv r"
  shows "names r name = Some key \<longleftrightarrow> name \<in> set (get_or [] (idx r) key)"
    and "distinct (get_or [] (idx r) key)"
    and "idx r key \<noteq> Some []"
  using assms by (auto simp: registrar_inv_def)

lemma registrar_inv_set: "registrar_inv r \<Longrightarrow> set (get_or [] (idx r) key) = {n. names r n = Some key}"
  by (auto simp: registrar_inv_def)

lemma registrar_invI:
  assumes "\<And>key. set (get_or [] (idx r) key) = {n. names r n = Some key}"
    and "\<And>key. distinct (get_or [] (idx r) key)" and "\<And>key. idx r key \<noteq> Some []"
  shows "registrar_inv r"
  using assms by (auto simp: registrar_inv_def)

lemma NewRegistrar_inv: "registrar_inv NewRegistrar"
  by (simp add: registrar_inv_def NewRegistrar_def)

lemma Reserve_inv: "registrar_inv r \<Longrightarrow> registrar_inv (fst (Reserve name key r))"
proof (cases "names r name")
  case None
  assume inv: "registrar_inv r"
  note i = registrar_inv_set [OF inv] registrar_invD(2,3) [OF inv]
  have g: "get_or [] (idx (fst (Reserve name key r))) k =
      (if k = key then get_or [] (idx r) key @ [name] else get_or [] (idx r) k)" for k
    using None by (simp add: Reserve_def get_or_upd)
  show ?thesis
  proof (rule registrar_invI)
    show "set (get_or [] (idx (fst (Reserve name key r))) k) = {n. names (fst (Reserve name key r)) n = Some k}" for k
      unfolding g using None by (auto simp: i Reserve_def)
    show "distinct (get_or [] (idx (fst (Reserve name key r))) k)" for k
      unfolding g using None by (simp add: i)
    show "idx (fst (Reserve name key r)) k \<noteq> Some []" for k
      using None i(3) by (simp add: Reserve_def)
  qed
qed (simp add: Reserve_def)

lemma Release_inv: "registrar_inv r \<Longrightarrow> registrar_inv (Release name r)"
proof (cases "names r name")
  case None
  then show "registrar_inv r \<Longrightarrow> ?thesis" by (simp add: Release_def)
next
  case (Some key)
  assume inv: "registrar_inv r"
  note i = registrar_invD [OF inv]
  have mem: "name \<in> set (get_or [] (idx r) key)"
    using i(1) Some by simp
  have "idx (Release name r) k = (if k = key then
          (if remove1 name (get_or [] (idx r) key) = [] then None
           else Some (remove1 name (get_or [] (idx r) key))) else idx r k)" for k
    using Some mem by (auto simp: Release_def Let_def get_or_upd)
  then have g: "get_or [] (idx (Release name r)) k =
      (if k = key then remove1 name (get_or [] (idx r) key) else get_or [] (idx r) k)"
    and ne: "idx (Release name r) k \<noteq> Some []" for k
    using i(3) [of k] by (auto simp: get_or_def)
  have n: "names (Release name r) = (names r)(name := None)"
    using Some by (simp add: Release_def Let_def map_delete_def)
  have "names (Release name r) m = Some k \<longleftrightarrow> m \<in> set (get_or [] (idx (Release name r)) k)" for m k
    using i(1) [of m k] i(1) [of m key] i(2) [of key] Some by (auto simp: n g)
  moreover have "distinct (get_or [] (idx (Release name r)) k)" for k
    using i(2) by (simp add: g)
  ultimately show ?thesis
    using ne by (simp add: registrar_inv_def)
qed

lemma registrar_Delete_names:
  "registrar_inv r \<Longrightarrow> names (registrar_Delete key r) = (\<lambda>n. if names r n = Some key then None else names r n)"
  by (auto simp: registrar_Delete_def registrar_inv_set fun_eq_iff)

lemma registrar_Delete_inv: "registrar_inv r \<Longrightarrow> registrar_inv (registrar_Delete key r)"
proof -
  assume inv: "registrar_inv r"
  note i = registrar_inv_set [OF inv] registrar_invD(2,3) [OF inv]
  have "get_or [] (idx (registrar_Delete key r)) k = (if k = key then [] else get_or [] (idx r) k)" for k
    by (simp add: registrar_Delete_def map_delete_def get_or_upd)
  moreover have "idx (registrar_Delete key r) k \<noteq> Some []" for k
    using i(3) by (simp add: registrar_Delete_def)
  ultimately show ?thesis
    using inv by (intro registrar_invI) (auto simp: registrar_Delete_names i)
qed

lemmas registrar_inv_steps = NewRegistrar_inv Reserve_inv Release_inv registrar_Delete_inv

section \<open>What a client relies on\<close>

text \<open>
  An index of names abstracts to the partial function from names to keys. The laws say
  what each operation does to that function; the lemmas are what the container server
  needs of its two name indices.
\<close>

locale name_index =
  fixes invar :: "'r \<Rightarrow> bool"
    and lookup :: "'r \<Rightarrow> string \<Rightarrow> string option"
    and reserve :: "string \<Rightarrow> string \<Rightarrow> 'r \<Rightarrow> 'r \<times> registrar_error option"
    and release :: "string \<Rightarrow> 'r \<Rightarrow> 'r"
    and delete_key :: "string \<Rightarrow> 'r \<Rightarrow> 'r"
  assumes reserve_invar: "invar r \<Longrightarrow> invar (fst (reserve n k r))"
    and release_invar: "invar r \<Longrightarrow> invar (release n r)"
    and delete_invar: "invar r \<Longrightarrow> invar (delete_key k r)"
    and reserve_err: "snd (reserve n k r) = (if lookup r n \<noteq> None \<and> lookup r n \<noteq> Some k
                                             then Some ErrNameReserved else None)"
    and reserve_lookup: "lookup (fst (reserve n k r)) =
                           (if lookup r n = None then (lookup r)(n \<mapsto> k) else lookup r)"
    and release_lookup: "invar r \<Longrightarrow> lookup (release n r) = (lookup r)(n := None)"
    and delete_lookup: "invar r \<Longrightarrow> lookup (delete_key k r) = (\<lambda>n. if lookup r n = Some k then None else lookup r n)"
begin

lemma reserve_ok_iff: "snd (reserve n k r) = None \<longleftrightarrow> lookup r n = None \<or> lookup r n = Some k"
  by (auto simp: reserve_err)

lemma reserve_keeps: "lookup r m = Some k' \<Longrightarrow> lookup (fst (reserve n k r)) m = Some k'"
  by (auto simp: reserve_lookup)

lemma reserve_holds: "snd (reserve n k r) = None \<Longrightarrow> lookup (fst (reserve n k r)) n = Some k"
  by (auto simp: reserve_lookup reserve_err split: if_splits)

lemma reserve_failed_noop: "snd (reserve n k r) \<noteq> None \<Longrightarrow> lookup (fst (reserve n k r)) = lookup r"
  by (auto simp: reserve_lookup reserve_err split: if_splits)

lemma released_can_be_reserved: "invar r \<Longrightarrow> snd (reserve n k (release n r)) = None"
  by (simp add: reserve_ok_iff release_lookup)

lemma reserve_release_lookup:
  "invar r \<Longrightarrow> lookup r n = None \<Longrightarrow> lookup (release n (fst (reserve n k r))) = lookup r"
  by (auto simp: release_lookup reserve_invar reserve_lookup fun_eq_iff)

end

lemma Release_names: "names (Release name r) = (names r)(name := None)"
  by (auto simp: Release_def Let_def map_delete_def fun_eq_iff split: option.splits)

interpretation reg: name_index registrar_inv names Reserve Release registrar_Delete
proof unfold_locales
  fix r n k
  show "snd (Reserve n k r) = (if names r n \<noteq> None \<and> names r n \<noteq> Some k then Some ErrNameReserved else None)"
    by (auto simp: Reserve_def split: option.splits)
  show "names (fst (Reserve n k r)) = (if names r n = None then (names r)(n \<mapsto> k) else names r)"
    by (auto simp: Reserve_def split: option.splits)
qed (simp_all add: registrar_inv_steps Release_names registrar_Delete_names)

lemma Release_Reserve:
  assumes "registrar_inv r" and "names r name = None"
  shows "Release name (fst (Reserve name key r)) = r"
proof -
  have "name \<notin> set (get_or [] (idx r) key)" using registrar_invD(1) [OF assms(1), of name key] assms(2) by simp
  then have "remove1 name (get_or [] (idx r) key @ [name]) = get_or [] (idx r) key" by (simp add: remove1_append)
  moreover have "get_or [] (idx r) key = [] \<longleftrightarrow> idx r key = None"
    using registrar_invD(3) [OF assms(1), of key] by (auto simp: get_or_def split: option.split)
  ultimately show ?thesis
    using assms(2) by (cases r) (auto simp: Reserve_def Release_def Let_def map_delete_def get_or_upd fun_eq_iff get_or_def split: option.split)
qed

section \<open>Sequences of calls\<close>

datatype registrar_op = OpReserve string string | OpRelease string | OpDelete string

fun registrar_step :: "registrar \<Rightarrow> registrar_op \<Rightarrow> registrar" where
  "registrar_step r (OpReserve n k) = fst (Reserve n k r)"
| "registrar_step r (OpRelease n) = Release n r"
| "registrar_step r (OpDelete k) = registrar_Delete k r"

definition registrar_run :: "registrar_op list \<Rightarrow> registrar" where
  "registrar_run ops = foldl registrar_step NewRegistrar ops"

lemma registrar_step_inv: "registrar_inv r \<Longrightarrow> registrar_inv (registrar_step r p)"
  by (cases p) (simp_all add: registrar_inv_steps)

lemma registrar_run_inv: "registrar_inv (registrar_run ops)"
proof -
  have "registrar_inv r \<Longrightarrow> registrar_inv (foldl registrar_step r ops)" for r
    by (induction ops arbitrary: r) (simp_all add: registrar_step_inv)
  then show ?thesis by (simp add: registrar_run_def NewRegistrar_inv)
qed

text \<open>The abstract registrar is one partial function; each call acts on it as its
  documentation says.\<close>

fun spec_step :: "(string \<rightharpoonup> string) \<Rightarrow> registrar_op \<Rightarrow> (string \<rightharpoonup> string)" where
  "spec_step m (OpReserve n k) = (if m n = None then m(n \<mapsto> k) else m)"
| "spec_step m (OpRelease n) = m(n := None)"
| "spec_step m (OpDelete k) = (\<lambda>n. if m n = Some k then None else m n)"

lemma registrar_step_refines:
  "registrar_inv r \<Longrightarrow> names (registrar_step r p) = spec_step (names r) p"
  by (cases p) (simp_all add: reg.reserve_lookup reg.release_lookup reg.delete_lookup)

lemma registrar_foldl_refines:
  "registrar_inv r \<Longrightarrow> names (foldl registrar_step r ops) = foldl spec_step (names r) ops"
  by (induction ops arbitrary: r) (simp_all add: registrar_step_refines registrar_step_inv)

section \<open>Properties\<close>

text \<open>C13: After any sequence of Reserve, Release and Delete calls, the name index is the
  abstract partial function those calls describe, the two maps agree (a name maps to a key
  exactly when it is listed once under that key), and GetNames lists exactly the names
  that Get resolves to the key, failing with ErrNoSuchKey exactly when there are none.\<close>

theorem registrar_refines_spec:
  "names (registrar_run ops) = foldl spec_step Map.empty ops \<and>
   registrar_inv (registrar_run ops) \<and>
   (case GetNames key (registrar_run ops) of
      Inr ns \<Rightarrow> ns \<noteq> [] \<and> distinct ns \<and> set ns = {n. registrar_Get n (registrar_run ops) = Inr key}
    | Inl e \<Rightarrow> e = ErrNoSuchKey \<and> {n. registrar_Get n (registrar_run ops) = Inr key} = {})"
proof -
  let ?r = "registrar_run ops"
  note inv = registrar_run_inv [of ops]
  have "names ?r = foldl spec_step Map.empty ops"
    unfolding registrar_run_def registrar_foldl_refines [OF NewRegistrar_inv]
    by (simp add: NewRegistrar_def)
  moreover have "{n. registrar_Get n ?r = Inr key} = set (get_or [] (idx ?r) key)"
    unfolding registrar_inv_set [OF inv] by (auto simp: registrar_Get_def split: option.splits)
  ultimately show ?thesis
    using inv registrar_invD(2,3) [OF inv, of key]
    by (auto simp: GetNames_def get_or_def split: option.splits)
qed

text \<open>A reservation is exclusive and idempotent: once Reserve of a name for a key has
  succeeded, Reserve of the name for the same key succeeds and changes nothing, Reserve for
  another key returns ErrNameReserved and changes nothing, and after Release of the name any
  key can reserve it.\<close>

theorem reserve_exclusive:
  assumes "registrar_inv r" and "Reserve n k r = (r', None)"
  shows "registrar_Get n r' = Inr k \<and>
    Reserve n k' r' = (r', if k' = k then None else Some ErrNameReserved) \<and>
    snd (Reserve n k' (Release n r')) = None"
proof -
  have "names r' n = Some k"
    using reg.reserve_holds [of n k r] assms(2) by simp
  moreover have "registrar_inv r'"
    using Reserve_inv [OF assms(1), of n k] assms(2) by simp
  ultimately show ?thesis
    by (simp add: registrar_Get_def Reserve_def [of n k' r'] reg.released_can_be_reserved)
qed

theorem reserve_exclusive_witness:
  "registrar_Get ''web'' (fst (Reserve ''web'' ''id1'' NewRegistrar)) = Inr ''id1'' \<and>
   snd (Reserve ''web'' ''id2'' (fst (Reserve ''web'' ''id1'' NewRegistrar))) = Some ErrNameReserved \<and>
   snd (Reserve ''web'' ''id2'' (Release ''web'' (fst (Reserve ''web'' ''id1'' NewRegistrar)))) = None"
proof -
  have ok: "Reserve ''web'' ''id1'' NewRegistrar = (fst (Reserve ''web'' ''id1'' NewRegistrar), None)"
    by (simp add: Reserve_def NewRegistrar_def)
  show ?thesis
    using reserve_exclusive [OF NewRegistrar_inv ok, of "''id2''"] by simp
qed

end
