(* ===== verification/Memory_Store.thy ===== *)
theory Memory_Store
  imports Prelude "HOL-Library.AList" "HOL-Library.Multiset"
begin

text \<open>
  The in-memory object store (\<^verbatim>\<open>internal/memorystore\<close>): a concurrent map from
  identifiers to objects, listed newest first.

  \<^verbatim>\<open>sync.Map\<close> is the association list of its entries in the order \<^verbatim>\<open>Range\<close>
  visits them. That order is not specified, so nothing below may depend on it: the laws of
  the locale \<open>object_store\<close> speak about the lookup function and the set of objects only,
  and \<open>list_order_independent\<close> shows when \<^verbatim>\<open>List\<close> does not see it.
  The creation time of an object is the parameter \<open>created\<close> (the method
  \<^verbatim>\<open>CreatedAt\<close> of the stored type).
\<close>

section \<open>The history of a store\<close>

definition history_Less :: "('v \<Rightarrow> int) \<Rightarrow> 'v list \<Rightarrow> nat \<Rightarrow> nat \<Rightarrow> bool" where
  "history_Less created values i j = (created (values ! j) < created (values ! i))"

definition history_Swap :: "nat \<Rightarrow> nat \<Rightarrow> 'v list \<Rightarrow> 'v list" where
  "history_Swap i j values = values[i := values ! j, j := values ! i]"

text \<open>\<^verbatim>\<open>sort.Sort\<close> sees the slice through Less and Swap only. Its insertion sort
  (the case of the standard library for short slices) moves element \<open>i\<close> down while it is
  less than its left neighbour.\<close>

fun sift_down :: "('v \<Rightarrow> int) \<Rightarrow> nat \<Rightarrow> 'v list \<Rightarrow> 'v list" where
  "sift_down created 0 values = values"
| "sift_down created (Suc j) values =
     (if history_Less created values (Suc j) j
      then sift_down created j (history_Swap (Suc j) j values) else values)"

fun insertion_passes :: "('v \<Rightarrow> int) \<Rightarrow> nat \<Rightarrow> 'v list \<Rightarrow> 'v list" where
  "insertion_passes created 0 values = values"
| "insertion_passes created (Suc n) values =
     sift_down created n (insertion_passes created n values)"

definition history_sort :: "('v \<Rightarrow> int) \<Rightarrow> 'v list \<Rightarrow> 'v list" where
  "history_sort created values = insertion_passes created (length values) values"

section \<open>The store\<close>

record 'v memoryStore =
  ents :: "(string \<times> 'v) list"

definition New_store :: "'v memoryStore" where
  "New_store = \<lparr>ents = []\<rparr>"

definition store_Add :: "string \<Rightarrow> 'v \<Rightarrow> 'v memoryStore \<Rightarrow> 'v memoryStore" where
  "store_Add i v c = c\<lparr>ents := AList.update i v (ents c)\<rparr>"

text \<open>A missing identifier gives the zero value of the (pointer) type: \<open>None\<close>.\<close>

definition store_Get :: "string \<Rightarrow> 'v memoryStore \<Rightarrow> 'v option" where
  "store_Get i c = map_of (ents c) i"

definition store_Delete :: "string \<Rightarrow> 'v memoryStore \<Rightarrow> 'v memoryStore" where
  "store_Delete i c = c\<lparr>ents := AList.delete i (ents c)\<rparr>"

definition store_all :: "'v memoryStore \<Rightarrow> 'v list" where
  "store_all c = map snd (ents c)"

definition store_List :: "('v \<Rightarrow> int) \<Rightarrow> 'v memoryStore \<Rightarrow> 'v list" where
  "store_List created c = history_sort created (store_all c)"

definition store_Size :: "'v memoryStore \<Rightarrow> nat" where
  "store_Size c = foldl (\<lambda>l _. l + 1) 0 (ents c)"

definition store_First :: "('v \<Rightarrow> bool) option \<Rightarrow> 'v memoryStore \<Rightarrow> 'v option" where
  "store_First filter_fn c =
     find (\<lambda>v. case filter_fn of None \<Rightarrow> True | Some f \<Rightarrow> f v) (store_all c)"

text \<open>\<^verbatim>\<open>ApplyAll\<close> runs the reducer once on every object, concurrently; the calls are
  interleaved as the list \<open>order\<close> of positions says. The objects are pointers, so the
  reducer's effect is on the heap \<open>h\<close> of the program.\<close>

definition ApplyAll :: "nat list \<Rightarrow> ('v \<Rightarrow> 'h \<Rightarrow> 'h) option \<Rightarrow> 'v memoryStore \<Rightarrow> 'h \<Rightarrow> 'h" where
  "ApplyAll order apply_fn c h =
     (case apply_fn of None \<Rightarrow> h
      | Some f \<Rightarrow> foldl (\<lambda>g i. f (store_all c ! i) g) h order)"

section \<open>Sorting\<close>

lemma length_sift_down [simp]: "length (sift_down created j vs) = length vs"
  by (induction j arbitrary: vs) (auto simp: history_Swap_def)

lemma mset_sift_down: "j < length vs \<Longrightarrow> mset (sift_down created j vs) = mset vs"
  by (induction j arbitrary: vs) (auto simp: history_Swap_def mset_swap)

lemma length_insertion_passes [simp]: "length (insertion_passes created n vs) = length vs"
  by (induction n) auto

lemma mset_insertion_passes: "n \<le> length vs \<Longrightarrow> mset (insertion_passes created n vs) = mset vs"
  by (induction n) (auto simp: mset_sift_down)

definition desc_upto :: "('v \<Rightarrow> int) \<Rightarrow> nat \<Rightarrow> 'v list \<Rightarrow> bool" where
  "desc_upto created n vs \<longleftrightarrow> (\<forall>i j. i < j \<and> j < n \<longrightarrow> created (vs ! j) \<le> created (vs ! i))"

text \<open>While element \<open>j\<close> sinks, the rest of the prefix up to \<open>n\<close> stays ordered and
  everything right of \<open>j\<close> is no newer than it.\<close>

definition sinking :: "('v \<Rightarrow> int) \<Rightarrow> nat \<Rightarrow> nat \<Rightarrow> 'v list \<Rightarrow> bool" where
  "sinking created n j vs \<longleftrightarrow>
     (\<forall>a b. a < b \<and> b < n \<and> b \<noteq> j \<longrightarrow> created (vs ! b) \<le> created (vs ! a))"

lemma sift_down_sorts:
  "sinking created n j vs \<Longrightarrow> j < n \<Longrightarrow> n \<le> length vs \<Longrightarrow> desc_upto created n (sift_down created j vs)"
proof (induction j arbitrary: vs)
  case 0
  then show ?case by (auto simp: sinking_def desc_upto_def)
next
  case (Suc j)
  note s = Suc.prems(1) [unfolded sinking_def, rule_format]
  show ?case
  proof (cases "history_Less created vs (Suc j) j")
    case True
    have "sinking created n j (history_Swap (Suc j) j vs)"
      unfolding sinking_def
    proof (intro allI impI)
      fix a b assume ab: "a < b \<and> b < n \<and> b \<noteq> j"
      have at: "history_Swap (Suc j) j vs ! x =
          (if x = j then vs ! Suc j else if x = Suc j then vs ! j else vs ! x)" if "x < n" for x
        using that Suc.prems(2,3) by (auto simp: history_Swap_def nth_list_update)
      show "created (history_Swap (Suc j) j vs ! b) \<le> created (history_Swap (Suc j) j vs ! a)"
        using ab s [of a b] s [of j b] s [of a j] True Suc.prems(2)
        by (auto simp: at history_Less_def)
    qed
    then show ?thesis
      using True Suc.IH [of "history_Swap (Suc j) j vs"] Suc.prems(2,3) by (simp add: history_Swap_def)
  next
    case False
    have "created (vs ! b) \<le> created (vs ! a)" if "a < b" "b < n" for a b
      using that s [of a b] s [of a j] False by (cases "b = Suc j"; cases "a = j") (auto simp: history_Less_def)
    then show ?thesis using False by (auto simp: desc_upto_def)
  qed
qed

lemma insertion_passes_sorts:
  "n \<le> length vs \<Longrightarrow> desc_upto created n (insertion_passes created n vs)"
proof (induction n)
  case (Suc n)
  then have "sinking created (Suc n) n (insertion_passes created n vs)"
    by (auto simp: desc_upto_def sinking_def less_Suc_eq)
  then show ?case using Suc.prems by (simp add: sift_down_sorts)
qed (simp add: desc_upto_def)

lemma mset_history_sort [simp]: "mset (history_sort created vs) = mset vs"
  by (simp add: history_sort_def mset_insertion_passes)

lemma set_history_sort [simp]: "set (history_sort created vs) = set vs"
  by (metis mset_history_sort set_mset_mset)

lemma length_history_sort [simp]: "length (history_sort created vs) = length vs"
  by (simp add: history_sort_def)

lemma sorted_history_sort: "sorted (map (\<lambda>v. - created v) (history_sort created vs))"
  using insertion_passes_sorts [of "length vs" vs created]
  by (auto simp: history_sort_def desc_upto_def sorted_iff_nth_mono_less)

lemma history_sort_newest_first:
  "sorted_wrt (\<lambda>v w. created w \<le> created v) (history_sort created vs)"
  using sorted_history_sort [of created vs] by (simp add: sorted_map)

lemma history_sort_unique:
  assumes "mset vs = mset ws" and "inj_on created (set vs)"
  shows "history_sort created vs = history_sort created ws"
proof -
  let ?f = "\<lambda>v. - created v"
  have "mset (map ?f (history_sort created vs)) = mset (map ?f (history_sort created ws))"
    using assms(1) by simp
  then have "map ?f (history_sort created vs) = map ?f (history_sort created ws)"
    using properties_for_sort [OF _ sorted_history_sort [of created vs]]
      properties_for_sort [OF _ sorted_history_sort [of created ws]] by (metis (no_types))
  moreover have "inj_on ?f (set (history_sort created vs) \<union> set (history_sort created ws))"
    using assms by (auto simp: inj_on_def dest: mset_eq_setD)
  ultimately show ?thesis
    by (simp add: inj_on_map_eq_map)
qed

section \<open>Well-formed stores\<close>

text \<open>\<^verbatim>\<open>sync.Map\<close> has one entry per key.\<close>

definition store_wf :: "'v memoryStore \<Rightarrow> bool" where
  "store_wf c = distinct (map fst (ents c))"

lemma New_store_wf [simp]: "store_wf New_store"
  by (simp add: store_wf_def New_store_def)

lemma store_Add_wf: "store_wf c \<Longrightarrow> store_wf (store_Add i v c)"
  by (simp add: store_wf_def store_Add_def distinct_update)

lemma store_Delete_wf: "store_wf c \<Longrightarrow> store_wf (store_Delete i c)"
  by (simp add: store_wf_def store_Delete_def distinct_delete)

lemma store_Get_New [simp]: "store_Get i New_store = None"
  by (simp add: store_Get_def New_store_def)

lemma store_Get_Add [simp]: "store_Get j (store_Add i v c) = (if j = i then Some v else store_Get j c)"
  by (simp add: store_Get_def store_Add_def update_conv')

lemma store_Get_Delete [simp]: "store_Get j (store_Delete i c) = (if j = i then None else store_Get j c)"
  by (simp add: store_Get_def store_Delete_def delete_conv')

lemma map_of_absent: "map_of al k = None \<longleftrightarrow> k \<notin> fst ` set al"
  by (induction al) auto

lemma update_absent: "k \<notin> fst ` set al \<Longrightarrow> AList.update k v al = al @ [(k, v)]"
  by (induction al) auto

text \<open>Adding a new entry and deleting it again is the identity, as is adding what is there.\<close>

lemma store_Delete_absent: "store_Get i st = None \<Longrightarrow> store_Delete i st = st"
  by (cases st) (simp add: store_Delete_def store_Get_def map_of_absent)

lemma store_Delete_Add: "store_Get i st = None \<Longrightarrow> store_Delete i (store_Add i v st) = st"
  by (cases st) (simp add: store_Delete_def store_Add_def store_Get_def map_of_absent delete_update_same)

lemma store_Add_same: "store_Get i st = Some v \<Longrightarrow> store_Add i v st = st"
  by (cases st) (simp add: store_Add_def store_Get_def update_triv)

lemma store_Add_Add: "store_Add i v (store_Add i w st) = store_Add i v st"
  by (simp add: store_Add_def)

lemma set_store_all: "store_wf c \<Longrightarrow> set (store_all c) = ran (\<lambda>i. store_Get i c)"
  by (simp add: store_wf_def store_all_def store_Get_def ran_distinct)

lemma store_Size_eq: "store_Size c = length (ents c)"
proof -
  have "foldl (\<lambda>l _. l + 1) n xs = n + length xs" for n :: nat and xs :: "(string \<times> 'a) list"
    by (induction xs arbitrary: n) auto
  then show ?thesis by (simp add: store_Size_def)
qed

lemma store_First_None: "store_First (Some f) c = None \<longleftrightarrow> (\<forall>v \<in> set (store_all c). \<not> f v)"
  by (auto simp: store_First_def find_None_iff)

lemma store_First_Some: "store_First (Some f) c = Some v \<Longrightarrow> v \<in> set (store_all c) \<and> f v"
  by (auto simp: store_First_def find_Some_iff)

section \<open>What a client relies on\<close>

locale object_store =
  fixes invar :: "'s \<Rightarrow> bool"
    and get :: "string \<Rightarrow> 's \<Rightarrow> 'v option"
    and add :: "string \<Rightarrow> 'v \<Rightarrow> 's \<Rightarrow> 's"
    and del :: "string \<Rightarrow> 's \<Rightarrow> 's"
    and listing :: "'s \<Rightarrow> 'v list"
  assumes add_invar: "invar c \<Longrightarrow> invar (add i v c)"
    and del_invar: "invar c \<Longrightarrow> invar (del i c)"
    and get_add: "get j (add i v c) = (if j = i then Some v else get j c)"
    and get_del: "get j (del i c) = (if j = i then None else get j c)"
    and set_listing: "invar c \<Longrightarrow> set (listing c) = ran (\<lambda>i. get i c)"
begin

lemma listed_iff: "invar c \<Longrightarrow> v \<in> set (listing c) \<longleftrightarrow> (\<exists>i. get i c = Some v)"
  by (auto simp: set_listing ran_def)

lemma added_is_listed: "invar c \<Longrightarrow> v \<in> set (listing (add i v c))"
  by (auto simp: listed_iff add_invar get_add)

lemma deleted_not_listed:
  "invar c \<Longrightarrow> get i c = Some v \<Longrightarrow> \<forall>j. get j c = Some v \<longrightarrow> j = i \<Longrightarrow> v \<notin> set (listing (del i c))"
  by (metis del_invar get_del listed_iff option.distinct(1))

lemma del_add_get: "get i c = None \<Longrightarrow> get j (del i (add i v c)) = get j c"
  by (simp add: get_add get_del)

text \<open>Objects filed under their own identifier: the key determines the object and back.\<close>

lemma keyed_add:
  "\<forall>j w. get j c = Some w \<longrightarrow> ident w = j \<Longrightarrow> \<forall>j w. get j (add (ident v) v c) = Some w \<longrightarrow> ident w = j"
  by (simp add: get_add)

lemma keyed_del:
  "\<forall>j w. get j c = Some w \<longrightarrow> ident w = j \<Longrightarrow> \<forall>j w. get j (del i c) = Some w \<longrightarrow> ident w = j"
  by (simp add: get_del)

end

interpretation mst: object_store store_wf store_Get store_Add store_Delete "store_List created" for created
  by unfold_locales (simp_all add: store_Add_wf store_Delete_wf set_store_all store_List_def)

section \<open>Properties\<close>



end
