(* ===== verification/Trunc_Index.thy ===== *)
theory Trunc_Index
  imports Prelude "HOL-Library.Char_ord" "HOL-Library.List_Lexorder"
begin

text \<open>
  The index of identifiers by unique prefix
  (\<^verbatim>\<open>vendor/github.com/containers/storage/pkg/truncindex/truncindex.go\<close>), with which
  the runtime lets a client name a container or pod by the first characters of its identifier.

  The Patricia trie below it is represented by the list of its keys in the alphabetical order
  in which it visits them; its three methods the index calls are \<open>trie_Insert\<close>,
  \<open>trie_Delete\<close> and \<open>trie_VisitSubtree\<close>. The index calls the trie's Delete
  only with keys it holds.
\<close>

datatype trunc_error = ErrEmptyPrefix | ErrIllegalChar | ErrNotExist | ErrAmbiguousPrefix string
  | ErrIdExists string | ErrInsertFailed string | ErrNoSuchId string

record TruncIndex =
  trie :: "string list"
  ids :: "string set"

definition trie_Insert :: "string \<Rightarrow> string list \<Rightarrow> string list \<times> bool" where
  "trie_Insert k t = (if k \<in> set t then (t, False) else (insort k t, True))"

definition trie_Delete :: "string \<Rightarrow> string list \<Rightarrow> string list \<times> bool" where
  "trie_Delete k t = (if k \<in> set t then (remove1 k t, True) else (t, False))"

text \<open>A visitor threads its state (the captured variable) and may stop with an error.\<close>

fun walk :: "('s \<Rightarrow> string \<Rightarrow> 's \<times> trunc_error option) \<Rightarrow> 's \<Rightarrow> string list \<Rightarrow> 's \<times> trunc_error option" where
  "walk visitor s [] = (s, None)"
| "walk visitor s (k # ks) =
     (case visitor s k of (s', Some e) \<Rightarrow> (s', Some e) | (s', None) \<Rightarrow> walk visitor s' ks)"

definition trie_VisitSubtree :: "string \<Rightarrow> ('s \<Rightarrow> string \<Rightarrow> 's \<times> trunc_error option) \<Rightarrow> 's \<Rightarrow> string list \<Rightarrow> 's \<times> trunc_error option" where
  "trie_VisitSubtree p visitor s t = walk visitor s (filter (\<lambda>k. has_prefix k p) t)"

definition addID :: "string \<Rightarrow> TruncIndex \<Rightarrow> TruncIndex \<times> trunc_error option" where
  "addID i ix =
     (if str_contains i '' '' then (ix, Some ErrIllegalChar)
      else if i = '''' then (ix, Some ErrEmptyPrefix)
      else if i \<in> ids ix then (ix, Some (ErrIdExists i))
      else let ix1 = ix\<lparr>ids := insert i (ids ix)\<rparr>;
               (t, inserted) = trie_Insert i (trie ix1)
           in (ix1\<lparr>trie := t\<rparr>, if inserted then None else Some (ErrInsertFailed i)))"

definition NewTruncIndex :: "string list \<Rightarrow> TruncIndex" where
  "NewTruncIndex init = foldl (\<lambda>ix i. fst (addID i ix)) \<lparr>trie = [], ids = {}\<rparr> init"

definition trunc_Add :: "string \<Rightarrow> TruncIndex \<Rightarrow> TruncIndex \<times> trunc_error option" where
  "trunc_Add i ix = addID i ix"

definition trunc_Delete :: "string \<Rightarrow> TruncIndex \<Rightarrow> TruncIndex \<times> trunc_error option" where
  "trunc_Delete i ix =
     (if i \<notin> ids ix \<or> i = '''' then (ix, Some (ErrNoSuchId i))
      else let ix1 = ix\<lparr>ids := ids ix - {i}\<rparr>;
               (t, deleted) = trie_Delete i (trie ix1)
           in (ix1\<lparr>trie := t\<rparr>, if deleted then None else Some (ErrNoSuchId i)))"

definition subTreeVisitFunc :: "string \<Rightarrow> string \<Rightarrow> string \<times> trunc_error option" where
  "subTreeVisitFunc i p = (if i \<noteq> '''' then ('''', Some (ErrAmbiguousPrefix p)) else (p, None))"

definition trunc_Get :: "string \<Rightarrow> TruncIndex \<Rightarrow> trunc_error + string" where
  "trunc_Get s ix =
     (if s = '''' then Inl ErrEmptyPrefix
      else case trie_VisitSubtree s subTreeVisitFunc '''' (trie ix) of
             (_, Some e) \<Rightarrow> Inl e
           | (i, None) \<Rightarrow> if i \<noteq> '''' then Inr i else Inl ErrNotExist)"

section \<open>Invariant\<close>

definition trunc_inv :: "TruncIndex \<Rightarrow> bool" where
  "trunc_inv ix \<longleftrightarrow> set (trie ix) = ids ix \<and> distinct (trie ix) \<and> sorted (trie ix) \<and>
     (\<forall>i \<in> ids ix. i \<noteq> '''' \<and> \<not> str_contains i '' '')"

lemma addID_inv: "trunc_inv ix \<Longrightarrow> trunc_inv (fst (addID i ix))"
  by (auto simp: trunc_inv_def addID_def trie_Insert_def Let_def set_insort_key distinct_insort sorted_insort)

lemma trunc_Delete_inv: "trunc_inv ix \<Longrightarrow> trunc_inv (fst (trunc_Delete i ix))"
  by (auto simp: trunc_inv_def trunc_Delete_def trie_Delete_def Let_def sorted_remove1)

lemma NewTruncIndex_inv: "trunc_inv (NewTruncIndex init)"
proof -
  have "trunc_inv ix \<Longrightarrow> trunc_inv (foldl (\<lambda>ix i. fst (addID i ix)) ix init)" for ix
    by (induction init arbitrary: ix) (simp_all add: addID_inv)
  moreover have "trunc_inv \<lparr>trie = [], ids = {}\<rparr>"
    by (simp add: trunc_inv_def)
  ultimately show ?thesis by (simp only: NewTruncIndex_def)
qed

lemma trunc_Add_inv: "trunc_inv ix \<Longrightarrow> trunc_inv (fst (trunc_Add i ix))"
  by (simp add: trunc_Add_def addID_inv)

lemma trunc_Add_ok_iff:
  "trunc_inv ix \<Longrightarrow> snd (trunc_Add i ix) = None \<longleftrightarrow> i \<noteq> '''' \<and> \<not> str_contains i '' '' \<and> i \<notin> ids ix"
  by (auto simp: trunc_Add_def addID_def trunc_inv_def trie_Insert_def Let_def)

lemma trunc_Add_ids:
  "ids (fst (trunc_Add i ix)) = (if i \<noteq> '''' \<and> \<not> str_contains i '' '' then insert i (ids ix) else ids ix)"
  by (auto simp: trunc_Add_def addID_def Let_def split: prod.splits)

lemma trunc_Delete_ids:
  "trunc_inv ix \<Longrightarrow> ids (fst (trunc_Delete i ix)) = ids ix - {i}"
  by (auto simp: trunc_Delete_def trunc_inv_def Let_def split: prod.splits)

lemma trunc_Delete_ok_iff:
  "trunc_inv ix \<Longrightarrow> snd (trunc_Delete i ix) = None \<longleftrightarrow> i \<in> ids ix"
  by (auto simp: trunc_Delete_def trunc_inv_def trie_Delete_def Let_def)

lemma trunc_Delete_Add:
  assumes "trunc_inv ix" and "snd (trunc_Add i ix) = None"
  shows "trunc_Delete i (fst (trunc_Add i ix)) = (ix, None)"
  using assms trunc_Add_ok_iff [OF assms(1), of i]
  by (cases ix) (auto simp: trunc_Add_def addID_def trunc_Delete_def trunc_inv_def trie_Insert_def trie_Delete_def Let_def
      set_insort_key remove1_insort_key)

lemma trunc_Add_failed: "trunc_inv ix \<Longrightarrow> snd (trunc_Add i ix) \<noteq> None \<Longrightarrow> fst (trunc_Add i ix) = ix"
  by (auto simp: trunc_Add_def addID_def trunc_inv_def trie_Insert_def Let_def)

section \<open>Lookups\<close>

text \<open>The visitor's captured variable ends as the only key visited, or the walk stops.\<close>

lemma walk_subTreeVisitFunc:
  assumes "'''' \<notin> set ks"
  shows "walk subTreeVisitFunc '''' ks =
    (case ks of [] \<Rightarrow> ('''', None) | [k] \<Rightarrow> (k, None) | _ # k # _ \<Rightarrow> ('''', Some (ErrAmbiguousPrefix k)))"
  using assms by (auto simp: subTreeVisitFunc_def split: list.splits)

lemma trunc_Get_cases:
  assumes "trunc_inv ix"
  shows "trunc_Get s ix =
    (if s = '''' then Inl ErrEmptyPrefix
     else case filter (\<lambda>k. has_prefix k s) (trie ix) of
       [] \<Rightarrow> Inl ErrNotExist | [k] \<Rightarrow> Inr k | _ # k # _ \<Rightarrow> Inl (ErrAmbiguousPrefix k))"
proof -
  have "'''' \<notin> set (filter (\<lambda>k. has_prefix k s) (trie ix))"
    using assms by (auto simp: trunc_inv_def)
  moreover define ks where "ks = filter (\<lambda>k. has_prefix k s) (trie ix)"
  ultimately have "'''' \<notin> set ks" by simp
  then show ?thesis
    unfolding trunc_Get_def trie_VisitSubtree_def ks_def [symmetric]
    by (auto simp: walk_subTreeVisitFunc split: list.splits)
qed

lemma trunc_Get_ok_iff:
  assumes "trunc_inv ix" and "s \<noteq> ''''"
  shows "trunc_Get s ix = Inr i \<longleftrightarrow> {k \<in> ids ix. has_prefix k s} = {i}"
proof -
  have d: "distinct (filter (\<lambda>k. has_prefix k s) (trie ix))"
    and s: "set (filter (\<lambda>k. has_prefix k s) (trie ix)) = {k \<in> ids ix. has_prefix k s}"
    using assms(1) by (auto simp: trunc_inv_def)
  have "filter (\<lambda>k. has_prefix k s) (trie ix) = [i] \<longleftrightarrow> {k \<in> ids ix. has_prefix k s} = {i}"
    unfolding s [symmetric] using distinct_set_singleton [OF d] by simp
  moreover define ks where "ks = filter (\<lambda>k. has_prefix k s) (trie ix)"
  ultimately show ?thesis
    using assms(2) unfolding trunc_Get_cases [OF assms(1)] ks_def [symmetric]
    by (auto split: list.splits)
qed

lemma trunc_Get_None_iff:
  assumes "trunc_inv ix"
  shows "trunc_Get s ix = Inl ErrNotExist \<longleftrightarrow> s \<noteq> '''' \<and> {k \<in> ids ix. has_prefix k s} = {}"
proof -
  have "filter (\<lambda>k. has_prefix k s) (trie ix) = [] \<longleftrightarrow> {k \<in> ids ix. has_prefix k s} = {}"
    using assms by (auto simp: trunc_inv_def filter_empty_conv)
  moreover define ks where "ks = filter (\<lambda>k. has_prefix k s) (trie ix)"
  ultimately show ?thesis
    unfolding trunc_Get_cases [OF assms] ks_def [symmetric] by (auto split: list.splits)
qed

section \<open>What a client relies on\<close>

locale id_index =
  fixes invar :: "'r \<Rightarrow> bool"
    and members :: "'r \<Rightarrow> string set"
    and add :: "string \<Rightarrow> 'r \<Rightarrow> 'r \<times> trunc_error option"
    and del :: "string \<Rightarrow> 'r \<Rightarrow> 'r \<times> trunc_error option"
    and get :: "string \<Rightarrow> 'r \<Rightarrow> trunc_error + string"
  assumes add_invar: "invar ix \<Longrightarrow> invar (fst (add i ix))"
    and del_invar: "invar ix \<Longrightarrow> invar (fst (del i ix))"
    and add_members: "members (fst (add i ix)) = (if i \<noteq> '''' \<and> \<not> str_contains i '' '' then insert i (members ix) else members ix)"
    and add_ok: "invar ix \<Longrightarrow> snd (add i ix) = None \<longleftrightarrow> i \<noteq> '''' \<and> \<not> str_contains i '' '' \<and> i \<notin> members ix"
    and del_members: "invar ix \<Longrightarrow> members (fst (del i ix)) = members ix - {i}"
    and del_ok: "invar ix \<Longrightarrow> snd (del i ix) = None \<longleftrightarrow> i \<in> members ix"
    and get_ok: "invar ix \<Longrightarrow> s \<noteq> '''' \<Longrightarrow> get s ix = Inr i \<longleftrightarrow> {k \<in> members ix. has_prefix k s} = {i}"
begin

lemma get_member: "invar ix \<Longrightarrow> s \<noteq> '''' \<Longrightarrow> get s ix = Inr i \<Longrightarrow> i \<in> members ix \<and> has_prefix i s"
  by (auto simp: get_ok)

text \<open>Identifiers of one fixed length never shadow each other: a full identifier always
  resolves to itself.\<close>

lemma get_full_id:
  assumes "invar ix" and "i \<in> members ix" and "i \<noteq> ''''" and "\<And>k. k \<in> members ix \<Longrightarrow> length k = length i"
  shows "get i ix = Inr i"
proof -
  have "k = i" if "k \<in> members ix" "has_prefix k i" for k
    using that assms(4) [of k] by (simp add: has_prefix_def)
  then have "{k \<in> members ix. has_prefix k i} = {i}"
    using assms(2) by auto
  then show ?thesis by (simp add: get_ok assms(1,3))
qed

lemma added_then_deleted:
  assumes "invar ix" and "snd (add i ix) = None"
  shows "members (fst (del i (fst (add i ix)))) = members ix"
  using assms by (auto simp: del_members add_invar add_members add_ok)

end

interpretation tix: id_index trunc_inv ids trunc_Add trunc_Delete trunc_Get
  by unfold_locales
    (auto simp: trunc_Add_inv trunc_Delete_inv trunc_Add_ids trunc_Add_ok_iff trunc_Delete_ids
      trunc_Delete_ok_iff trunc_Get_ok_iff)

section \<open>Sequences of calls\<close>

datatype trunc_op = TAdd string | TDel string

fun trunc_step :: "TruncIndex \<Rightarrow> trunc_op \<Rightarrow> TruncIndex" where
  "trunc_step ix (TAdd i) = fst (trunc_Add i ix)"
| "trunc_step ix (TDel i) = fst (trunc_Delete i ix)"

definition trunc_run :: "string list \<Rightarrow> trunc_op list \<Rightarrow> TruncIndex" where
  "trunc_run init ops = foldl trunc_step (NewTruncIndex init) ops"

lemma trunc_run_inv: "trunc_inv (trunc_run init ops)"
proof -
  have "trunc_inv ix \<Longrightarrow> trunc_inv (foldl trunc_step ix ops)" for ix
  proof (induction ops arbitrary: ix)
    case (Cons p ops)
    then show ?case by (cases p) (simp_all add: trunc_Add_inv trunc_Delete_inv)
  qed simp
  then show ?thesis unfolding trunc_run_def using NewTruncIndex_inv by blast
qed

section \<open>Properties\<close>


end
