(* ===== verification/Resource_Store.thy ===== *)
theory Resource_Store
  imports Prelude "HOL-Library.Multiset"
begin

text \<open>
  The store of recently created resources and their cleaners
  (\<^verbatim>\<open>internal/resourcestore\<close>). A request that times out leaves its container or pod
  here; the retried request picks it up with Get, and a background loop cleans up what nobody
  asked for within two of its rounds.

  Every method holds the mutex for its whole body and is one atomic step. A resource is
  known by its identifier; the call of its SetCreated method is recorded in
  \<open>created_log\<close>. A watcher is a channel with a buffer of one element: \<open>chans\<close>
  counts the buffered elements of every channel made so far, and a send to a full channel
  blocks for ever, because the receiver's view of the store is behind the mutex.
\<close>

section \<open>Cleaners\<close>

text \<open>A cleanup function acts on a world \<open>'w\<close> and may fail.\<close>

type_synonym 'w cleanupFunc = "'w \<Rightarrow> 'w \<times> string option"

record 'w ResourceCleaner =
  funcs :: "'w cleanupFunc list"

definition NewResourceCleaner :: "'w ResourceCleaner" where
  "NewResourceCleaner = \<lparr>funcs = []\<rparr>"

definition defaultRetryTimes :: nat where
  "defaultRetryTimes = 20"

text \<open>\<^verbatim>\<open>wait.ExponentialBackoff\<close>: run the condition, and unless it is done or failed
  sleep and try again, \<open>steps\<close> times in all. The condition gives (done, error).\<close>

fun ExponentialBackoff :: "nat \<Rightarrow> ('w \<Rightarrow> 'w \<times> bool \<times> string option) \<Rightarrow> 'w \<Rightarrow> 'w \<times> string option" where
  "ExponentialBackoff 0 condition w = (w, Some ''ErrWaitTimeout'')"
| "ExponentialBackoff (Suc n) condition w =
     (let (w', ok, err) = condition w
      in if err \<noteq> None \<or> ok then (w', err)
         else if Suc n = 1 then (w', Some ''ErrWaitTimeout'')
         else ExponentialBackoff n condition w')"

definition retry :: "'w cleanupFunc \<Rightarrow> 'w cleanupFunc" where
  "retry fn w =
     (case ExponentialBackoff defaultRetryTimes
             (\<lambda>v. case fn v of (v', Some _) \<Rightarrow> (v', False, None) | (v', None) \<Rightarrow> (v', True, None)) w of
        (w', Some e) \<Rightarrow> (w', Some (''wait on retry: '' @ e))
      | (w', None) \<Rightarrow> (w', None))"

definition cleaner_Add :: "'w cleanupFunc \<Rightarrow> 'w ResourceCleaner \<Rightarrow> 'w ResourceCleaner" where
  "cleaner_Add fn r = r\<lparr>funcs := retry fn # funcs r\<rparr>"

fun run_funcs :: "'w cleanupFunc list \<Rightarrow> 'w \<Rightarrow> 'w \<times> string option" where
  "run_funcs [] w = (w, None)"
| "run_funcs (f # fs) w =
     (case f w of (w', Some e) \<Rightarrow> (w', Some e) | (w', None) \<Rightarrow> run_funcs fs w')"

definition Cleanup :: "'w ResourceCleaner \<Rightarrow> 'w \<Rightarrow> 'w \<times> string option" where
  "Cleanup r w = run_funcs (funcs r) w"

text \<open>The world after \<open>n\<close> failed attempts, and the number of the first attempt that
  succeeds.\<close>

definition attempt :: "'w cleanupFunc \<Rightarrow> nat \<Rightarrow> 'w \<Rightarrow> 'w" where
  "attempt fn n w = ((\<lambda>v. fst (fn v)) ^^ n) w"

lemma attempt_Suc: "attempt fn (Suc n) w = attempt fn n (fst (fn w))"
  by (simp add: attempt_def funpow_Suc_right del: funpow.simps)

lemma ExponentialBackoff_retry:
  "ExponentialBackoff n (\<lambda>v. case fn v of (v', Some _) \<Rightarrow> (v', False, None) | (v', None) \<Rightarrow> (v', True, None)) w =
     (case find (\<lambda>k. snd (fn (attempt fn k w)) = None) [0..<n] of
        Some k \<Rightarrow> (attempt fn (Suc k) w, None)
      | None \<Rightarrow> (attempt fn n w, Some ''ErrWaitTimeout''))"
proof (induction n arbitrary: w)
  case 0
  then show ?case by (simp add: attempt_def)
next
  case (Suc n)
  have upt: "[0..<Suc n] = 0 # map Suc [0..<n]"
    by (simp add: upt_conv_Cons map_Suc_upt del: upt_Suc)
  have fm: "find P (map Suc xs) = map_option Suc (find (\<lambda>k. P (Suc k)) xs)" for P xs
    by (induction xs) auto
  let ?cond = "\<lambda>v. case fn v of (v', Some _) \<Rightarrow> (v', False, None) | (v', None) \<Rightarrow> (v', True, None)"
  obtain w' e where f: "fn w = (w', e)" by (cases "fn w")
  have 0: "attempt fn 0 w = w" by (simp add: attempt_def)
  show ?case
  proof (cases e)
    case None
    then show ?thesis unfolding upt using f by (simp add: 0 attempt_Suc) (simp add: attempt_def)
  next
    case (Some x)
    then have "ExponentialBackoff (Suc n) ?cond w = ExponentialBackoff n ?cond w'"
      using f by (cases n) simp_all
    also have "\<dots> = (case find (\<lambda>k. snd (fn (attempt fn (Suc k) w)) = None) [0..<n] of
        Some k \<Rightarrow> (attempt fn (Suc (Suc k)) w, None)
      | None \<Rightarrow> (attempt fn (Suc n) w, Some ''ErrWaitTimeout''))"
      using f by (simp add: Suc.IH attempt_Suc split: option.split)
    finally show ?thesis
      unfolding upt using f Some by (simp add: 0 fm split: option.split)
  qed
qed

section \<open>The store\<close>

record 'w Resource =
  resource :: "string option"
  cleaner :: "'w ResourceCleaner option"
  watchers :: "nat list"
  stale :: bool
  rname :: string
  stage :: string

definition empty_Resource :: "'w Resource" where
  "empty_Resource = \<lparr>resource = None, cleaner = None, watchers = [], stale = False, rname = '''', stage = ''''\<rparr>"

record 'w ResourceStore =
  resources :: "string \<rightharpoonup> 'w Resource"
  closed :: bool
  chans :: "nat list"
  created_log :: "string list"

definition StageUnknown :: string where
  "StageUnknown = ''unknown''"

definition wasPut :: "'w Resource \<Rightarrow> bool" where
  "wasPut r = (resource r \<noteq> None)"

definition NewWithTimeout :: "'w ResourceStore" where
  "NewWithTimeout = \<lparr>resources = Map.empty, closed = False, chans = [], created_log = []\<rparr>"

definition rs_Close :: "'w ResourceStore \<Rightarrow> 'w ResourceStore" where
  "rs_Close rc = (if closed rc then rc else rc\<lparr>closed := True\<rparr>)"

definition rs_Get :: "string \<Rightarrow> 'w ResourceStore \<Rightarrow> 'w ResourceStore \<times> string" where
  "rs_Get name rc =
     (case resources rc name of
        None \<Rightarrow> (rc, '''')
      | Some r \<Rightarrow>
          (case resource r of
             None \<Rightarrow> (rc, '''')
           | Some i \<Rightarrow> (rc\<lparr>resources := map_delete name (resources rc),
                          created_log := created_log rc @ [i]\<rparr>, i)))"

text \<open>Sending to the channels of a list, in order; \<open>None\<close> is blocking on a full one.\<close>

fun notify :: "nat list \<Rightarrow> nat list \<Rightarrow> nat list option" where
  "notify [] cs = Some cs"
| "notify (w # ws) cs = (if cs ! w < 1 then notify ws (cs[w := cs ! w + 1]) else None)"

datatype put_error = PutExists string | PutBlocks

definition rs_Put :: "string \<Rightarrow> string option \<Rightarrow> 'w ResourceCleaner option \<Rightarrow> 'w ResourceStore \<Rightarrow> put_error + 'w ResourceStore" where
  "rs_Put name res cl rc =
     (let r = (case resources rc name of None \<Rightarrow> empty_Resource | Some r \<Rightarrow> r)
      in if wasPut r then Inl (PutExists name)
         else let r' = r\<lparr>resource := res, cleaner := cl, rname := name\<rparr>
              in case notify (watchers r') (chans rc) of
                   None \<Rightarrow> Inl PutBlocks
                 | Some cs \<Rightarrow> Inr (rc\<lparr>resources := (resources rc)(name \<mapsto> r'), chans := cs\<rparr>))"

definition rs_Delete :: "string \<Rightarrow> 'w ResourceStore \<Rightarrow> 'w ResourceStore" where
  "rs_Delete name rc = rc\<lparr>resources := map_delete name (resources rc)\<rparr>"

definition WatcherForResource :: "string \<Rightarrow> 'w ResourceStore \<Rightarrow> 'w ResourceStore \<times> nat \<times> string" where
  "WatcherForResource name rc =
     (let watcher = length (chans rc);
          rc1 = rc\<lparr>chans := chans rc @ [0]\<rparr>
      in case resources rc1 name of
           None \<Rightarrow> (rc1\<lparr>resources := (resources rc1)(name \<mapsto>
                       empty_Resource\<lparr>watchers := [watcher], rname := name\<rparr>)\<rparr>, watcher, StageUnknown)
         | Some r \<Rightarrow> (rc1\<lparr>resources := (resources rc1)(name \<mapsto> r\<lparr>watchers := watchers r @ [watcher]\<rparr>)\<rparr>,
                      watcher, stage r))"

definition SetStageForResource :: "string \<Rightarrow> string \<Rightarrow> 'w ResourceStore \<Rightarrow> 'w ResourceStore" where
  "SetStageForResource name st rc =
     (case resources rc name of
        None \<Rightarrow> rc\<lparr>resources := (resources rc)(name \<mapsto>
                   empty_Resource\<lparr>watchers := [], rname := name, stage := st\<rparr>)\<rparr>
      | Some r \<Rightarrow> rc\<lparr>resources := (resources rc)(name \<mapsto> r\<lparr>stage := st\<rparr>)\<rparr>)"

text \<open>
  One round of the cleanup loop: under the mutex it visits the entries in some order
  \<open>order\<close> of the map's keys, collecting and deleting what is stale already and marking
  the rest; then, without the mutex, it runs the collected cleaners. A resource put without a
  cleaner makes the second half panic.
\<close>

fun mark_and_reap :: "string list \<Rightarrow> 'w ResourceStore \<Rightarrow> 'w ResourceStore \<times> 'w Resource list" where
  "mark_and_reap [] rc = (rc, [])"
| "mark_and_reap (name # order) rc =
     (case resources rc name of
        None \<Rightarrow> mark_and_reap order rc
      | Some r \<Rightarrow>
          if \<not> wasPut r then mark_and_reap order rc
          else if stale r then
            (let (rc', rs) = mark_and_reap order (rc\<lparr>resources := map_delete name (resources rc)\<rparr>)
             in (rc', r\<lparr>stale := True\<rparr> # rs))
          else mark_and_reap order (rc\<lparr>resources := (resources rc)(name \<mapsto> r\<lparr>stale := True\<rparr>)\<rparr>))"

fun run_cleaners :: "'w Resource list \<Rightarrow> 'w \<Rightarrow> (string, 'w) outcome" where
  "run_cleaners [] w = Ok w"
| "run_cleaners (r # rs) w =
     (case cleaner r of None \<Rightarrow> Panic | Some c \<Rightarrow> run_cleaners rs (fst (Cleanup c w)))"

text \<open>The select at the head of the loop takes a ready channel: the close channel once the
  store is closed, or the timer. \<open>None\<close> is the return of the loop.\<close>

datatype select = CloseReady | TimerFired

definition cleanupStaleResources :: "select \<Rightarrow> string list \<Rightarrow> 'w ResourceStore \<Rightarrow> 'w \<Rightarrow> ('w ResourceStore \<times> (string, 'w) outcome) option" where
  "cleanupStaleResources sel order rc w =
     (case sel of
        CloseReady \<Rightarrow> None
      | TimerFired \<Rightarrow> (let (rc', reaped) = mark_and_reap order rc in Some (rc', run_cleaners reaped w)))"

section \<open>Invariant\<close>

definition resource_ok :: "nat list \<Rightarrow> 'w Resource \<Rightarrow> bool" where
  "resource_ok cs r \<longleftrightarrow>
     distinct (watchers r) \<and> (\<forall>w \<in> set (watchers r). w < length cs) \<and>
     (\<not> wasPut r \<longrightarrow> \<not> stale r \<and> (\<forall>w \<in> set (watchers r). cs ! w = 0)) \<and>
     (wasPut r \<longrightarrow> cleaner r \<noteq> None)"

definition rs_inv :: "'w ResourceStore \<Rightarrow> bool" where
  "rs_inv rc \<longleftrightarrow>
     (\<forall>n r. resources rc n = Some r \<longrightarrow> resource_ok (chans rc) r) \<and>
     (\<forall>n m r s. resources rc n = Some r \<longrightarrow> resources rc m = Some s \<longrightarrow> n \<noteq> m \<longrightarrow>
        set (watchers r) \<inter> set (watchers s) = {})"

lemma rs_invD:
  assumes "rs_inv rc" and "resources rc n = Some r"
  shows "resource_ok (chans rc) r"
    and "\<And>m s. resources rc m = Some s \<Longrightarrow> n \<noteq> m \<Longrightarrow> set (watchers r) \<inter> set (watchers s) = {}"
  using assms unfolding rs_inv_def by blast+

lemma notify_all:
  assumes "distinct ws" "\<forall>w \<in> set ws. w < length cs" "\<forall>w \<in> set ws. cs ! w = 0"
  shows "\<exists>cs'. notify ws cs = Some cs' \<and> length cs' = length cs \<and>
    (\<forall>w. cs' ! w = (if w \<in> set ws then 1 else cs ! w))"
  using assms
proof (induction ws arbitrary: cs)
  case (Cons w ws)
  have "\<forall>v \<in> set ws. cs[w := Suc 0] ! v = 0"
    using Cons.prems by (metis distinct.simps(2) list.set_intros(2) nth_list_update_neq)
  then obtain cs' where "notify ws (cs[w := Suc 0]) = Some cs'" "length cs' = length cs"
      "\<forall>v. cs' ! v = (if v \<in> set ws then 1 else cs[w := Suc 0] ! v)"
    using Cons.IH [of "cs[w := Suc 0]"] Cons.prems by auto
  then show ?case
    using Cons.prems by (intro exI [of _ cs']) (auto simp: nth_list_update)
qed simp

lemma rs_inv_New: "rs_inv NewWithTimeout"
  by (simp add: rs_inv_def NewWithTimeout_def)

lemma rs_inv_shrink:
  assumes "rs_inv rc" and "resources rc' = map_delete n (resources rc)" and "chans rc' = chans rc"
  shows "rs_inv rc'"
  using assms unfolding rs_inv_def by (simp split: if_splits)

text \<open>Replacing one entry by one with the same watchers, or with one fresh watcher more.\<close>

lemma rs_inv_update:
  assumes inv: "rs_inv rc" and res: "resources rc' = (resources rc)(n \<mapsto> r')"
    and len: "length (chans rc) \<le> length (chans rc')"
    and same: "\<And>m s w. resources rc m = Some s \<Longrightarrow> m \<noteq> n \<Longrightarrow> w \<in> set (watchers s) \<Longrightarrow> chans rc' ! w = chans rc ! w"
    and ok: "resource_ok (chans rc') r'"
    and dis: "\<And>m s. resources rc m = Some s \<Longrightarrow> m \<noteq> n \<Longrightarrow> set (watchers r') \<inter> set (watchers s) = {}"
  shows "rs_inv rc'"
proof -
  have "resource_ok (chans rc') s" if "resources rc m = Some s" "m \<noteq> n" for m s
    using rs_invD(1) [OF inv that(1)] len same [OF that] by (auto simp: resource_ok_def)
  moreover have "set (watchers s) \<inter> set (watchers t) = {}"
    if "resources rc' m = Some s" "resources rc' k = Some t" "m \<noteq> k" for m k s t
    using that rs_invD(2) [OF inv, of m s k t] dis [of m s] dis [of k t] unfolding res
    by (cases "m = n"; cases "k = n") auto
  ultimately show ?thesis
    using ok unfolding rs_inv_def by (auto simp: res)
qed

lemma rs_inv_Get: "rs_inv rc \<Longrightarrow> rs_inv (fst (rs_Get n rc))"
  by (auto simp: rs_Get_def split: option.splits intro: rs_inv_shrink)

lemma rs_inv_Delete: "rs_inv rc \<Longrightarrow> rs_inv (rs_Delete n rc)"
  by (auto simp: rs_Delete_def intro: rs_inv_shrink)

lemma rs_inv_Watcher: "rs_inv rc \<Longrightarrow> rs_inv (fst (WatcherForResource n rc))"
proof (rule rs_inv_update [where rc = rc and n = n and
      r' = "case resources rc n of
              None \<Rightarrow> empty_Resource\<lparr>watchers := [length (chans rc)], rname := n\<rparr>
            | Some r \<Rightarrow> r\<lparr>watchers := watchers r @ [length (chans rc)]\<rparr>"])
  assume inv: "rs_inv rc"
  have c: "chans (fst (WatcherForResource n rc)) = chans rc @ [0]"
    by (simp add: WatcherForResource_def Let_def split: option.splits)
  note ok = rs_invD(1) [OF inv, unfolded resource_ok_def]
  show "chans (fst (WatcherForResource n rc)) ! w = chans rc ! w"
    if "resources rc m = Some s" "m \<noteq> n" "w \<in> set (watchers s)" for m s w
    using that ok [OF that(1)] by (auto simp: c nth_append)
  show "resource_ok (chans (fst (WatcherForResource n rc))) (case resources rc n of
              None \<Rightarrow> empty_Resource\<lparr>watchers := [length (chans rc)], rname := n\<rparr>
            | Some r \<Rightarrow> r\<lparr>watchers := watchers r @ [length (chans rc)]\<rparr>)"
    using ok [of n] by (auto simp: c resource_ok_def empty_Resource_def wasPut_def nth_append
        intro: less_SucI split: option.splits)
  show "set (watchers (case resources rc n of
              None \<Rightarrow> empty_Resource\<lparr>watchers := [length (chans rc)], rname := n\<rparr>
            | Some r \<Rightarrow> r\<lparr>watchers := watchers r @ [length (chans rc)]\<rparr>)) \<inter> set (watchers s) = {}"
    if "resources rc m = Some s" "m \<noteq> n" for m s
    using that ok [OF that(1)] rs_invD(2) [OF inv _ that(1)]
    by (fastforce split: option.splits)
qed (auto simp: WatcherForResource_def Let_def split: option.splits)

lemma rs_inv_Stage: "rs_inv rc \<Longrightarrow> rs_inv (SetStageForResource n st rc)"
proof (rule rs_inv_update [where rc = rc and n = n and
      r' = "case resources rc n of
              None \<Rightarrow> empty_Resource\<lparr>watchers := [], rname := n, stage := st\<rparr>
            | Some r \<Rightarrow> r\<lparr>stage := st\<rparr>"])
  assume inv: "rs_inv rc"
  show "resource_ok (chans (SetStageForResource n st rc)) (case resources rc n of
              None \<Rightarrow> empty_Resource\<lparr>watchers := [], rname := n, stage := st\<rparr>
            | Some r \<Rightarrow> r\<lparr>stage := st\<rparr>)"
    using rs_invD(1) [OF inv, of n] by (auto simp: SetStageForResource_def resource_ok_def
        empty_Resource_def wasPut_def split: option.splits)
  show "set (watchers (case resources rc n of
              None \<Rightarrow> empty_Resource\<lparr>watchers := [], rname := n, stage := st\<rparr>
            | Some r \<Rightarrow> r\<lparr>stage := st\<rparr>)) \<inter> set (watchers s) = {}"
    if "resources rc m = Some s" "m \<noteq> n" for m s
    using rs_invD(2) [OF inv _ that(1)] that(2) by (auto split: option.splits)
qed (auto simp: SetStageForResource_def split: option.splits)

definition entry :: "string \<Rightarrow> 'w ResourceStore \<Rightarrow> 'w Resource" where
  "entry n rc = (case resources rc n of None \<Rightarrow> empty_Resource | Some r \<Rightarrow> r)"

lemma entry_ok: "rs_inv rc \<Longrightarrow> resource_ok (chans rc) (entry n rc)"
  using rs_invD(1) [of rc n]
  by (auto simp: entry_def resource_ok_def empty_Resource_def wasPut_def split: option.splits)

text \<open>A put that finds no earlier one goes through.\<close>

lemma rs_Put_goes_through:
  assumes "rs_inv rc" and "\<not> wasPut (entry n rc)"
  shows "\<exists>cs. rs_Put n res cl rc = Inr (rc\<lparr>resources := (resources rc)(n \<mapsto>
      (entry n rc)\<lparr>resource := res, cleaner := cl, rname := n\<rparr>), chans := cs\<rparr>) \<and>
    length cs = length (chans rc) \<and>
    (\<forall>w. cs ! w = (if w \<in> set (watchers (entry n rc)) then 1 else chans rc ! w))"
proof -
  note ok = entry_ok [OF assms(1), of n, unfolded resource_ok_def]
  obtain cs where "notify (watchers (entry n rc)) (chans rc) = Some cs"
      "length cs = length (chans rc)"
      "\<forall>w. cs ! w = (if w \<in> set (watchers (entry n rc)) then 1 else chans rc ! w)"
    using notify_all [of "watchers (entry n rc)" "chans rc"] ok assms(2) by auto
  then show ?thesis
    using assms(2) by (auto simp: rs_Put_def Let_def entry_def [symmetric])
qed

lemma rs_inv_Put:
  assumes inv: "rs_inv rc" and put: "rs_Put n (Some i) (Some cl) rc = Inr rc'"
  shows "rs_inv rc'"
proof (rule rs_inv_update [OF inv])
  have np: "\<not> wasPut (entry n rc)"
    using put by (auto simp: rs_Put_def Let_def entry_def [symmetric])
  obtain cs where rc': "rc' = rc\<lparr>resources := (resources rc)(n \<mapsto>
        (entry n rc)\<lparr>resource := Some i, cleaner := Some cl, rname := n\<rparr>), chans := cs\<rparr>"
      and cs: "length cs = length (chans rc)"
        "\<forall>w. cs ! w = (if w \<in> set (watchers (entry n rc)) then 1 else chans rc ! w)"
    using rs_Put_goes_through [OF inv np, of "Some i" "Some cl"] put by auto
  let ?r = "(entry n rc)\<lparr>resource := Some i, cleaner := Some cl, rname := n\<rparr>"
  show "resources rc' = (resources rc)(n \<mapsto> ?r)" "length (chans rc) \<le> length (chans rc')"
    by (simp_all add: rc' cs)
  have dis: "set (watchers (entry n rc)) \<inter> set (watchers s) = {}"
    if "resources rc m = Some s" "m \<noteq> n" for m s
    using rs_invD(2) [OF inv _ that(1)] that(2)
    by (auto simp: entry_def empty_Resource_def split: option.splits)
  then show "set (watchers ?r) \<inter> set (watchers s) = {}" if "resources rc m = Some s" "m \<noteq> n" for m s
    using that by simp
  show "chans rc' ! w = chans rc ! w"
    if "resources rc m = Some s" "m \<noteq> n" "w \<in> set (watchers s)" for m s w
    using dis [OF that(1,2)] that(3) by (auto simp: rc' cs)
  show "resource_ok (chans rc') ?r"
    using entry_ok [OF inv, of n] by (simp add: resource_ok_def rc' cs wasPut_def)
qed

section \<open>Rounds of the cleanup loop\<close>

definition reap :: "'w ResourceStore \<Rightarrow> string \<Rightarrow> 'w Resource option" where
  "reap rc n = (case resources rc n of Some r \<Rightarrow> if wasPut r \<and> stale r then Some r else None | None \<Rightarrow> None)"

definition mark :: "'w Resource \<Rightarrow> 'w Resource" where
  "mark r = (if wasPut r then r\<lparr>stale := True\<rparr> else r)"

lemma mark_and_reap_frame [simp]:
  "chans (fst (mark_and_reap order rc)) = chans rc \<and>
   created_log (fst (mark_and_reap order rc)) = created_log rc \<and>
   closed (fst (mark_and_reap order rc)) = closed rc"
  by (induction order rc rule: mark_and_reap.induct) (auto split: option.splits prod.splits)

text \<open>In a round every entry is visited once, so what it reaps and marks is decided by the
  store it starts from.\<close>

lemma mark_and_reap_eq:
  assumes "distinct order"
  shows "snd (mark_and_reap order rc) = List.map_filter (reap rc) order \<and>
    resources (fst (mark_and_reap order rc)) =
      (\<lambda>n. if n \<in> set order then (if reap rc n = None then map_option mark (resources rc n) else None)
           else resources rc n)"
  using assms
proof (induction order arbitrary: rc)
  case Nil
  then show ?case by (simp add: List.map_filter_def)
next
  case (Cons name order)
  have others: "reap rc' n = reap rc n" if "resources rc' n = resources rc n" for n rc'
    using that by (simp add: reap_def)
  have fresh: "List.map_filter (reap rc') order = List.map_filter (reap rc) order"
    if "\<And>n. n \<noteq> name \<Longrightarrow> resources rc' n = resources rc n" for rc'
  proof -
    have "reap rc' n = reap rc n" if "n \<in> set order" for n
      using that Cons.prems others \<open>\<And>n. n \<noteq> name \<Longrightarrow> resources rc' n = resources rc n\<close>
      by (metis distinct.simps(2))
    then show ?thesis by (simp add: List.map_filter_def cong: filter_cong map_cong)
  qed
  show ?case
  proof (cases "resources rc name")
    case None
    then show ?thesis
      using Cons by (auto simp: List.map_filter_simps reap_def fun_eq_iff)
  next
    case (Some r)
    have st: "stale r \<Longrightarrow> r\<lparr>stale := True\<rparr> = r" by (cases r) simp
    consider "\<not> wasPut r" | "wasPut r" "stale r" | "wasPut r" "\<not> stale r" by blast
    then show ?thesis
    proof cases
      case 1
      then show ?thesis
        using Cons Some by (auto simp: List.map_filter_simps reap_def mark_def fun_eq_iff)
    next
      case 2
      let ?rc = "rc\<lparr>resources := map_delete name (resources rc)\<rparr>"
      have "snd (mark_and_reap (name # order) rc) = r # snd (mark_and_reap order ?rc)"
        "resources (fst (mark_and_reap (name # order) rc)) = resources (fst (mark_and_reap order ?rc))"
        using 2 Some st by (simp_all split: prod.split)
      then show ?thesis
        using Cons.IH [of ?rc] Cons.prems fresh [of ?rc] others [of ?rc] 2 Some
        by (auto simp: List.map_filter_simps reap_def [of rc name] fun_eq_iff)
    next
      case 3
      let ?rc = "rc\<lparr>resources := (resources rc)(name \<mapsto> r\<lparr>stale := True\<rparr>)\<rparr>"
      have "mark_and_reap (name # order) rc = mark_and_reap order ?rc"
        using 3 Some by simp
      then show ?thesis
        using Cons.IH [of ?rc] Cons.prems fresh [of ?rc] others [of ?rc] 3 Some
        by (auto simp: List.map_filter_simps reap_def [of rc name] mark_def fun_eq_iff)
    qed
  qed
qed

lemma rs_inv_mark:
  assumes inv: "rs_inv rc" and r: "resources rc n = Some r" "wasPut r"
  shows "rs_inv (rc\<lparr>resources := (resources rc)(n \<mapsto> r\<lparr>stale := True\<rparr>)\<rparr>)"
proof (rule rs_inv_update [OF inv])
  show "resource_ok (chans (rc\<lparr>resources := (resources rc)(n \<mapsto> r\<lparr>stale := True\<rparr>)\<rparr>)) (r\<lparr>stale := True\<rparr>)"
    using rs_invD(1) [OF inv r(1)] r(2) by (simp add: resource_ok_def wasPut_def)
  show "set (watchers (r\<lparr>stale := True\<rparr>)) \<inter> set (watchers s) = {}"
    if "resources rc m = Some s" "m \<noteq> n" for m s
    using rs_invD(2) [OF inv r(1) that(1)] that(2) by simp
qed simp_all

lemma rs_inv_round: "rs_inv rc \<Longrightarrow> rs_inv (fst (mark_and_reap order rc))"
proof (induction order arbitrary: rc)
  case (Cons name order)
  show ?case
  proof (cases "resources rc name")
    case (Some r)
    have "rs_inv (rc\<lparr>resources := map_delete name (resources rc)\<rparr>)"
      using Cons.prems by (rule rs_inv_shrink [where n = name]) simp_all
    then show ?thesis
      using Cons.IH Cons.prems Some rs_inv_mark [OF Cons.prems Some] by (simp add: split_beta)
  qed (use Cons in simp)
qed simp

lemma reaped_have_cleaner:
  assumes "rs_inv rc" and "r \<in> set (List.map_filter (reap rc) order)"
  shows "cleaner r \<noteq> None \<and> resource r \<noteq> None"
  using assms(2) rs_invD(1) [OF assms(1)]
  by (auto simp: List.map_filter_def reap_def resource_ok_def wasPut_def split: option.splits if_splits)

lemma run_cleaners_Ok: "\<forall>r \<in> set rs. cleaner r \<noteq> None \<Longrightarrow> \<exists>w'. run_cleaners rs w = Ok w'"
  by (induction rs arbitrary: w) (auto split: option.splits)

section \<open>Sequences of calls\<close>

text \<open>The calls, with the resources the clients put (never nil, always with a cleaner), and
  what becomes of a resource: it is handed to a client by Get or given to its cleaner by a
  round of the loop.\<close>

datatype 'w rs_op = RPut string string "'w ResourceCleaner" | RGet string | RDelete string
  | RWatch string | RStage string string | RRound "string list" | RClose

datatype rs_event = EGot string | EReaped string

fun event_id :: "rs_event \<Rightarrow> string" where
  "event_id (EGot i) = i"
| "event_id (EReaped i) = i"

fun rs_step :: "'w rs_op \<Rightarrow> 'w ResourceStore \<Rightarrow> 'w ResourceStore \<times> rs_event list" where
  "rs_step (RPut n i c) rc = (case rs_Put n (Some i) (Some c) rc of Inr rc' \<Rightarrow> (rc', []) | Inl _ \<Rightarrow> (rc, []))"
| "rs_step (RGet n) rc =
     (fst (rs_Get n rc), if wasPut (entry n rc) then [EGot (snd (rs_Get n rc))] else [])"
| "rs_step (RDelete n) rc = (rs_Delete n rc, [])"
| "rs_step (RWatch n) rc = (fst (WatcherForResource n rc), [])"
| "rs_step (RStage n st) rc = (SetStageForResource n st rc, [])"
| "rs_step (RRound order) rc =
     (fst (mark_and_reap order rc), map (\<lambda>r. EReaped (the (resource r))) (snd (mark_and_reap order rc)))"
| "rs_step RClose rc = (rs_Close rc, [])"

fun rs_run :: "'w rs_op list \<Rightarrow> 'w ResourceStore \<times> rs_event list \<Rightarrow> 'w ResourceStore \<times> rs_event list" where
  "rs_run [] s = s"
| "rs_run (p # ps) (rc, es) = (let (rc', es') = rs_step p rc in rs_run ps (rc', es @ es'))"

fun valid_op :: "'w rs_op \<Rightarrow> bool" where
  "valid_op (RRound order) = distinct order"
| "valid_op _ = True"

fun op_puts :: "'w rs_op \<Rightarrow> string list" where
  "op_puts (RPut n i c) = [i]"
| "op_puts _ = []"

definition puts :: "'w rs_op list \<Rightarrow> string list" where
  "puts ps = concat (map op_puts ps)"

lemma rs_step_inv: "rs_inv rc \<Longrightarrow> rs_inv (fst (rs_step p rc))"
  by (cases p) (auto simp: rs_inv_Get rs_inv_Delete rs_inv_Watcher rs_inv_Stage rs_inv_round
      rs_Close_def rs_inv_def [of "_\<lparr>closed := _\<rparr>"] rs_invD intro: rs_inv_Put split: sum.splits)

lemma rs_run_inv: "rs_inv (fst s) \<Longrightarrow> rs_inv (fst (rs_run ps s))"
proof (induction ps s rule: rs_run.induct)
  case (2 p ps rc es)
  then show ?case using rs_step_inv [of rc p] by (cases "rs_step p rc") simp
qed simp

text \<open>The identifiers held by the store.\<close>

definition held :: "'w ResourceStore \<Rightarrow> string \<Rightarrow> string option" where
  "held rc n = resource (entry n rc)"

definition owned :: "'w ResourceStore \<Rightarrow> rs_event list \<Rightarrow> string set \<Rightarrow> bool" where
  "owned rc es ps \<longleftrightarrow>
     (\<forall>n m i. held rc n = Some i \<longrightarrow> held rc m = Some i \<longrightarrow> n = m) \<and>
     (\<forall>n i. held rc n = Some i \<longrightarrow> i \<in> ps \<and> i \<notin> event_id ` set es) \<and>
     distinct (map event_id es) \<and> event_id ` set es \<subseteq> ps"

lemma owned_shrink:
  assumes "owned rc es ps" and "\<And>n. held rc' n = held rc n \<or> held rc' n = None"
  shows "owned rc' es ps"
  using assms unfolding owned_def by (metis option.distinct(1))

lemma owned_release:
  assumes own: "owned rc es ps" and ns: "distinct ns" "\<And>n. n \<in> set ns \<Longrightarrow> held rc n = Some (f n)"
    and rc': "\<And>m. held rc' m = (if m \<in> set ns then None else held rc m)"
    and es': "map event_id es' = map f ns"
  shows "owned rc' (es @ es') ps"
proof -
  note o = own [unfolded owned_def, THEN conjunct1, rule_format]
    own [unfolded owned_def, THEN conjunct2, THEN conjunct1, rule_format]
    own [unfolded owned_def, THEN conjunct2, THEN conjunct2]
  have inj: "inj_on f (set ns)"
    using ns(2) o(1) by (metis inj_onI)
  have ev: "event_id ` set es' = f ` set ns"
    using arg_cong [OF es', of set] by simp
  have "i \<notin> f ` set ns" if "held rc n = Some i" "n \<notin> set ns" for n i
    using that o(1) ns(2) by auto
  moreover have "f n \<in> ps \<and> f n \<notin> event_id ` set es" if "n \<in> set ns" for n
    using o(2) ns(2) that by blast
  ultimately show ?thesis
    using o ns(1) inj unfolding owned_def
    by (auto simp: rc' es' ev image_Un distinct_map split: if_splits) (metis imageI)
qed

lemma owned_put:
  assumes "owned rc es ps" and "i \<notin> ps" and "\<And>m. held rc' m = (if m = n then Some i else held rc m)"
  shows "owned rc' es (insert i ps)"
  using assms unfolding owned_def by (auto split: if_splits)

lemma owned_mono: "owned rc es ps \<Longrightarrow> ps \<subseteq> qs \<Longrightarrow> owned rc es qs"
  unfolding owned_def by (meson subset_iff subset_trans)

lemma held_simps:
  "held (rs_Delete n rc) m = (if m = n then None else held rc m)"
  "held (fst (rs_Get n rc)) m = (if m = n then None else held rc m)"
  "held (fst (WatcherForResource n rc)) = held rc"
  "held (SetStageForResource n st rc) = held rc"
  "held (rs_Close rc) = held rc"
  "held NewWithTimeout = Map.empty"
  by (auto simp: held_def entry_def rs_Delete_def rs_Get_def WatcherForResource_def Let_def
      SetStageForResource_def rs_Close_def NewWithTimeout_def empty_Resource_def fun_eq_iff
      split: option.splits)

lemma snd_rs_Get: "snd (rs_Get n rc) = (case held rc n of None \<Rightarrow> '''' | Some i \<Rightarrow> i)"
  by (simp add: held_def entry_def rs_Get_def empty_Resource_def split: option.splits)

lemma wasPut_held: "wasPut (entry n rc) \<longleftrightarrow> held rc n \<noteq> None"
  by (simp add: wasPut_def held_def)

lemma held_Put:
  assumes "rs_inv rc"
  shows "rs_Put n (Some i) (Some cl) rc = Inl (PutExists n) \<and> held rc n \<noteq> None \<or>
    (\<exists>rc'. rs_Put n (Some i) (Some cl) rc = Inr rc' \<and> held rc n = None \<and>
       (\<forall>m. held rc' m = (if m = n then Some i else held rc m)))"
proof (cases "wasPut (entry n rc)")
  case True
  then show ?thesis
    by (simp add: rs_Put_def Let_def entry_def [symmetric] wasPut_held)
next
  case False
  then show ?thesis
    using rs_Put_goes_through [OF assms False, of "Some i" "Some cl"]
    by (auto simp: held_def entry_def [of _ "_\<lparr>chans := _\<rparr>"] wasPut_def) (simp_all add: entry_def)
qed

lemma held_round:
  assumes "distinct order"
  shows "held (fst (mark_and_reap order rc)) m =
    (if m \<in> set order \<and> reap rc m \<noteq> None then None else held rc m)"
  using mark_and_reap_eq [OF assms, of rc]
  by (auto simp: held_def entry_def mark_def reap_def empty_Resource_def split: option.splits)

lemma owned_step:
  assumes inv: "rs_inv rc" and own: "owned rc es ps" and ok: "valid_op p"
    and new: "set (op_puts p) \<inter> ps = {}"
  shows "owned (fst (rs_step p rc)) (es @ snd (rs_step p rc)) (ps \<union> set (op_puts p))"
proof (cases p)
  case (RPut n i cl)
  show ?thesis
    using held_Put [OF inv, of n i cl]
  proof (elim disjE exE conjE)
    assume "rs_Put n (Some i) (Some cl) rc = Inl (PutExists n)"
    then show ?thesis using RPut owned_mono [OF own, of "insert i ps"] by auto
  next
    fix rc' assume "rs_Put n (Some i) (Some cl) rc = Inr rc'"
      and h: "\<forall>m. held rc' m = (if m = n then Some i else held rc m)"
    then show ?thesis using RPut new owned_put [OF own, of i rc' n] by simp
  qed
next
  case (RGet n)
  show ?thesis
  proof (cases "held rc n")
    case None
    then show ?thesis
      using RGet owned_shrink [OF own, of "fst (rs_Get n rc)"] by (simp add: held_simps wasPut_held)
  next
    case (Some i)
    then show ?thesis
      using RGet owned_release [OF own, of "[n]" "\<lambda>_. i" "fst (rs_Get n rc)" "[EGot i]"]
      by (simp add: held_simps snd_rs_Get wasPut_held)
  qed
next
  case (RRound order)
  let ?ns = "filter (\<lambda>n. reap rc n \<noteq> None) order"
  have d: "distinct order" using ok RRound by simp
  have "held rc n = Some (the (resource (the (reap rc n))))" if "n \<in> set ?ns" for n
    using that by (auto simp: held_def entry_def reap_def wasPut_def split: option.splits if_splits)
  then show ?thesis
    using owned_release [OF own, of ?ns "\<lambda>n. the (resource (the (reap rc n)))"
        "fst (mark_and_reap order rc)" "snd (rs_step p rc)"] mark_and_reap_eq [OF d, of rc] d
    by (auto simp: RRound held_round [OF d] List.map_filter_def comp_def)
qed (simp_all add: held_simps owned_shrink [OF own])

lemma puts_Cons: "puts (p # ps) = op_puts p @ puts ps"
  by (simp add: puts_def)

lemma owned_run:
  assumes "rs_inv rc" and "owned rc es qs" and "list_all valid_op ps"
    and "distinct (puts ps)" and "set (puts ps) \<inter> qs = {}"
  shows "owned (fst (rs_run ps (rc, es))) (snd (rs_run ps (rc, es))) (qs \<union> set (puts ps))"
  using assms
proof (induction ps arbitrary: rc es qs)
  case Nil
  then show ?case by (simp add: puts_def)
next
  case (Cons p ps)
  have "owned (fst (rs_step p rc)) (es @ snd (rs_step p rc)) (qs \<union> set (op_puts p))"
    using Cons.prems by (intro owned_step) (auto simp: puts_Cons)
  then have "owned (fst (rs_run ps (fst (rs_step p rc), es @ snd (rs_step p rc))))
      (snd (rs_run ps (fst (rs_step p rc), es @ snd (rs_step p rc)))) (qs \<union> set (op_puts p) \<union> set (puts ps))"
    using Cons.prems rs_step_inv [OF Cons.prems(1), of p] by (intro Cons.IH) (auto simp: puts_Cons)
  then show ?case by (simp add: puts_Cons split_beta Un_assoc)
qed

section \<open>Properties\<close>

definition rs_final :: "'w rs_op list \<Rightarrow> 'w ResourceStore \<times> rs_event list" where
  "rs_final ps = rs_run ps (NewWithTimeout, [])"

lemma rs_final_inv: "rs_inv (fst (rs_final ps))"
  unfolding rs_final_def by (rule rs_run_inv) (simp add: rs_inv_New)

text \<open>C1: In every sequence of Put, Get, Delete, WatcherForResource, SetStageForResource, Close
  calls and rounds of the cleanup loop, in which no two Puts bring the same resource, each
  resource is handed over at most once: it is returned by Get at most once, or cleaned up by
  the loop at most once, and never both; and only resources that were put are handed over.\<close>

theorem handed_over_once:
  assumes "list_all valid_op ps" and "distinct (puts ps)"
  shows "distinct (map event_id (snd (rs_final ps))) \<and>
    event_id ` set (snd (rs_final ps)) \<subseteq> set (puts ps)"
proof -
  have "owned NewWithTimeout [] {}"
    by (simp add: owned_def held_simps)
  then have "owned (fst (rs_final ps)) (snd (rs_final ps)) (set (puts ps))"
    using owned_run [OF rs_inv_New _ assms, of "[]" "{}"] by (simp add: rs_final_def)
  then show ?thesis by (simp add: owned_def)
qed

theorem handed_over_once_witness:
  "distinct (map event_id (snd (rs_final [RPut ''a'' ''c1'' NewResourceCleaner,
       RPut ''b'' ''c2'' NewResourceCleaner, RRound [''b'', ''a''], RGet ''a'', RRound [''b''], RGet ''b'']))) \<and>
   snd (rs_final [RPut ''a'' ''c1'' NewResourceCleaner,
       RPut ''b'' ''c2'' NewResourceCleaner, RRound [''b'', ''a''], RGet ''a'', RRound [''b''], RGet ''b''])
     = [EGot ''c1'', EReaped ''c2'']"
proof
  show "distinct (map event_id (snd (rs_final [RPut ''a'' ''c1'' NewResourceCleaner,
       RPut ''b'' ''c2'' NewResourceCleaner, RRound [''b'', ''a''], RGet ''a'', RRound [''b''], RGet ''b''])))"
    by (rule handed_over_once [THEN conjunct1]) (simp_all add: puts_def)
qed (simp add: rs_final_def NewWithTimeout_def rs_Put_def rs_Get_def Let_def wasPut_def
    empty_Resource_def entry_def)

text \<open>Put never blocks on a watcher: after any sequence of calls it fails only when a
  resource of that name is in the store, and otherwise leaves exactly one message in the
  channel of every watcher that was waiting for the name, and Get then returns the
  resource once.\<close>

theorem put_notifies_watchers:
  "case rs_Put n (Some i) (Some cl) (fst (rs_final ps)) of
     Inl e \<Rightarrow> e = PutExists n \<and> held (fst (rs_final ps)) n \<noteq> None
   | Inr rc \<Rightarrow> (\<forall>w \<in> set (watchers (entry n (fst (rs_final ps)))). chans rc ! w = 1) \<and>
       snd (rs_Get n rc) = i \<and> snd (rs_Get n (fst (rs_Get n rc))) = '''' \<and>
       created_log (fst (rs_Get n rc)) = created_log rc @ [i]"
proof (cases "wasPut (entry n (fst (rs_final ps)))")
  case True
  then show ?thesis
    using held_Put [OF rs_final_inv, of n i cl ps] by (auto simp: wasPut_held)
next
  case False
  obtain cs where put: "rs_Put n (Some i) (Some cl) (fst (rs_final ps)) =
      Inr (fst (rs_final ps) \<lparr>resources := (resources (fst (rs_final ps)))(n \<mapsto>
        (entry n (fst (rs_final ps)))\<lparr>resource := Some i, cleaner := Some cl, rname := n\<rparr>), chans := cs\<rparr>)"
      and cs: "\<forall>w. cs ! w = (if w \<in> set (watchers (entry n (fst (rs_final ps)))) then 1
                            else chans (fst (rs_final ps)) ! w)"
    using rs_Put_goes_through [OF rs_final_inv False, of "Some i" "Some cl"] by blast
  show ?thesis
    unfolding put using cs by (simp add: rs_Get_def)
qed

theorem put_notifies_watchers_witness:
  "\<exists>rc. rs_Put ''a'' (Some ''c1'') (Some (NewResourceCleaner :: nat ResourceCleaner))
       (fst (rs_final [RWatch ''a'', RWatch ''a''])) = Inr rc \<and>
     chans rc = [1, 1] \<and> snd (rs_Get ''a'' rc) = ''c1''"
  using put_notifies_watchers [where n = "''a''" and i = "''c1''" and cl = "NewResourceCleaner :: nat ResourceCleaner"
      and ps = "[RWatch ''a'', RWatch ''a'']"]
  by (simp add: rs_final_def NewWithTimeout_def WatcherForResource_def Let_def rs_Put_def
      wasPut_def empty_Resource_def)

text \<open>C17: A resource that nobody asks for survives the first round of the cleanup loop after
  its Put and is removed and given to its cleaner by the second, so it lives between one and
  two timeouts; cleaning up never panics for lack of a cleaner.\<close>

theorem unclaimed_lifetime:
  assumes "rs_Put n (Some i) (Some cl) (fst (rs_final ps)) = Inr rc"
    and "distinct order1" and "distinct order2" and "n \<in> set order1" and "n \<in> set order2"
  shows "let (rc1, reaped1) = mark_and_reap order1 rc; (rc2, reaped2) = mark_and_reap order2 rc1
    in snd (rs_Get n rc1) = i \<and> held rc2 n = None \<and>
       (\<exists>r \<in> set reaped2. resource r = Some i \<and> cleaner r = Some cl) \<and>
       (\<exists>w'. run_cleaners reaped1 w = Ok w') \<and> (\<exists>w'. run_cleaners reaped2 w = Ok w')"
proof -
  let ?rc1 = "fst (mark_and_reap order1 rc)"
  have inv: "rs_inv rc" using rs_inv_Put [OF rs_final_inv assms(1)] .
  have np: "\<not> wasPut (entry n (fst (rs_final ps)))"
    using assms(1) by (auto simp: rs_Put_def Let_def entry_def [symmetric])
  obtain r where r: "resources rc n = Some r" "resource r = Some i" "cleaner r = Some cl"
      "stale r = stale (entry n (fst (rs_final ps)))"
    using rs_Put_goes_through [OF rs_final_inv np, of "Some i" "Some cl"] assms(1) by auto
  have ns: "\<not> stale r"
    using entry_ok [OF rs_final_inv, of ps n] np r(4) by (simp add: resource_ok_def)
  have r1: "resources ?rc1 n = Some (r\<lparr>stale := True\<rparr>)"
    using mark_and_reap_eq [OF assms(2), of rc] assms(4) r ns by (simp add: reap_def mark_def wasPut_def)
  then have "reap ?rc1 n = Some (r\<lparr>stale := True\<rparr>)"
    using r(2) by (simp add: reap_def wasPut_def)
  then have "r\<lparr>stale := True\<rparr> \<in> set (snd (mark_and_reap order2 ?rc1))"
      and "held (fst (mark_and_reap order2 ?rc1)) n = None"
    using mark_and_reap_eq [OF assms(3), of ?rc1] assms(5) held_round [OF assms(3), of ?rc1 n]
    by (simp_all add: map_filter_memI)
  moreover have "\<exists>w'. run_cleaners (snd (mark_and_reap order rc')) w = Ok w'" if "rs_inv rc'" "distinct order"
    for rc' order
    using mark_and_reap_eq [OF that(2), of rc'] reaped_have_cleaner [OF that(1)]
    by (intro run_cleaners_Ok) auto
  ultimately show ?thesis
    using r r1 assms inv rs_inv_round [OF inv, of order1]
    by (auto simp: split_beta Let_def rs_Get_def intro!: bexI [of _ "r\<lparr>stale := True\<rparr>"])
qed

theorem unclaimed_lifetime_witness:
  "\<exists>rc. rs_Put ''a'' (Some ''c1'') (Some (NewResourceCleaner :: nat ResourceCleaner)) (fst (rs_final [])) = Inr rc \<and>
     snd (rs_Get ''a'' (fst (mark_and_reap [''a''] rc))) = ''c1'' \<and>
     held (fst (mark_and_reap [''a''] (fst (mark_and_reap [''a''] rc)))) ''a'' = None"
proof -
  obtain rc where "rs_Put ''a'' (Some ''c1'') (Some (NewResourceCleaner :: nat ResourceCleaner)) (fst (rs_final [])) = Inr rc"
    by (simp add: rs_Put_def rs_final_def NewWithTimeout_def Let_def wasPut_def empty_Resource_def)
  with unclaimed_lifetime [OF this, of "[''a'']" "[''a'']"] show ?thesis
    by (simp add: split_beta Let_def)
qed

text \<open>C18: A cleanup function is attempted until it succeeds, at most twenty times, each
  attempt starting from the state the failed one left; the functions of a cleaner run in the
  reverse of the order they were added in, and none runs after one that failed for good.\<close>

theorem cleanup_retries_in_reverse_order:
  "retry fn w =
     (case find (\<lambda>k. snd (fn (attempt fn k w)) = None) [0..<20] of
        Some k \<Rightarrow> (attempt fn (Suc k) w, None)
      | None \<Rightarrow> (attempt fn 20 w, Some ''wait on retry: ErrWaitTimeout'')) \<and>
   Cleanup (foldl (\<lambda>c f. cleaner_Add f c) NewResourceCleaner fs) w = run_funcs (map retry (rev fs)) w \<and>
   run_funcs (gs @ g # hs) w =
     (case run_funcs gs w of
        (w', None) \<Rightarrow> (case g w' of (w'', None) \<Rightarrow> run_funcs hs w'' | (w'', Some e) \<Rightarrow> (w'', Some e))
      | (w', Some e) \<Rightarrow> (w', Some e))"
proof (intro conjI)
  show "retry fn w = (case find (\<lambda>k. snd (fn (attempt fn k w)) = None) [0..<20] of
        Some k \<Rightarrow> (attempt fn (Suc k) w, None)
      | None \<Rightarrow> (attempt fn 20 w, Some ''wait on retry: ErrWaitTimeout''))"
    unfolding retry_def ExponentialBackoff_retry defaultRetryTimes_def by (simp split: option.split)
  have "funcs (foldl (\<lambda>c f. cleaner_Add f c) c fs) = map retry (rev fs) @ funcs c" for c
    by (induction fs arbitrary: c) (simp_all add: cleaner_Add_def)
  then show "Cleanup (foldl (\<lambda>c f. cleaner_Add f c) NewResourceCleaner fs) w = run_funcs (map retry (rev fs)) w"
    by (simp add: Cleanup_def NewResourceCleaner_def)
  show "run_funcs (gs @ g # hs) w =
     (case run_funcs gs w of
        (w', None) \<Rightarrow> (case g w' of (w'', None) \<Rightarrow> run_funcs hs w'' | (w'', Some e) \<Rightarrow> (w'', Some e))
      | (w', Some e) \<Rightarrow> (w', Some e))"
    by (induction gs arbitrary: w) (simp_all split: prod.split option.split)
qed

end
