(* ===== verification/Oci_Container.thy ===== *)
theory Oci_Container
  imports Prelude
begin

text \<open>
  The container object (\<^verbatim>\<open>internal/oci/container.go\<close> and
  \<^verbatim>\<open>container_linux.go\<close>): its data, the methods that read and change it, the
  check that the saved process identifier still names the container's process, and the
  bookkeeping of exec sessions.

  A pointer that may be nil is an option; the state of a container never is nil once one of
  the two constructors has made it. Times are nanoseconds; zero is the zero value of
  \<^verbatim>\<open>time.Time\<close>. The operating system is a parameter of the operations that ask it:
  \<open>kill0\<close> is \<^verbatim>\<open>kill(pid, 0)\<close> and \<open>read_stat\<close> the contents of
  \<^verbatim>\<open>/proc/<pid>/stat\<close>.
\<close>

section \<open>Data\<close>

datatype cri_state = CONTAINER_CREATED | CONTAINER_RUNNING | CONTAINER_EXITED | CONTAINER_UNKNOWN

datatype oci_error = ErrContainerStopped | ErrNotFound | ErrNotInitialized | ErrOther string
  | ErrWrap string oci_error

text \<open>\<^verbatim>\<open>errors.Is\<close> looks through the wrapping of an error.\<close>

fun errors_Is :: "oci_error \<Rightarrow> oci_error \<Rightarrow> bool" where
  "errors_Is (ErrWrap m e) t = (ErrWrap m e = t \<or> errors_Is e t)"
| "errors_Is e t = (e = t)"

definition ContainerStateCreated :: string where "ContainerStateCreated = ''created''"
definition ContainerStatePaused :: string where "ContainerStatePaused = ''paused''"
definition ContainerStateRunning :: string where "ContainerStateRunning = ''running''"
definition ContainerStateStopped :: string where "ContainerStateStopped = ''stopped''"

record ContainerState =
  Status :: string
  Pid :: int
  Created :: int
  Started :: int
  Finished :: int
  ExitCode :: "int option"
  OOMKilled :: bool
  SeccompKilled :: bool
  st_Error :: string
  InitPid :: int
  InitStartTime :: string

definition zero_ContainerState :: ContainerState where
  "zero_ContainerState = \<lparr>Status = '''', Pid = 0, Created = 0, Started = 0, Finished = 0, ExitCode = None,
     OOMKilled = False, SeccompKilled = False, st_Error = '''', InitPid = 0, InitStartTime = ''''\<rparr>"

record ContainerMetadata =
  md_Name :: string
  md_Attempt :: nat

record cri_Container =
  Id :: string
  PodSandboxId :: string
  Metadata :: "ContainerMetadata option"
  Image :: string
  ImageRef :: string
  ImageId :: string
  cri_State :: cri_state
  CreatedAt :: int
  Labels :: str_map
  Annotations :: str_map

text \<open>The parts of the OCI runtime specification the container reads.\<close>

record spec_CPU =
  cpu_Cpus :: string
  cpu_Mems :: string
  cpu_Period :: "int option"
  cpu_Quota :: "int option"
  cpu_Shares :: "int option"

record spec_Memory =
  mem_Limit :: "int option"
  mem_Swap :: "int option"

record spec_Resources =
  res_CPU :: "spec_CPU option"
  res_Memory :: "spec_Memory option"
  res_Unified :: str_map
  res_HugepageLimits :: "(string \<times> nat) list"

record spec_Linux =
  lin_Namespaces :: "string list"
  lin_Resources :: "spec_Resources option"

record spec_Process =
  proc_UID :: nat
  proc_GID :: nat
  proc_AdditionalGids :: "nat list"
  proc_OOMScoreAdj :: "int option"

record Spec =
  sp_Linux :: "spec_Linux option"
  sp_Process :: "spec_Process option"

record LinuxContainerResources =
  CpuPeriod :: int
  CpuQuota :: int
  CpuShares :: int
  MemoryLimitInBytes :: int
  OomScoreAdj :: int
  CpusetCpus :: string
  CpusetMems :: string
  HugepageLimits :: "(string \<times> nat) list"
  Unified :: str_map
  MemorySwapLimitInBytes :: int

record LinuxContainerUser =
  usr_Uid :: int
  usr_Gid :: int
  usr_SupplementalGroups :: "int list"

record ContainerVolume =
  ContainerPath :: string
  HostPath :: string
  vol_Readonly :: bool
  RecursiveReadOnly :: bool
  Propagation :: nat
  SelinuxRelabel :: bool
  vol_Image :: "string option"

text \<open>A channel of timeouts: nil, open with its buffered elements, or closed.\<close>

datatype timeout_chan = NilChan | OpenChan "int list" | ClosedChan

record Container =
  criContainer :: cri_Container
  volumes :: "ContainerVolume list"
  c_name :: string
  logPath :: string
  runtimeHandler :: string
  bundlePath :: string
  c_dir :: string
  stopSignal :: string
  someNameOfTheImage :: "string option"
  imageID :: "string option"
  mountPoint :: string
  seccompProfilePath :: string
  conmonCgroupfsPath :: string
  crioAnnotations :: str_map
  c_state :: ContainerState
  c_spec :: "Spec option"
  terminal :: bool
  c_stdin :: bool
  stdinOnce :: bool
  c_created :: bool
  spoofed :: bool
  stopping :: bool
  stopTimeoutChan :: timeout_chan
  stopWatchers :: "nat list"
  pidns :: "string option"
  c_resources :: "LinuxContainerResources option"
  runtimePath :: string
  execPIDs :: "(int \<times> bool) list option"
  runtimeUser :: "LinuxContainerUser option"

definition SpoofedContainer_annotation :: string where
  "SpoofedContainer_annotation = ''io.kubernetes.cri-o.Spoofed''"

section \<open>Construction\<close>

definition zero_Container :: Container where
  "zero_Container = \<lparr>
     criContainer = \<lparr>Id = '''', PodSandboxId = '''', Metadata = None, Image = '''', ImageRef = '''',
       ImageId = '''', cri_State = CONTAINER_CREATED, CreatedAt = 0, Labels = Map.empty, Annotations = Map.empty\<rparr>,
     volumes = [], c_name = '''', logPath = '''', runtimeHandler = '''', bundlePath = '''', c_dir = '''',
     stopSignal = '''', someNameOfTheImage = None, imageID = None, mountPoint = '''',
     seccompProfilePath = '''', conmonCgroupfsPath = '''', crioAnnotations = Map.empty,
     c_state = zero_ContainerState, c_spec = None, terminal = False, c_stdin = False, stdinOnce = False,
     c_created = False, spoofed = False, stopping = False, stopTimeoutChan = NilChan, stopWatchers = [],
     pidns = None, c_resources = None, runtimePath = '''', execPIDs = None, runtimeUser = None\<rparr>"

definition NewContainer :: "string \<Rightarrow> string \<Rightarrow> string \<Rightarrow> string \<Rightarrow> str_map \<Rightarrow> str_map \<Rightarrow> str_map \<Rightarrow> string \<Rightarrow>
    string option \<Rightarrow> string option \<Rightarrow> string \<Rightarrow> ContainerMetadata option \<Rightarrow> string \<Rightarrow> bool \<Rightarrow> bool \<Rightarrow> bool \<Rightarrow>
    string \<Rightarrow> string \<Rightarrow> int \<Rightarrow> string \<Rightarrow> Container" where
  "NewContainer i name bundle log labels crioAnn anns userRequestedImage someName img someRepoDigest md
     sandbox term stdin once handler dir created sig =
     (let imageIDString = (case img of None \<Rightarrow> '''' | Some s \<Rightarrow> s);
          externalImageRef = (if someRepoDigest \<noteq> '''' then someRepoDigest else imageIDString)
      in zero_Container\<lparr>
           criContainer := \<lparr>Id = i, PodSandboxId = sandbox, Metadata = md, Image = userRequestedImage,
             ImageRef = externalImageRef, ImageId = imageIDString, cri_State = CONTAINER_CREATED,
             CreatedAt = created, Labels = labels, Annotations = anns\<rparr>,
           c_name := name, bundlePath := bundle, logPath := log, terminal := term, c_stdin := stdin,
           stdinOnce := once, runtimeHandler := handler, crioAnnotations := crioAnn,
           someNameOfTheImage := someName, imageID := img, c_dir := dir,
           c_state := zero_ContainerState\<lparr>Created := created\<rparr>, stopSignal := sig,
           stopTimeoutChan := OpenChan [], stopWatchers := [], execPIDs := Some []\<rparr>)"

definition NewSpoofedContainer :: "string \<Rightarrow> string \<Rightarrow> str_map \<Rightarrow> string \<Rightarrow> int \<Rightarrow> string \<Rightarrow> Container" where
  "NewSpoofedContainer i name labels sandbox created dir =
     zero_Container\<lparr>
       criContainer := \<lparr>Id = i, PodSandboxId = sandbox, Metadata = Some \<lparr>md_Name = '''', md_Attempt = 0\<rparr>,
         Image = '''', ImageRef = '''', ImageId = '''', cri_State = CONTAINER_CREATED, CreatedAt = created,
         Labels = labels, Annotations = [SpoofedContainer_annotation \<mapsto> ''true'']\<rparr>,
       c_name := name, imageID := None, spoofed := True,
       c_state := zero_ContainerState\<lparr>Created := created, Started := created\<rparr>, c_dir := dir\<rparr>"

section \<open>Accessors\<close>

definition ID :: "Container \<Rightarrow> string" where
  "ID c = Id (criContainer c)"

definition Sandbox_of :: "Container \<Rightarrow> string" where
  "Sandbox_of c = PodSandboxId (criContainer c)"

definition SetSandbox :: "string \<Rightarrow> Container \<Rightarrow> Container" where
  "SetSandbox i c = c\<lparr>criContainer := (criContainer c)\<lparr>PodSandboxId := i\<rparr>\<rparr>"

definition container_CreatedAt :: "Container \<Rightarrow> int" where
  "container_CreatedAt c = Created (c_state c)"

definition IsInfra :: "Container \<Rightarrow> bool" where
  "IsInfra c = (ID c = Sandbox_of c)"

definition CRIAttributes :: "Container \<Rightarrow> string \<times> ContainerMetadata option \<times> str_map \<times> str_map" where
  "CRIAttributes c = (ID c, Metadata (criContainer c), Labels (criContainer c), Annotations (criContainer c))"

definition AddVolume :: "ContainerVolume \<Rightarrow> Container \<Rightarrow> Container" where
  "AddVolume v c = c\<lparr>volumes := volumes c @ [v]\<rparr>"

definition SetMountPoint :: "string \<Rightarrow> Container \<Rightarrow> Container" where
  "SetMountPoint mp c = c\<lparr>mountPoint := mp\<rparr>"

definition SetCreated :: "Container \<Rightarrow> Container" where
  "SetCreated c = c\<lparr>c_created := True\<rparr>"

definition SetStartFailed :: "string option \<Rightarrow> Container \<Rightarrow> Container" where
  "SetStartFailed err c =
     (let s = (c_state c)\<lparr>Finished := Created (c_state c), Started := Created (c_state c)\<rparr>
      in c\<lparr>c_state := (case err of None \<Rightarrow> s | Some m \<Rightarrow> s\<lparr>st_Error := m\<rparr>)\<rparr>)"

definition LabelsToDescription :: "str_map \<Rightarrow> string" where
  "LabelsToDescription labels =
     get_or '''' labels ''io.kubernetes.pod.namespace'' @ ''/'' @
     get_or '''' labels ''io.kubernetes.pod.name'' @ ''/'' @
     get_or '''' labels ''io.kubernetes.container.name''"

definition SetSeccompProfilePath :: "string \<Rightarrow> Container \<Rightarrow> Container" where
  "SetSeccompProfilePath pp c = c\<lparr>seccompProfilePath := pp\<rparr>"

definition SetRuntimePathForPlatform :: "string \<Rightarrow> Container \<Rightarrow> Container" where
  "SetRuntimePathForPlatform p c = c\<lparr>runtimePath := p\<rparr>"

definition RuntimePathForPlatform :: "string \<Rightarrow> Container \<Rightarrow> string" where
  "RuntimePathForPlatform handlerPath c = (if runtimePath c = '''' then handlerPath else runtimePath c)"

text \<open>The status the CRI reports is recomputed from the runtime's status on every read and
  cached in the container.\<close>

definition CRIContainer :: "Container \<Rightarrow> Container \<times> cri_Container" where
  "CRIContainer c =
     (let s = Status (c_state c);
          newState = (if s = ContainerStateCreated then CONTAINER_CREATED
                      else if s = ContainerStateRunning \<or> s = ContainerStatePaused then CONTAINER_RUNNING
                      else if s = ContainerStateStopped then CONTAINER_EXITED
                      else CONTAINER_UNKNOWN);
          c' = (if newState \<noteq> cri_State (criContainer c)
                then c\<lparr>criContainer := (criContainer c)\<lparr>cri_State := newState\<rparr>\<rparr> else c)
      in (c', criContainer c'))"

text \<open>The stop signal, with the parser of signal names a parameter.\<close>

definition defaultStopSignalInt :: int where
  "defaultStopSignalInt = 15"

definition StopSignal :: "(string \<Rightarrow> int option) \<Rightarrow> (string \<Rightarrow> string) \<Rightarrow> Container \<Rightarrow> int" where
  "StopSignal ParseSignal ToUpper c =
     (if stopSignal c = '''' then defaultStopSignalInt
      else case ParseSignal (ToUpper (stopSignal c)) of None \<Rightarrow> defaultStopSignalInt | Some s \<Rightarrow> s)"

definition GetStopSignal :: "(string \<Rightarrow> int option) \<Rightarrow> (string \<Rightarrow> string) \<Rightarrow> Container \<Rightarrow> string" where
  "GetStopSignal ParseSignal ToUpper c = itoa (StopSignal ParseSignal ToUpper c)"

definition RemoveManagedPIDNamespace :: "(string \<Rightarrow> string option) \<Rightarrow> Container \<Rightarrow> string option" where
  "RemoveManagedPIDNamespace ns_Remove c =
     (case pidns c of None \<Rightarrow> None
      | Some ns \<Rightarrow> Some (''remove PID namespace for container '' @ ID c @ '': '' @
          (case ns_Remove ns of None \<Rightarrow> ''%!w(<nil>)'' | Some e \<Rightarrow> e)))"

definition AddManagedPIDNamespace :: "string \<Rightarrow> Container \<Rightarrow> Container" where
  "AddManagedPIDNamespace ns c = c\<lparr>pidns := Some ns\<rparr>"

section \<open>Resources and user of the specification\<close>

definition zero_resources :: LinuxContainerResources where
  "zero_resources = \<lparr>CpuPeriod = 0, CpuQuota = 0, CpuShares = 0, MemoryLimitInBytes = 0, OomScoreAdj = 0,
     CpusetCpus = '''', CpusetMems = '''', HugepageLimits = [], Unified = Map.empty, MemorySwapLimitInBytes = 0\<rparr>"

definition set_cpu_resources :: "spec_CPU \<Rightarrow> LinuxContainerResources \<Rightarrow> LinuxContainerResources" where
  "set_cpu_resources cpu r =
     (let r1 = r\<lparr>CpusetCpus := cpu_Cpus cpu, CpusetMems := cpu_Mems cpu\<rparr>;
          r2 = (case cpu_Period cpu of None \<Rightarrow> r1 | Some p \<Rightarrow> r1\<lparr>CpuPeriod := to_int64 p\<rparr>);
          r3 = (case cpu_Quota cpu of None \<Rightarrow> r2 | Some q \<Rightarrow> r2\<lparr>CpuQuota := q\<rparr>)
      in (case cpu_Shares cpu of None \<Rightarrow> r3 | Some s \<Rightarrow> r3\<lparr>CpuShares := to_int64 s\<rparr>))"

definition set_memory_resources :: "spec_Memory \<Rightarrow> LinuxContainerResources \<Rightarrow> LinuxContainerResources" where
  "set_memory_resources m r =
     (let r1 = (case mem_Limit m of None \<Rightarrow> r | Some l \<Rightarrow> r\<lparr>MemoryLimitInBytes := l\<rparr>)
      in (case mem_Swap m of None \<Rightarrow> r1 | Some s \<Rightarrow> r1\<lparr>MemorySwapLimitInBytes := s\<rparr>))"

definition SetResources :: "Spec \<Rightarrow> Container \<Rightarrow> Container" where
  "SetResources s c =
     (case sp_Linux s of None \<Rightarrow> c
      | Some l \<Rightarrow>
          (case lin_Resources l of None \<Rightarrow> c
           | Some lr \<Rightarrow>
               (let r1 = (case res_CPU lr of None \<Rightarrow> zero_resources | Some cpu \<Rightarrow> set_cpu_resources cpu zero_resources);
                    r2 = (case res_Memory lr of None \<Rightarrow> r1 | Some m \<Rightarrow> set_memory_resources m r1);
                    r3 = (case sp_Process s of None \<Rightarrow> r2
                          | Some p \<Rightarrow> (case proc_OOMScoreAdj p of None \<Rightarrow> r2 | Some a \<Rightarrow> r2\<lparr>OomScoreAdj := a\<rparr>));
                    r4 = r3\<lparr>Unified := res_Unified lr, HugepageLimits := res_HugepageLimits lr\<rparr>
                in c\<lparr>c_resources := Some r4\<rparr>)))"

definition SetRuntimeUser :: "Spec \<Rightarrow> Container \<Rightarrow> Container" where
  "SetRuntimeUser s c =
     (case sp_Process s of None \<Rightarrow> c
      | Some p \<Rightarrow> c\<lparr>runtimeUser := Some \<lparr>usr_Uid = int (proc_UID p), usr_Gid = int (proc_GID p),
                     usr_SupplementalGroups = map int (proc_AdditionalGids p)\<rparr>\<rparr>)"

definition SetSpec :: "Spec \<Rightarrow> Container \<Rightarrow> Container" where
  "SetSpec s c = SetRuntimeUser s (SetResources s (c\<lparr>c_spec := Some s\<rparr>))"

text \<open>Reading through the nil specification panics.\<close>

definition nodeLevelPIDNamespace :: "Container \<Rightarrow> (unit, bool) outcome" where
  "nodeLevelPIDNamespace c =
     (case c_spec c of None \<Rightarrow> Panic
      | Some s \<Rightarrow> (case sp_Linux s of None \<Rightarrow> Ok True
                  | Some l \<Rightarrow> Ok (\<not> list_ex (\<lambda>t. t = ''pid'') (lin_Namespaces l))))"

section \<open>Process identity\<close>

text \<open>\<^verbatim>\<open>bytes.LastIndexByte\<close>.\<close>

definition last_index_byte :: "char \<Rightarrow> string \<Rightarrow> int" where
  "last_index_byte c s =
     (if c \<in> set s then int (length s) - 1 - int (length (takeWhile (\<lambda>x. x \<noteq> c) (rev s))) else - 1)"

definition startTimeFieldIndex :: nat where
  "startTimeFieldIndex = 19"

text \<open>The argument is what opening and reading the file gives. Slicing past the end of the
  data panics.\<close>

definition getPidStatDataFromFile :: "string option \<Rightarrow> (oci_error, string \<times> string) outcome" where
  "getPidStatDataFromFile contents =
     (case contents of
        None \<Rightarrow> Err (ErrOther ''open'')
      | Some bytes \<Rightarrow>
          (let data = take 4096 bytes; bracket = last_index_byte (CHR '')'') data
           in if bracket < 0 then Err (ErrWrap ''unable to find ')' in stat file'' ErrNotFound)
              else if bracket + 2 > int (length data) then Panic
              else let statFields = str_fields (drop (nat (bracket + 2)) data)
                   in if length statFields < startTimeFieldIndex + 1
                      then Err (ErrWrap ''unable to parse malformed stat file'' ErrNotFound)
                      else Ok (statFields ! 0, statFields ! startTimeFieldIndex)))"

definition getPidStartTime :: "(int \<Rightarrow> string option) \<Rightarrow> int \<Rightarrow> (oci_error, string) outcome" where
  "getPidStartTime read_stat pid = outcome_bind (getPidStatDataFromFile (read_stat pid)) (\<lambda>(_, t). Ok t)"

definition SetInitPid :: "(int \<Rightarrow> string option) \<Rightarrow> int \<Rightarrow> ContainerState \<Rightarrow> ContainerState \<times> (oci_error, unit) outcome" where
  "SetInitPid read_stat pid s =
     (if InitPid s \<noteq> 0 \<or> InitStartTime s \<noteq> '''' then (s, Err (ErrOther ''pid and start time already initialized''))
      else let s1 = s\<lparr>InitPid := pid\<rparr>
           in case getPidStartTime read_stat pid of
                Err e \<Rightarrow> (s1, Err e) | Panic \<Rightarrow> (s1, Panic)
              | Ok t \<Rightarrow> (s1\<lparr>InitStartTime := t\<rparr>, Ok ()))"

text \<open>The decoded state file is the argument of \<open>FromDisk\<close>.\<close>

definition FromDisk :: "(int \<Rightarrow> string option) \<Rightarrow> oci_error + ContainerState \<Rightarrow> Container \<Rightarrow> Container \<times> (oci_error, unit) outcome" where
  "FromDisk read_stat decoded c =
     (case decoded of
        Inl e \<Rightarrow> (c, Err e)
      | Inr tmpState \<Rightarrow>
          if InitPid tmpState = 0 \<and> InitStartTime tmpState = '''' \<and> Pid tmpState \<noteq> 0 then
            (case SetInitPid read_stat (Pid tmpState) tmpState of
               (s, Ok _) \<Rightarrow> (c\<lparr>c_state := s\<rparr>, Ok ())
             | (_, Err e) \<Rightarrow> (c, Err e) | (_, Panic) \<Rightarrow> (c, Panic))
          else (c\<lparr>c_state := tmpState\<rparr>, Ok ()))"

datatype errno = ESRCH | EPERM | EOTHER nat

definition verifyPid :: "(int \<Rightarrow> string option) \<Rightarrow> Container \<Rightarrow> (oci_error, string) outcome" where
  "verifyPid read_stat c =
     outcome_bind (getPidStatDataFromFile (read_stat (InitPid (c_state c))))
       (\<lambda>(st, startTime).
          if InitStartTime (c_state c) \<noteq> startTime then Err (ErrOther ''PID wrap may have occurred'') else Ok st)"

definition pid :: "(int \<Rightarrow> errno option) \<Rightarrow> (int \<Rightarrow> string option) \<Rightarrow> Container \<Rightarrow> (oci_error, int \<times> string) outcome" where
  "pid kill0 read_stat c =
     (if InitPid (c_state c) \<le> 0 then Err ErrNotInitialized
      else if Pid (c_state c) = 0 then Err ErrNotFound
      else case kill0 (InitPid (c_state c)) of
             Some e \<Rightarrow> if e = ESRCH then Err ErrNotFound else Err (ErrOther ''error checking if process is running'')
           | None \<Rightarrow>
               outcome_bind (verifyPid read_stat c)
                 (\<lambda>st. if st = ''X'' \<or> st = ''Z'' then Err ErrNotFound else Ok (InitPid (c_state c), st)))"

definition Living :: "(int \<Rightarrow> errno option) \<Rightarrow> (int \<Rightarrow> string option) \<Rightarrow> Container \<Rightarrow> (oci_error, unit) outcome" where
  "Living kill0 read_stat c =
     (case pid kill0 read_stat c of
        Ok _ \<Rightarrow> Ok () | Panic \<Rightarrow> Panic
      | Err e \<Rightarrow> Err (ErrWrap (''checking if PID of '' @ ID c @ '' is running failed'') e))"

definition ProcessState :: "(int \<Rightarrow> errno option) \<Rightarrow> (int \<Rightarrow> string option) \<Rightarrow> Container \<Rightarrow> (oci_error, string) outcome" where
  "ProcessState kill0 read_stat c =
     (case pid kill0 read_stat c of
        Ok (_, st) \<Rightarrow> Ok st | Panic \<Rightarrow> Panic
      | Err e \<Rightarrow> Err (ErrWrap (''checking if PID of '' @ ID c @ '' is running failed'') e))"

definition container_Pid :: "(int \<Rightarrow> errno option) \<Rightarrow> (int \<Rightarrow> string option) \<Rightarrow> Container \<Rightarrow> (oci_error, int) outcome" where
  "container_Pid kill0 read_stat c = outcome_bind (pid kill0 read_stat c) (\<lambda>(p, _). Ok p)"

section \<open>Stopping and exec sessions\<close>

definition SetAsStopping :: "Container \<Rightarrow> Container \<times> bool" where
  "SetAsStopping c = (if \<not> stopping c then (c\<lparr>stopping := True\<rparr>, True) else (c, False))"

text \<open>The locked part of \<^verbatim>\<open>WaitOnStopTimeout\<close>. The channel has room for ten
  timeouts: \<open>WaitBlocked\<close> is blocking in the send with the lock held,
  \<open>WaitPanic\<close> sending on a closed channel, \<open>WaitRegistered\<close> having registered
  the watcher \<open>w\<close>, for which the caller then waits.\<close>

datatype wait_result = WaitNotStopping | WaitRegistered Container | WaitBlocked | WaitPanic

definition WaitOnStopTimeout :: "int \<Rightarrow> nat \<Rightarrow> Container \<Rightarrow> wait_result" where
  "WaitOnStopTimeout timeout w c =
     (if \<not> stopping c then WaitNotStopping
      else case stopTimeoutChan c of
             NilChan \<Rightarrow> WaitBlocked
           | ClosedChan \<Rightarrow> WaitPanic
           | OpenChan buf \<Rightarrow>
               if length buf < 10
               then WaitRegistered (c\<lparr>stopTimeoutChan := OpenChan (buf @ [timeout]),
                                      stopWatchers := stopWatchers c @ [w]\<rparr>)
               else WaitBlocked)"

text \<open>Closes the watchers, which are returned, and the channel; closing a nil or a closed
  channel panics.\<close>

definition SetAsDoneStopping :: "Container \<Rightarrow> (unit, Container \<times> nat list) outcome" where
  "SetAsDoneStopping c =
     (case stopTimeoutChan c of
        OpenChan _ \<Rightarrow> Ok (c\<lparr>stopWatchers := [], stopTimeoutChan := ClosedChan\<rparr>, stopWatchers c)
      | _ \<Rightarrow> Panic)"

definition AddExecPID :: "int \<Rightarrow> bool \<Rightarrow> Container \<Rightarrow> (string, Container) outcome" where
  "AddExecPID p shouldKill c =
     (if stopping c then Err ''cannot register an exec PID: container is stopping''
      else case execPIDs c of None \<Rightarrow> Panic
           | Some m \<Rightarrow> Ok (c\<lparr>execPIDs := Some ((p, shouldKill) # filter (\<lambda>(q, _). q \<noteq> p) m)\<rparr>))"

definition DeleteExecPID :: "int \<Rightarrow> Container \<Rightarrow> Container" where
  "DeleteExecPID p c = c\<lparr>execPIDs := map_option (filter (\<lambda>(q, _). q \<noteq> p)) (execPIDs c)\<rparr>"

definition SIGINT :: int where "SIGINT = 2"
definition SIGKILL :: int where "SIGKILL = 9"

text \<open>One pass of \<^verbatim>\<open>KillExecPIDs\<close> over the remaining processes: the signals sent and
  the processes to try again. \<open>kill p s\<close> is what the system call gives in this pass.\<close>

fun kill_pass :: "(int \<Rightarrow> int \<Rightarrow> errno option) \<Rightarrow> (int \<times> bool) list \<Rightarrow> (int \<times> int) list \<times> (int \<times> bool) list" where
  "kill_pass kill [] = ([], [])"
| "kill_pass kill ((p, shouldKill) # m) =
     (let (sent, unkilled) = kill_pass kill m
      in if p = 0 then (sent, unkilled)
         else let sig = (if shouldKill then SIGKILL else SIGINT)
              in ((p, sig) # sent,
                  case kill p sig of
                    None \<Rightarrow> unkilled
                  | Some e \<Rightarrow> if e = ESRCH then unkilled else (p, shouldKill) # unkilled))"

text \<open>The passes, up to a bound: \<open>kills n\<close> answers the calls of pass \<open>n\<close>. The result
  is the signals sent and whether the loop has ended.\<close>

fun kill_loop :: "nat \<Rightarrow> (nat \<Rightarrow> int \<Rightarrow> int \<Rightarrow> errno option) \<Rightarrow> nat \<Rightarrow> (int \<times> bool) list \<Rightarrow> (int \<times> int) list \<times> bool" where
  "kill_loop 0 kills n toKill = ([], toKill = [])"
| "kill_loop (Suc fuel) kills n toKill =
     (if toKill = [] then ([], True)
      else let (sent, unkilled) = kill_pass (kills n) toKill; (more, ended) = kill_loop fuel kills (Suc n) unkilled
           in (sent @ more, ended))"

definition KillExecPIDs :: "nat \<Rightarrow> (nat \<Rightarrow> int \<Rightarrow> int \<Rightarrow> errno option) \<Rightarrow> Container \<Rightarrow> (int \<times> int) list \<times> bool" where
  "KillExecPIDs fuel kills c = kill_loop fuel kills 0 (case execPIDs c of None \<Rightarrow> [] | Some m \<Rightarrow> m)"

section \<open>Lemmas\<close>

lemma last_index_byte_append: "c \<notin> set t \<Longrightarrow> last_index_byte c (s @ c # t) = int (length s)"
proof -
  assume c: "c \<notin> set t"
  have "takeWhile (\<lambda>x. x \<noteq> c) (rev t @ c # rev s) = rev t"
    using c by (subst takeWhile_append2) auto
  then show ?thesis by (simp add: last_index_byte_def)
qed

definition exec_signal :: "bool \<Rightarrow> int" where
  "exec_signal shouldKill = (if shouldKill then SIGKILL else SIGINT)"

lemma kill_pass_fst:
  "fst (kill_pass kill m) = map (\<lambda>(p, k). (p, exec_signal k)) (filter (\<lambda>(p, _). p \<noteq> 0) m)"
  by (induction kill m rule: kill_pass.induct) (simp_all add: split_beta Let_def exec_signal_def)

lemma kill_pass_sent:
  "(p, s) \<in> set (fst (kill_pass kill m)) \<longleftrightarrow> (\<exists>k. (p, k) \<in> set m \<and> p \<noteq> 0 \<and> s = exec_signal k)"
  by (force simp: kill_pass_fst)

lemma kill_pass_unkilled:
  "snd (kill_pass kill m) = filter (\<lambda>(p, k). p \<noteq> 0 \<and> kill p (exec_signal k) \<notin> {None, Some ESRCH}) m"
  by (induction kill m rule: kill_pass.induct)
    (simp_all add: split_beta Let_def exec_signal_def split: option.split)

lemma kill_loop_signals:
  "(p, s) \<in> set (fst (kill_loop fuel kills n m)) \<Longrightarrow>
     p \<noteq> 0 \<and> (\<exists>k. (p, k) \<in> set m \<and> s = exec_signal k)"
proof (induction fuel kills n m rule: kill_loop.induct)
  case (2 fuel kills n m)
  obtain sent un where ks: "kill_pass (kills n) m = (sent, un)" by fastforce
  obtain more en where kl: "kill_loop fuel kills (Suc n) un = (more, en)" by fastforce
  have "set un \<subseteq> set m"
    using kill_pass_unkilled [of "kills n" m] ks by auto
  moreover have "m \<noteq> []" using 2(2) by auto
  moreover have "(p, s) \<in> set sent \<or> (p, s) \<in> set more"
    using 2(2) ks kl \<open>m \<noteq> []\<close> by simp
  ultimately show ?case
    using 2(1) [OF \<open>m \<noteq> []\<close> ks [symmetric] refl] kl kill_pass_sent [of p s "kills n" m] ks by auto
qed simp

lemma kill_loop_ends:
  assumes "\<And>p s. kills (n + k) p s \<in> {None, Some ESRCH}" and "k < fuel"
  shows "snd (kill_loop fuel kills n m)"
  using assms
proof (induction fuel kills n m arbitrary: k rule: kill_loop.induct)
  case (2 fuel kills n m)
  obtain sent un where ks: "kill_pass (kills n) m = (sent, un)" by fastforce
  have un: "un = []" if "k = 0"
  proof -
    have "(kills n p s \<notin> {None, Some ESRCH}) = False" for p s
      using 2(2) [of p s] that by simp
    then show ?thesis
      using kill_pass_unkilled [of "kills n" m] ks by (simp del: insert_iff)
  qed
  show ?case
  proof (cases k)
    case 0
    then show ?thesis using ks un by (cases fuel) (simp_all add: split_beta)
  next
    case (Suc j)
    show ?thesis
    proof (cases "m = []")
      case False
      then have "snd (kill_loop fuel kills (Suc n) un)"
        using 2(1) [OF False ks [symmetric] refl, of j] 2(2,3) Suc by simp
      then show ?thesis using ks by (simp add: split_beta)
    qed simp
  qed
qed simp

section \<open>Properties\<close>

text \<open>Parsing of /proc/<pid>/stat finds the state and the start time whatever the process
  name is: for every name, even one with brackets and blanks, the third and the
  twenty-second field of the line are returned, provided the line fits the 4096 bytes
  that are read.\<close>

theorem stat_any_process_name:
  assumes "list_all is_word fs" and "20 \<le> length fs" and "CHR '')'' \<notin> set (join_with '' '' fs)"
    and "length (pre @ '' ('' @ comm @ '') '' @ join_with '' '' fs) \<le> 4096"
  shows "getPidStatDataFromFile (Some (pre @ '' ('' @ comm @ '') '' @ join_with '' '' fs)) = Ok (fs ! 0, fs ! 19)"
proof -
  define a where "a = pre @ '' ('' @ comm"
  let ?d = "a @ CHR '')'' # CHR '' '' # join_with '' '' fs"
  have d: "pre @ '' ('' @ comm @ '') '' @ join_with '' '' fs = ?d" by (simp add: a_def)
  have "last_index_byte (CHR '')'') ?d = int (length a)"
    using assms(3) by (intro last_index_byte_append) simp
  moreover have "drop (length a + 2) ?d = join_with '' '' fs"
    by simp
  ultimately show ?thesis
    using assms(2,4) unfolding d
    by (simp add: getPidStatDataFromFile_def Let_def str_fields_join [OF assms(1)] startTimeFieldIndex_def
        nat_add_distrib)
qed

theorem stat_any_process_name_witness:
  "getPidStatDataFromFile (Some (''7'' @ '' ('' @ ''evil) R 1'' @ '') '' @
     join_with '' '' [''S'',''1'',''2'',''3'',''4'',''5'',''6'',''7'',''8'',''9'',''10'',''11'',''12'',''13'',''14'',''15'',''16'',''17'',''18'',''999'']))
   = Ok (''S'', ''999'')"
  using stat_any_process_name [of "[''S'',''1'',''2'',''3'',''4'',''5'',''6'',''7'',''8'',''9'',''10'',''11'',''12'',''13'',''14'',''15'',''16'',''17'',''18'',''999'']"
      "''7''" "''evil) R 1''"]
  by (simp add: is_word_def is_space_def)

text \<open>C14: The container counts as living exactly when its init process identifier is recorded,
  the runtime has not cleared its current one, a process with that identifier exists, that
  process has the recorded start time, and it is neither dead nor a zombie; a reused
  identifier never counts.\<close>

theorem living_iff_same_process:
  "Living kill0 read_stat c = Ok () \<longleftrightarrow>
     0 < InitPid (c_state c) \<and> Pid (c_state c) \<noteq> 0 \<and> kill0 (InitPid (c_state c)) = None \<and>
     (\<exists>st. getPidStatDataFromFile (read_stat (InitPid (c_state c))) = Ok (st, InitStartTime (c_state c)) \<and>
           st \<noteq> ''X'' \<and> st \<noteq> ''Z'')"
  by (cases "getPidStatDataFromFile (read_stat (InitPid (c_state c)))")
    (auto simp: Living_def pid_def verifyPid_def not_le split: option.split if_splits)

text \<open>Recording the init process makes it recognisable: once SetInitPid has succeeded for a
  positive identifier, it can never be recorded again, the recorded values are the ones
  read, and whatever the process table says later, the container lives exactly while that
  identifier has the same start time and has not ended.\<close>

theorem init_pid_recorded_once:
  assumes "SetInitPid read_stat p s = (s', Ok ())" and "0 < p" and "Pid s' \<noteq> 0"
  shows "InitPid s' = p \<and> getPidStartTime read_stat p = Ok (InitStartTime s') \<and>
    SetInitPid read_stat' p' s' = (s', Err (ErrOther ''pid and start time already initialized'')) \<and>
    (Living kill0 read_stat' (c\<lparr>c_state := s'\<rparr>) = Ok () \<longleftrightarrow>
      kill0 p = None \<and> (\<exists>st. getPidStatDataFromFile (read_stat' p) = Ok (st, InitStartTime s') \<and> st \<noteq> ''X'' \<and> st \<noteq> ''Z''))"
proof -
  obtain t where t: "getPidStartTime read_stat p = Ok t"
      and s': "s' = s\<lparr>InitPid := p, InitStartTime := t\<rparr>"
    using assms(1) by (auto simp: SetInitPid_def Let_def split: if_splits outcome.splits)
  have "Living kill0 read_stat' (c\<lparr>c_state := s'\<rparr>) = Ok () \<longleftrightarrow>
      kill0 p = None \<and> (\<exists>st. getPidStatDataFromFile (read_stat' p) = Ok (st, t) \<and> st \<noteq> ''X'' \<and> st \<noteq> ''Z'')"
    using assms(2,3)
    by (cases "getPidStatDataFromFile (read_stat' p)")
      (auto simp: s' Living_def pid_def verifyPid_def split: option.split if_splits)
  then show ?thesis using assms(2) t by (simp add: s' SetInitPid_def)
qed

definition sample_stat :: "int \<Rightarrow> string option" where
  "sample_stat p = (if p = 7 then Some ''7 (sh) S 1 2 3 4 5 6 7 8 9 10 11 12 13 14 15 16 17 18 999 0'' else None)"

theorem init_pid_recorded_once_witness:
  "\<exists>s'. SetInitPid sample_stat 7 (zero_ContainerState\<lparr>Pid := 7\<rparr>) = (s', Ok ()) \<and> InitPid s' = 7 \<and>
     Living (\<lambda>_. None) sample_stat (zero_Container\<lparr>c_state := s'\<rparr>) = Ok ()"
proof -
  have st: "getPidStatDataFromFile (sample_stat 7) = Ok (''S'', ''999'')"
    by code_simp
  then obtain s' where s': "SetInitPid sample_stat 7 (zero_ContainerState\<lparr>Pid := 7\<rparr>) = (s', Ok ())"
      "Pid s' = 7" "InitStartTime s' = ''999''"
    by (simp add: SetInitPid_def getPidStartTime_def zero_ContainerState_def)
  show ?thesis
    using init_pid_recorded_once [OF s'(1), of sample_stat 7 "\<lambda>_. None" zero_Container] s' st
    by auto
qed

text \<open>C29: Exec sessions are closed off and killed when a container is stopped: after
  SetAsStopping no exec process can be registered any more; KillExecPIDs never signals
  process 0, sends every registered process SIGKILL or SIGINT as it was registered, and
  ends as soon as in some pass all remaining processes can be signalled or are gone.\<close>

theorem exec_sessions_killed:
  assumes "execPIDs c = Some m" and "\<And>p s. kills k p s \<in> {None, Some ESRCH}" and "k < fuel"
  shows "AddExecPID p b (fst (SetAsStopping c)) = Err ''cannot register an exec PID: container is stopping'' \<and>
    snd (KillExecPIDs fuel kills c) \<and>
    ((q, s) \<in> set (fst (KillExecPIDs fuel kills c)) \<longleftrightarrow>
      q \<noteq> 0 \<and> (\<exists>b. (q, b) \<in> set m \<and> s = (if b then SIGKILL else SIGINT)))"
proof -
  have ended: "snd (KillExecPIDs fuel kills c)"
    using kill_loop_ends [of kills 0 k fuel m] assms by (simp add: KillExecPIDs_def)
  have "set (fst (kill_pass (kills 0) m)) \<subseteq> set (fst (kill_loop fuel kills 0 m))"
    using assms(3) by (cases fuel) (auto simp: split_beta)
  then have "(q, s) \<in> set (fst (KillExecPIDs fuel kills c)) \<longleftrightarrow> q \<noteq> 0 \<and> (\<exists>b. (q, b) \<in> set m \<and> s = exec_signal b)"
    using kill_loop_signals [of q s fuel kills 0 m] kill_pass_sent [of q s "kills 0" m] assms(1)
    by (auto simp: KillExecPIDs_def)
  then show ?thesis
    using ended by (simp add: AddExecPID_def SetAsStopping_def exec_signal_def)
qed

theorem exec_sessions_killed_witness:
  "snd (KillExecPIDs 2 (\<lambda>n p s. if n = 0 \<and> p = 5 then Some EPERM else None)
     (zero_Container\<lparr>execPIDs := Some [(5, True), (0, True), (6, False)]\<rparr>)) \<and>
   (0, SIGKILL) \<notin> set (fst (KillExecPIDs 2 (\<lambda>n p s. if n = 0 \<and> p = 5 then Some EPERM else None)
     (zero_Container\<lparr>execPIDs := Some [(5, True), (0, True), (6, False)]\<rparr>)))"
  using exec_sessions_killed [of "zero_Container\<lparr>execPIDs := Some [(5, True), (0, True), (6, False)]\<rparr>"
      "[(5, True), (0, True), (6, False)]" "\<lambda>n p s. if n = 0 \<and> p = 5 then Some EPERM else None" 1 2
      0 True 0 SIGKILL]
  by auto


end
