(* ===== verification/Stop_Protocol.thy ===== *)
theory Stop_Protocol
  imports Oci_Container
begin

text \<open>
  Stopping a container (\<^verbatim>\<open>StopContainer\<close> and \<^verbatim>\<open>StopLoopForContainer\<close> of
  \<^verbatim>\<open>internal/oci/runtime_oci.go\<close>) as interleavings of any number of requests with
  the one stop loop, the container's process, the clock and an interrupt.

  A step is what runs between two points where another goroutine can intervene: the check
  that the process lives, SetAsStopping, the locked part of WaitOnStopTimeout, and in the
  loop each round of its select, each attempt to kill, and the deferred clean-up. The three
  container methods are those of \<open>Oci_Container\<close>. A request that blocks in the send of
  WaitOnStopTimeout does so with \<^verbatim>\<open>stopLock\<close> held (\<open>lock\<close>). Time is in
  nanoseconds.
\<close>

section \<open>State\<close>

datatype req = ReqIdle | ReqLiving int | ReqMarked int | ReqBlocked int | ReqWaiting | ReqReturned | ReqPanicked

datatype loop_pc = LIdle | LSpawned | LSelect | LKilling | LDeferred | LEnded

record stop_sys =
  ctr :: Container
  alive :: bool
  now :: int
  reqs :: "nat \<Rightarrow> req"
  lock :: "nat option"
  lp :: loop_pc
  spawns :: nat
  target :: int
  deadlines :: "int list"
  kill_log :: "int list"
  interrupted :: bool

definition stop_init :: "Container \<Rightarrow> stop_sys" where
  "stop_init c = \<lparr>ctr = c, alive = True, now = 0, reqs = (\<lambda>_. ReqIdle), lock = None, lp = LIdle, spawns = 0,
     target = 0, deadlines = [], kill_log = [], interrupted = False\<rparr>"

text \<open>\<^verbatim>\<open>time.Duration(timeout) * time.Second\<close>, in 64 bits.\<close>

definition timeout_duration :: "int \<Rightarrow> int" where
  "timeout_duration timeout = to_int64 (timeout * 1000000000)"

definition set_finished :: "int \<Rightarrow> Container \<Rightarrow> Container" where
  "set_finished t c = c\<lparr>c_state := (c_state c)\<lparr>Finished := t\<rparr>\<rparr>"

section \<open>Steps\<close>

text \<open>StopContainer of a container that is not spoofed.\<close>

inductive req_step :: "stop_sys \<Rightarrow> stop_sys \<Rightarrow> bool" where
  req_dead: "reqs s r = ReqIdle \<Longrightarrow> \<not> alive s \<Longrightarrow>
     req_step s (s\<lparr>ctr := set_finished (now s) (ctr s), reqs := (reqs s)(r := ReqReturned)\<rparr>)"
| req_living: "reqs s r = ReqIdle \<Longrightarrow> alive s \<Longrightarrow>
     req_step s (s\<lparr>reqs := (reqs s)(r := ReqLiving t)\<rparr>)"
| req_mark: "reqs s r = ReqLiving t \<Longrightarrow> lock s = None \<Longrightarrow> SetAsStopping (ctr s) = (c, first) \<Longrightarrow>
     req_step s (s\<lparr>ctr := c, reqs := (reqs s)(r := ReqMarked t),
                   lp := (if first then LSpawned else lp s), spawns := (if first then Suc (spawns s) else spawns s)\<rparr>)"
| req_register: "reqs s r = ReqMarked t \<Longrightarrow> lock s = None \<Longrightarrow> WaitOnStopTimeout t r (ctr s) = WaitRegistered c \<Longrightarrow>
     req_step s (s\<lparr>ctr := c, reqs := (reqs s)(r := ReqWaiting)\<rparr>)"
| req_not_stopping: "reqs s r = ReqMarked t \<Longrightarrow> lock s = None \<Longrightarrow> WaitOnStopTimeout t r (ctr s) = WaitNotStopping \<Longrightarrow>
     req_step s (s\<lparr>reqs := (reqs s)(r := ReqReturned)\<rparr>)"
| req_panic: "reqs s r = ReqMarked t \<Longrightarrow> lock s = None \<Longrightarrow> WaitOnStopTimeout t r (ctr s) = WaitPanic \<Longrightarrow>
     req_step s (s\<lparr>reqs := (reqs s)(r := ReqPanicked)\<rparr>)"
| req_block: "reqs s r = ReqMarked t \<Longrightarrow> lock s = None \<Longrightarrow> WaitOnStopTimeout t r (ctr s) = WaitBlocked \<Longrightarrow>
     req_step s (s\<lparr>reqs := (reqs s)(r := ReqBlocked t), lock := Some r\<rparr>)"
| req_unblock: "reqs s r = ReqBlocked t \<Longrightarrow> WaitOnStopTimeout t r (ctr s) = WaitRegistered c \<Longrightarrow>
     req_step s (s\<lparr>ctr := c, reqs := (reqs s)(r := ReqWaiting), lock := None\<rparr>)"
| req_cancelled: "reqs s r = ReqWaiting \<Longrightarrow>
     req_step s (s\<lparr>reqs := (reqs s)(r := ReqReturned)\<rparr>)"

text \<open>StopLoopForContainer. A first kill that fails ends the loop when the process is gone;
  otherwise the loop waits for timeouts, for the earliest deadline, for the end of the
  process or for an interrupt.\<close>

inductive loop_step :: "stop_sys \<Rightarrow> stop_sys \<Rightarrow> bool" where
  loop_start: "lp s = LSpawned \<Longrightarrow> 365 * 86400 * 1000000000 \<le> year \<Longrightarrow>
     loop_step s (s\<lparr>lp := LSelect, target := now s + year, deadlines := [now s + year]\<rparr>)"
| loop_start_dead: "lp s = LSpawned \<Longrightarrow> \<not> alive s \<Longrightarrow>
     loop_step s (s\<lparr>lp := LDeferred, ctr := set_finished (now s) (ctr s)\<rparr>)"
| loop_timeout: "lp s = LSelect \<Longrightarrow> stopTimeoutChan (ctr s) = OpenChan (t # buf) \<Longrightarrow>
     loop_step s (s\<lparr>ctr := (ctr s)\<lparr>stopTimeoutChan := OpenChan buf\<rparr>,
                    target := (if now s + timeout_duration t < target s then now s + timeout_duration t else target s),
                    deadlines := (now s + timeout_duration t) # deadlines s\<rparr>)"
| loop_expired: "lp s = LSelect \<Longrightarrow> target s \<le> now s \<Longrightarrow> loop_step s (s\<lparr>lp := LKilling\<rparr>)"
| loop_done: "lp s = LSelect \<Longrightarrow> \<not> alive s \<Longrightarrow> loop_step s (s\<lparr>lp := LDeferred\<rparr>)"
| loop_kill: "lp s = LKilling \<Longrightarrow>
     loop_step s (s\<lparr>kill_log := now s # kill_log s, lp := (if alive s then LKilling else LDeferred)\<rparr>)"
| loop_interrupt: "lp s = LSelect \<or> lp s = LKilling \<Longrightarrow> loop_step s (s\<lparr>lp := LDeferred, interrupted := True\<rparr>)"
| loop_finish: "lp s = LDeferred \<Longrightarrow> lock s = None \<Longrightarrow>
     SetAsDoneStopping (set_finished (now s) (ctr s)) = Ok (c, ws) \<Longrightarrow>
     loop_step s (s\<lparr>ctr := c, lp := LEnded,
                    reqs := (\<lambda>r. if r \<in> set ws \<and> reqs s r = ReqWaiting then ReqReturned else reqs s r)\<rparr>)"

inductive env_step :: "stop_sys \<Rightarrow> stop_sys \<Rightarrow> bool" where
  env_dies: "env_step s (s\<lparr>alive := False\<rparr>)"
| env_tick: "now s \<le> t \<Longrightarrow> env_step s (s\<lparr>now := t\<rparr>)"

definition stop_step :: "stop_sys \<Rightarrow> stop_sys \<Rightarrow> bool" where
  "stop_step s s' \<longleftrightarrow> req_step s s' \<or> loop_step s s' \<or> env_step s s'"

inductive stop_reach :: "stop_sys \<Rightarrow> stop_sys \<Rightarrow> bool" where
  stop_refl: "stop_reach s s"
| stop_trans: "stop_reach s s' \<Longrightarrow> stop_step s' s'' \<Longrightarrow> stop_reach s s''"

inductive_cases req_stepE: "req_step s s'"
inductive_cases loop_stepE: "loop_step s s'"
inductive_cases env_stepE: "env_step s s'"

lemma stop_reach_trans: "stop_reach s' s'' \<Longrightarrow> stop_reach s s' \<Longrightarrow> stop_reach s s''"
  by (induction rule: stop_reach.induct) (auto intro: stop_trans)

lemma stop_reach_step: "stop_step s s' \<Longrightarrow> stop_reach s s'"
  by (auto intro: stop_refl stop_trans)

lemma reach_req: "stop_reach s s' \<Longrightarrow> req_step s' s'' \<Longrightarrow> stop_reach s s''"
  and reach_loop: "stop_reach s s' \<Longrightarrow> loop_step s' s'' \<Longrightarrow> stop_reach s s''"
  and reach_env: "stop_reach s s' \<Longrightarrow> env_step s' s'' \<Longrightarrow> stop_reach s s''"
  by (auto intro: stop_trans simp: stop_step_def)

section \<open>Invariant\<close>

text \<open>The loop and the container's stop fields.\<close>

definition inv_loop :: "stop_sys \<Rightarrow> bool" where
  "inv_loop s \<longleftrightarrow>
     (lp s = LIdle \<longleftrightarrow> \<not> stopping (ctr s)) \<and>
     (stopTimeoutChan (ctr s) = ClosedChan \<longleftrightarrow> lp s = LEnded) \<and> stopTimeoutChan (ctr s) \<noteq> NilChan \<and>
     spawns s = (if lp s = LIdle then 0 else 1) \<and>
     (lp s = LDeferred \<or> lp s = LEnded \<longrightarrow> interrupted s \<or> \<not> alive s)"

text \<open>The deadlines and the times of the kills.\<close>

definition inv_time :: "stop_sys \<Rightarrow> bool" where
  "inv_time s \<longleftrightarrow>
     (lp s = LSelect \<or> lp s = LKilling \<or> kill_log s \<noteq> [] \<longrightarrow> deadlines s \<noteq> [] \<and> target s = Min (set (deadlines s))) \<and>
     (lp s = LKilling \<longrightarrow> target s \<le> now s) \<and>
     (lp s = LIdle \<or> lp s = LSpawned \<or> lp s = LSelect \<longrightarrow> kill_log s = []) \<and>
     (\<forall>k. k \<in> set (kill_log s) \<longrightarrow> target s \<le> k)"

text \<open>The requests.\<close>

fun req_ok :: "loop_pc \<Rightarrow> bool \<Rightarrow> nat set \<Rightarrow> nat option \<Rightarrow> nat \<Rightarrow> req \<Rightarrow> bool" where
  "req_ok pc stp ws lk r ReqWaiting = (r \<in> ws \<and> pc \<noteq> LEnded \<and> lk \<noteq> Some r)"
| "req_ok pc stp ws lk r ReqPanicked = (pc = LEnded \<and> lk \<noteq> Some r)"
| "req_ok pc stp ws lk r (ReqMarked t) = (stp \<and> lk \<noteq> Some r)"
| "req_ok pc stp ws lk r (ReqBlocked t) = (stp \<and> pc \<noteq> LEnded \<and> lk = Some r)"
| "req_ok pc stp ws lk r _ = (lk \<noteq> Some r)"

definition inv_reqs :: "stop_sys \<Rightarrow> bool" where
  "inv_reqs s \<longleftrightarrow> (\<forall>r. req_ok (lp s) (stopping (ctr s)) (set (stopWatchers (ctr s))) (lock s) r (reqs s r))"

definition stop_inv :: "stop_sys \<Rightarrow> bool" where
  "stop_inv s \<longleftrightarrow> inv_loop s \<and> inv_time s \<and> inv_reqs s"

lemma stop_inv_init:
  "stopping c = False \<Longrightarrow> stopTimeoutChan c = OpenChan [] \<Longrightarrow> stop_inv (stop_init c)"
  by (simp add: stop_inv_def inv_loop_def inv_time_def inv_reqs_def stop_init_def)

lemma set_finished_frame [simp]:
  "stopping (set_finished t c) = stopping c" "stopTimeoutChan (set_finished t c) = stopTimeoutChan c"
  "stopWatchers (set_finished t c) = stopWatchers c"
  by (simp_all add: set_finished_def)

lemma SetAsStopping_cases:
  "SetAsStopping c = (c', b) \<Longrightarrow> stopping c' \<and> b = (\<not> stopping c) \<and> stopTimeoutChan c' = stopTimeoutChan c \<and>
     stopWatchers c' = stopWatchers c"
  by (auto simp: SetAsStopping_def split: if_splits)

lemma WaitRegistered_cases:
  "WaitOnStopTimeout t r c = WaitRegistered c' \<Longrightarrow>
     stopping c \<and> stopping c' \<and> (\<exists>buf. stopTimeoutChan c = OpenChan buf \<and> length buf < 10 \<and>
       stopTimeoutChan c' = OpenChan (buf @ [t])) \<and> stopWatchers c' = stopWatchers c @ [r]"
  by (auto simp: WaitOnStopTimeout_def split: if_splits timeout_chan.splits)

lemma WaitOther_cases:
  "WaitOnStopTimeout t r c = WaitPanic \<Longrightarrow> stopTimeoutChan c = ClosedChan"
  "WaitOnStopTimeout t r c = WaitNotStopping \<longleftrightarrow> \<not> stopping c"
  "WaitOnStopTimeout t r c = WaitBlocked \<Longrightarrow>
     stopTimeoutChan c = NilChan \<or> (\<exists>buf. stopTimeoutChan c = OpenChan buf \<and> 10 \<le> length buf)"
  by (auto simp: WaitOnStopTimeout_def split: if_splits timeout_chan.splits)

lemma SetAsDoneStopping_cases:
  "SetAsDoneStopping c = Ok (c', ws) \<Longrightarrow>
     stopTimeoutChan c' = ClosedChan \<and> ws = stopWatchers c \<and> stopWatchers c' = [] \<and> stopping c' = stopping c"
  by (auto simp: SetAsDoneStopping_def split: timeout_chan.splits)


lemma req_ok_mono:
  assumes "req_ok pc stp ws lk r q" and "pc' = LEnded \<longleftrightarrow> pc = LEnded" and "stp \<Longrightarrow> stp'" and "ws \<subseteq> ws'"
    and "lk' = Some r \<longleftrightarrow> lk = Some r"
  shows "req_ok pc' stp' ws' lk' r q"
  using assms by (cases q) auto

lemma inv_reqs_same:
  assumes "inv_reqs s" and "lp s' = LEnded \<longleftrightarrow> lp s = LEnded" and "stopping (ctr s) \<Longrightarrow> stopping (ctr s')"
    and "set (stopWatchers (ctr s)) \<subseteq> set (stopWatchers (ctr s'))" and "lock s' = lock s" and "reqs s' = reqs s"
  shows "inv_reqs s'"
  unfolding inv_reqs_def
proof
  fix x
  show "req_ok (lp s') (stopping (ctr s')) (set (stopWatchers (ctr s'))) (lock s') x (reqs s' x)"
    using assms(1) [unfolded inv_reqs_def, rule_format, of x] assms(2-6) by (auto intro: req_ok_mono)
qed

lemma inv_reqs_upd:
  assumes "inv_reqs s" and "lp s' = LEnded \<longleftrightarrow> lp s = LEnded" and "stopping (ctr s) \<Longrightarrow> stopping (ctr s')"
    and "set (stopWatchers (ctr s)) \<subseteq> set (stopWatchers (ctr s'))"
    and "\<And>x. x \<noteq> r \<Longrightarrow> lock s' = Some x \<longleftrightarrow> lock s = Some x" and "reqs s' = (reqs s)(r := q)"
    and "req_ok (lp s') (stopping (ctr s')) (set (stopWatchers (ctr s'))) (lock s') r q"
  shows "inv_reqs s'"
  unfolding inv_reqs_def
proof
  fix x
  show "req_ok (lp s') (stopping (ctr s')) (set (stopWatchers (ctr s'))) (lock s') x (reqs s' x)"
    using assms(1) [unfolded inv_reqs_def, rule_format, of x] assms(2-7)
    by (cases "x = r") (auto intro: req_ok_mono)
qed

lemma inv_loop_step: "loop_step s s' \<Longrightarrow> inv_loop s \<Longrightarrow> inv_loop s'"
  by (induction rule: loop_step.induct) (auto simp: inv_loop_def dest: SetAsDoneStopping_cases)

lemma inv_time_loop: "loop_step s s' \<Longrightarrow> inv_time s \<Longrightarrow> inv_time s'"
proof (induction rule: loop_step.induct)
  case (loop_timeout s t buf)
  then have "target s = Min (set (deadlines s))" "deadlines s \<noteq> []" "kill_log s = []"
    by (simp_all add: inv_time_def)
  moreover have "Min (insert d (set (deadlines s))) = (if d < Min (set (deadlines s)) then d else Min (set (deadlines s)))"
    if "deadlines s \<noteq> []" for d
    using that by (subst Min_insert) (auto simp only: min_def set_empty finite_set split: if_splits)
  ultimately show ?case
    using loop_timeout by (simp add: inv_time_def del: Min_insert Min_gr_iff)
qed (auto simp: inv_time_def)

lemma inv_reqs_loop: "loop_step s s' \<Longrightarrow> inv_loop s \<Longrightarrow> inv_reqs s \<Longrightarrow> inv_reqs s'"
proof (induction rule: loop_step.induct)
  case (loop_finish s c ws)
  note d = SetAsDoneStopping_cases [OF loop_finish(3)]
  have "req_ok LEnded (stopping c) (set (stopWatchers c)) (lock s) r
      (if r \<in> set ws \<and> reqs s r = ReqWaiting then ReqReturned else reqs s r)" for r
    using loop_finish(1,2,5) d [THEN conjunct2]
    by (cases "reqs s r") (force simp: inv_reqs_def dest: spec [of _ r])+
  then show ?case by (simp add: inv_reqs_def)
qed (erule inv_reqs_same; auto)+

lemma req_step_frame:
  "req_step s s' \<Longrightarrow> kill_log s' = kill_log s \<and> deadlines s' = deadlines s \<and> target s' = target s \<and>
     now s' = now s \<and> alive s' = alive s \<and> interrupted s' = interrupted s \<and>
     (if stopping (ctr s) \<or> \<not> stopping (ctr s') then lp s' = lp s \<and> spawns s' = spawns s \<and> stopping (ctr s') = stopping (ctr s)
      else lp s' = LSpawned \<and> spawns s' = Suc (spawns s)) \<and>
     (stopTimeoutChan (ctr s') = stopTimeoutChan (ctr s) \<or>
      (\<exists>buf t. stopTimeoutChan (ctr s) = OpenChan buf \<and> length buf < 10 \<and> stopTimeoutChan (ctr s') = OpenChan (buf @ [t])))"
proof (induction rule: req_step.induct)
  case (req_mark s r t c first)
  then show ?case using SetAsStopping_cases [OF req_mark(3)] by simp
next
  case (req_register s r t c)
  then show ?case using WaitRegistered_cases [OF req_register(3)] by auto
next
  case (req_unblock s r t c)
  then show ?case using WaitRegistered_cases [OF req_unblock(2)] by auto
qed simp_all

lemma inv_loop_req: "req_step s s' \<Longrightarrow> inv_loop s \<Longrightarrow> inv_loop s'"
  using req_step_frame [of s s'] unfolding inv_loop_def by (cases "stopping (ctr s)") (auto split: if_splits)

lemma inv_time_req: "req_step s s' \<Longrightarrow> inv_loop s \<Longrightarrow> inv_time s \<Longrightarrow> inv_time s'"
  using req_step_frame [of s s'] unfolding inv_loop_def inv_time_def
  by (cases "stopping (ctr s)") (simp_all split: if_splits)

lemma inv_reqs_req: "req_step s s' \<Longrightarrow> inv_loop s \<Longrightarrow> inv_reqs s \<Longrightarrow> inv_reqs s'"
proof (induction rule: req_step.induct)
  case (req_mark s r t c first)
  then show ?case
    using SetAsStopping_cases [OF req_mark(3)]
    by (intro inv_reqs_upd [OF req_mark(5), where r = r and q = "ReqMarked t"]) (auto simp: inv_loop_def)
next
  case (req_register s r t c)
  then show ?case
    using WaitRegistered_cases [OF req_register(3)]
    by (intro inv_reqs_upd [OF req_register(5), where r = r and q = ReqWaiting]) (auto simp: inv_loop_def)
next
  case (req_unblock s r t c)
  have "lock s = Some r"
    using req_unblock(1,4) by (metis inv_reqs_def req_ok.simps(4))
  then show ?case
    using WaitRegistered_cases [OF req_unblock(2)] req_unblock(3)
    by (intro inv_reqs_upd [OF req_unblock(4), where r = r and q = ReqWaiting]) (auto simp: inv_loop_def)
next
  case (req_panic s r t)
  then show ?case
    using WaitOther_cases(1) [OF req_panic(3)]
    by (intro inv_reqs_upd [OF req_panic(5), where r = r and q = ReqPanicked]) (auto simp: inv_loop_def)
next
  case (req_block s r t)
  have "stopping (ctr s)"
    using req_block(1,5) by (metis inv_reqs_def req_ok.simps(3))
  then show ?case
    using WaitOther_cases(3) [OF req_block(3)] req_block
    by (intro inv_reqs_upd [OF req_block(5), where r = r and q = "ReqBlocked t"]) (auto simp: inv_loop_def)
next
  case (req_living s r t)
  have "lock s \<noteq> Some r"
    using req_living(1,4) by (metis inv_reqs_def req_ok.simps(5))
  then show ?case
    by (intro inv_reqs_upd [OF req_living(4), where r = r and q = "ReqLiving t"]) auto
next
  case (req_dead s r)
  have "lock s \<noteq> Some r"
    using req_dead(1,4) by (metis inv_reqs_def req_ok.simps(5))
  then show ?case
    by (intro inv_reqs_upd [OF req_dead(4), where r = r and q = ReqReturned]) auto
next
  case (req_not_stopping s r t)
  then show ?case
    by (intro inv_reqs_upd [OF req_not_stopping(5), where r = r and q = ReqReturned]) auto
next
  case (req_cancelled s r)
  have "lock s \<noteq> Some r"
    using req_cancelled(1,3) by (metis inv_reqs_def req_ok.simps(1))
  then show ?case
    by (intro inv_reqs_upd [OF req_cancelled(3), where r = r and q = ReqReturned]) auto
qed

lemma inv_env: "env_step s s' \<Longrightarrow> stop_inv s \<Longrightarrow> stop_inv s'"
proof (induction rule: env_step.induct)
  case (env_dies s)
  moreover have "inv_loop s \<Longrightarrow> inv_loop (s\<lparr>alive := False\<rparr>)" "inv_time (s\<lparr>alive := False\<rparr>) = inv_time s"
    by (simp_all add: inv_loop_def inv_time_def)
  ultimately show ?case by (simp add: stop_inv_def inv_reqs_def)
next
  case (env_tick s t)
  moreover have "inv_loop s \<Longrightarrow> inv_loop (s\<lparr>now := t\<rparr>)" by (simp add: inv_loop_def)
  moreover have "inv_time s \<Longrightarrow> inv_time (s\<lparr>now := t\<rparr>)"
    using env_tick(1) by (auto simp: inv_time_def)
  ultimately show ?case by (simp add: stop_inv_def inv_reqs_def)
qed

lemma stop_step_inv: "stop_step s s' \<Longrightarrow> stop_inv s \<Longrightarrow> stop_inv s'"
  unfolding stop_step_def
  using inv_env inv_loop_step inv_time_loop inv_reqs_loop inv_loop_req inv_time_req inv_reqs_req
  by (metis stop_inv_def)

lemma stop_reach_inv: "stop_reach s s' \<Longrightarrow> stop_inv s \<Longrightarrow> stop_inv s'"
  by (induction rule: stop_reach.induct) (auto intro: stop_step_inv)

section \<open>Runs\<close>

lemmas stop_steps = req_step.intros loop_step.intros env_step.intros

definition fresh_container :: "Container \<Rightarrow> bool" where
  "fresh_container c \<longleftrightarrow> \<not> stopping c \<and> stopTimeoutChan c = OpenChan [] \<and> stopWatchers c = []"

lemma NewContainer_fresh:
  "fresh_container (NewContainer i n b l la ca an ui sn im rd md sb te si so rh d cr sg)"
  by (simp add: fresh_container_def NewContainer_def Let_def zero_Container_def)

lemma fresh_reach_inv: "fresh_container c \<Longrightarrow> stop_reach (stop_init c) s \<Longrightarrow> stop_inv s"
  using stop_reach_inv stop_inv_init unfolding fresh_container_def by blast

text \<open>One request goes from its start to waiting, when the container is already being
  stopped and the channel has room.\<close>

lemma request_registers:
  assumes "alive s" "lock s = None" "reqs s r = ReqIdle" "stopping (ctr s)"
    "stopTimeoutChan (ctr s) = OpenChan buf" "length buf < 10"
  shows "stop_reach s (s\<lparr>ctr := (ctr s)\<lparr>stopTimeoutChan := OpenChan (buf @ [t]), stopWatchers := stopWatchers (ctr s) @ [r]\<rparr>,
    reqs := (reqs s)(r := ReqWaiting)\<rparr>)"
proof -
  let ?s1 = "s\<lparr>reqs := (reqs s)(r := ReqLiving t)\<rparr>"
  let ?s2 = "?s1\<lparr>reqs := (reqs ?s1)(r := ReqMarked t)\<rparr>"
  let ?c = "(ctr s)\<lparr>stopTimeoutChan := OpenChan (buf @ [t]), stopWatchers := stopWatchers (ctr s) @ [r]\<rparr>"
  have 1: "req_step s ?s1" by (rule req_living [OF assms(3,1)])
  have 2: "req_step ?s1 ?s2"
    using req_mark [of ?s1 r t "ctr s" False] assms(2,4) by (simp add: SetAsStopping_def)
  have 3: "req_step ?s2 (?s2\<lparr>ctr := ?c, reqs := (reqs ?s2)(r := ReqWaiting)\<rparr>)"
    using assms by (intro req_register [where t = t]) (simp_all add: WaitOnStopTimeout_def)
  show ?thesis
    using stop_trans [OF stop_trans [OF stop_reach_step], of s ?s1 ?s2] 1 2 3
    by (simp add: stop_step_def)
qed

text \<open>While the loop kills, nothing reads the channel: requests fill it up.\<close>

lemma requests_fill_channel:
  assumes "alive s" "lock s = None" "\<forall>r \<ge> b. reqs s r = ReqIdle" "stopping (ctr s)"
    "stopTimeoutChan (ctr s) = OpenChan []" "n \<le> 10"
  shows "\<exists>s' buf. stop_reach s s' \<and> alive s' \<and> lock s' = None \<and> (\<forall>r \<ge> b + n. reqs s' r = ReqIdle) \<and>
    stopping (ctr s') \<and> lp s' = lp s \<and> interrupted s' = interrupted s \<and>
    stopTimeoutChan (ctr s') = OpenChan buf \<and> length buf = n"
  using assms
proof (induction n)
  case 0
  then show ?case by (intro exI [of _ s]) (auto intro: stop_refl)
next
  case (Suc n)
  then obtain s' buf where s': "stop_reach s s'" "alive s'" "lock s' = None" "\<forall>r \<ge> b + n. reqs s' r = ReqIdle"
      "stopping (ctr s')" "lp s' = lp s" "interrupted s' = interrupted s"
      "stopTimeoutChan (ctr s') = OpenChan buf" "length buf = n"
    by auto
  have "stop_reach s' (s'\<lparr>ctr := (ctr s')\<lparr>stopTimeoutChan := OpenChan (buf @ [0]),
      stopWatchers := stopWatchers (ctr s') @ [b + n]\<rparr>, reqs := (reqs s')(b + n := ReqWaiting)\<rparr>)"
    using s' Suc.prems(6) by (intro request_registers) auto
  from stop_reach_trans [OF this s'(1)] s' show ?case
    by (intro exI [of _ "s'\<lparr>ctr := _, reqs := _\<rparr>"] exI [of _ "buf @ [0]"]) auto
qed

text \<open>A request blocked in the send after the loop has stopped reading stays blocked.\<close>

definition wedged :: "nat \<Rightarrow> stop_sys \<Rightarrow> bool" where
  "wedged r s \<longleftrightarrow> lp s = LDeferred \<and> lock s = Some r \<and> (\<exists>t. reqs s r = ReqBlocked t) \<and>
     (\<exists>buf. stopTimeoutChan (ctr s) = OpenChan buf \<and> 10 \<le> length buf)"

lemma wedged_step:
  assumes "wedged r s" and "stop_step s s'"
  shows "wedged r s'"
proof -
  have full: "WaitOnStopTimeout t x (ctr s) \<noteq> WaitRegistered c" for t x c
    using assms(1) by (auto simp: wedged_def WaitOnStopTimeout_def)
  from assms(2) show ?thesis unfolding stop_step_def
  proof (elim disjE)
    assume "req_step s s'"
    then show ?thesis
    proof cases
      case (req_dead x)
      moreover from this have "x \<noteq> r" using assms(1) by (auto simp: wedged_def)
      ultimately show ?thesis using assms(1) by (simp add: wedged_def)
    next
      case (req_living x t)
      moreover from this have "x \<noteq> r" using assms(1) by (auto simp: wedged_def)
      ultimately show ?thesis using assms(1) by (simp add: wedged_def)
    next
      case (req_cancelled x)
      moreover from this have "x \<noteq> r" using assms(1) by (auto simp: wedged_def)
      ultimately show ?thesis using assms(1) by (simp add: wedged_def)
    qed (use assms(1) full in \<open>simp_all add: wedged_def\<close>)
  next
    assume "loop_step s s'"
    then show ?thesis using assms(1) by cases (simp_all add: wedged_def)
  next
    assume "env_step s s'"
    then show ?thesis using assms(1) by cases (simp_all add: wedged_def)
  qed
qed

lemma wedged_forever: "stop_reach s s' \<Longrightarrow> wedged r s \<Longrightarrow> wedged r s'"
  by (induction rule: stop_reach.induct) (auto intro: wedged_step)

lemma stop_protocol_safe_aux:
  assumes "fresh_container c" and "stop_reach (stop_init c) s"
  shows "lp s = LEnded \<Longrightarrow> reqs s r \<noteq> ReqWaiting"
  using fresh_reach_inv [OF assms] unfolding stop_inv_def inv_reqs_def by (metis req_ok.simps(1))

lemma to_deferred:
  assumes "\<not> alive s" and "lock s = None" and "lp s \<noteq> LIdle" and "lp s \<noteq> LEnded"
  shows "\<exists>s'. stop_reach s s' \<and> lp s' = LDeferred \<and> lock s' = None"
proof (cases "lp s")
  case LSpawned
  then show ?thesis
    using reach_loop [OF stop_refl loop_start_dead [OF LSpawned assms(1)]] assms(2)
    by (intro exI [of _ "s\<lparr>lp := LDeferred, ctr := set_finished (now s) (ctr s)\<rparr>"]) simp
next
  case LSelect
  then show ?thesis
    using reach_loop [OF stop_refl loop_done [OF LSelect assms(1)]] assms(2)
    by (intro exI [of _ "s\<lparr>lp := LDeferred\<rparr>"]) simp
next
  case LKilling
  then show ?thesis
    using reach_loop [OF stop_refl loop_kill [OF LKilling]] assms(1,2)
    by (intro exI [of _ "s\<lparr>kill_log := now s # kill_log s, lp := LDeferred\<rparr>"]) simp
qed (use assms stop_refl in auto)

section \<open>Properties\<close>

text \<open>C2: Whatever the interleaving of stop requests, the loop, the process and the clock: at most
  one stop loop is ever started; the container is never sent KILL before the earliest of
  the deadlines the loop has received; when the loop has ended no request is left waiting
  for it, and unless it was interrupted the process is gone.\<close>

theorem stop_protocol_safe:
  assumes "fresh_container c" and "stop_reach (stop_init c) s"
  shows "spawns s \<le> 1 \<and> (\<forall>k \<in> set (kill_log s). deadlines s \<noteq> [] \<and> Min (set (deadlines s)) \<le> k) \<and>
    (lp s = LEnded \<longrightarrow> (\<forall>r. reqs s r \<noteq> ReqWaiting) \<and> (interrupted s \<or> \<not> alive s))"
proof -
  note inv = fresh_reach_inv [OF assms]
  have "spawns s \<le> 1" using inv by (simp add: stop_inv_def inv_loop_def)
  moreover have "\<forall>k \<in> set (kill_log s). deadlines s \<noteq> [] \<and> Min (set (deadlines s)) \<le> k"
    using inv unfolding stop_inv_def inv_time_def by (metis list.set_cases list.discI)
  moreover have "lp s = LEnded \<Longrightarrow> reqs s r \<noteq> ReqWaiting" for r
    using inv unfolding stop_inv_def inv_reqs_def by (metis req_ok.simps(1))
  ultimately show ?thesis
    using inv by (simp add: stop_inv_def inv_loop_def)
qed

text \<open>A run in which one request stops the container and a second one is overtaken.\<close>

lemma stop_run_overtaken:
  assumes "fresh_container c"
  shows "\<exists>s. stop_reach (stop_init c) s \<and> lp s = LEnded \<and> \<not> interrupted s \<and> \<not> alive s \<and> lock s = None \<and>
    stopping (ctr s) \<and> stopTimeoutChan (ctr s) = ClosedChan \<and> reqs s 0 = ReqReturned \<and> reqs s 1 = ReqLiving 5"
proof -
  note c = assms [unfolded fresh_container_def]
  let ?s0 = "stop_init c"
  let ?s1 = "?s0\<lparr>reqs := (reqs ?s0)(0 := ReqLiving 30)\<rparr>"
  let ?c2 = "c\<lparr>stopping := True\<rparr>"
  let ?s2 = "?s1\<lparr>ctr := ?c2, reqs := (reqs ?s1)(0 := ReqMarked 30), lp := LSpawned, spawns := 1\<rparr>"
  let ?c3 = "?c2\<lparr>stopTimeoutChan := OpenChan [30], stopWatchers := [0]\<rparr>"
  let ?s3 = "?s2\<lparr>ctr := ?c3, reqs := (reqs ?s2)(0 := ReqWaiting)\<rparr>"
  let ?s4 = "?s3\<lparr>reqs := (reqs ?s3)(1 := ReqLiving 5)\<rparr>"
  let ?s5 = "?s4\<lparr>alive := False\<rparr>"
  let ?s6 = "?s5\<lparr>lp := LDeferred, ctr := set_finished 0 ?c3\<rparr>"
  let ?c7 = "(set_finished 0 (set_finished 0 ?c3))\<lparr>stopWatchers := [], stopTimeoutChan := ClosedChan\<rparr>"
  let ?s7 = "?s6\<lparr>ctr := ?c7, lp := LEnded,
    reqs := (\<lambda>r. if r \<in> {0} \<and> reqs ?s6 r = ReqWaiting then ReqReturned else reqs ?s6 r)\<rparr>"
  have i: "reqs ?s0 = (\<lambda>_. ReqIdle)" "alive ?s0" "lock ?s0 = None" "ctr ?s0 = c" "spawns ?s0 = 0" "now ?s0 = 0"
    by (simp_all add: stop_init_def)
  have r1: "req_step ?s0 ?s1" by (rule req_living) (simp_all add: i)
  have r2: "req_step ?s1 ?s2"
    using req_mark [of ?s1 0 30 ?c2 True] c by (simp add: i SetAsStopping_def)
  have r3: "req_step ?s2 ?s3"
    using req_register [of ?s2 0 30 ?c3] c by (simp add: i WaitOnStopTimeout_def)
  have r4: "req_step ?s3 ?s4" by (rule req_living) (simp_all add: i)
  have e5: "env_step ?s4 ?s5" by (rule env_dies)
  have l6: "loop_step ?s5 ?s6" using loop_start_dead [of ?s5] by (simp add: i)
  have l7: "loop_step ?s6 ?s7"
    using loop_finish [of ?s6 ?c7 "[0]"] by (simp add: i SetAsDoneStopping_def set_finished_def)
  have "stop_reach ?s0 ?s7"
    by (rule reach_loop [OF reach_loop [OF reach_env [OF reach_req [OF reach_req [OF reach_req [OF reach_req
          [OF stop_refl r1] r2] r3] r4] e5] l6] l7])
  then show ?thesis
    by (intro exI [of _ ?s7]) (simp add: i stop_init_def)
qed

text \<open>C24: A stop request can panic. For every new container there is an interleaving, without any
  interrupt, in which a request finds the process alive, the process then ends and the loop
  of another request finishes, and the request sends its timeout on the closed channel.\<close>

theorem stop_request_can_panic:
  assumes "fresh_container c"
  shows "\<exists>s. stop_reach (stop_init c) s \<and> \<not> interrupted s \<and> reqs s 1 = ReqPanicked"
proof -
  obtain s where s: "stop_reach (stop_init c) s" "\<not> interrupted s" "lock s = None" "stopping (ctr s)"
      "stopTimeoutChan (ctr s) = ClosedChan" "reqs s 1 = ReqLiving 5"
    using stop_run_overtaken [OF assms] by blast
  let ?s1 = "s\<lparr>reqs := (reqs s)(1 := ReqMarked 5)\<rparr>"
  have r1: "req_step s ?s1"
    using req_mark [of s 1 5 "ctr s" False] s by (simp add: SetAsStopping_def)
  have r2: "req_step ?s1 (?s1\<lparr>reqs := (reqs ?s1)(1 := ReqPanicked)\<rparr>)"
    using s by (intro req_panic [where t = 5]) (simp_all add: WaitOnStopTimeout_def)
  show ?thesis
    by (rule exI [of _ "?s1\<lparr>reqs := (reqs ?s1)(1 := ReqPanicked)\<rparr>"], intro conjI,
        rule reach_req [OF reach_req [OF s(1) r1] r2]) (use s(2) in simp_all)
qed

definition sample_container :: Container where
  "sample_container = NewContainer ''id1'' ''web'' ''/run/b'' ''/log'' Map.empty Map.empty Map.empty ''img''
     None (Some ''img1'') '''' None ''pod1'' False False False ''runc'' ''/var/d'' 1 ''''"

lemma sample_container_fresh: "fresh_container sample_container"
  by (simp add: sample_container_def NewContainer_fresh)

theorem stop_protocol_safe_witness:
  "\<exists>s. stop_reach (stop_init sample_container) s \<and> lp s = LEnded \<and> spawns s \<le> 1 \<and> (\<forall>r. reqs s r \<noteq> ReqWaiting)"
proof -
  obtain s where "stop_reach (stop_init sample_container) s" "lp s = LEnded"
    using stop_run_overtaken [OF sample_container_fresh] by blast
  then show ?thesis
    using stop_protocol_safe [OF sample_container_fresh, of s] by blast
qed

theorem stop_request_can_panic_witness:
  "\<exists>s. stop_reach (stop_init sample_container) s \<and> \<not> interrupted s \<and> reqs s 1 = ReqPanicked"
  by (rule stop_request_can_panic [OF sample_container_fresh])

text \<open>A run in which the deadline of the only request expires and the loop is killing.\<close>

lemma stop_run_killing:
  assumes "fresh_container c"
  shows "\<exists>s. stop_reach (stop_init c) s \<and> lp s = LKilling \<and> alive s \<and> lock s = None \<and> \<not> interrupted s \<and>
    stopping (ctr s) \<and> stopTimeoutChan (ctr s) = OpenChan [] \<and> (\<forall>r \<ge> 1. reqs s r = ReqIdle)"
proof -
  note c = assms [unfolded fresh_container_def]
  let ?y = "365 * 86400 * 1000000000 :: int"
  let ?s0 = "stop_init c"
  let ?s1 = "?s0\<lparr>reqs := (reqs ?s0)(0 := ReqLiving 30)\<rparr>"
  let ?c2 = "c\<lparr>stopping := True\<rparr>"
  let ?s2 = "?s1\<lparr>ctr := ?c2, reqs := (reqs ?s1)(0 := ReqMarked 30), lp := LSpawned, spawns := 1\<rparr>"
  let ?s3 = "?s2\<lparr>lp := LSelect, target := ?y, deadlines := [?y]\<rparr>"
  let ?s4 = "?s3\<lparr>now := ?y\<rparr>"
  let ?s5 = "?s4\<lparr>lp := LKilling\<rparr>"
  have i: "reqs ?s0 = (\<lambda>_. ReqIdle)" "alive ?s0" "lock ?s0 = None" "ctr ?s0 = c" "spawns ?s0 = 0" "now ?s0 = 0"
    by (simp_all add: stop_init_def)
  have r1: "req_step ?s0 ?s1" by (rule req_living) (simp_all add: i)
  have r2: "req_step ?s1 ?s2"
    using req_mark [of ?s1 0 30 ?c2 True] c by (simp add: i SetAsStopping_def)
  have l3: "loop_step ?s2 ?s3" using loop_start [of ?s2 ?y] by (simp add: i)
  have e4: "env_step ?s3 ?s4" by (rule env_tick) (simp add: i)
  have l5: "loop_step ?s4 ?s5" by (rule loop_expired) simp_all
  have "stop_reach ?s0 ?s5"
    by (rule reach_loop [OF reach_env [OF reach_loop [OF reach_req [OF reach_req [OF stop_refl r1] r2] l3] e4] l5])
  then show ?thesis
    using c by (intro exI [of _ ?s5]) (simp add: i stop_init_def)
qed

text \<open>C25: Stop requests can wedge a container for good. The loop does not read the timeouts while
  it kills; for every new container there is a run in which ten requests have filled the
  channel and one more blocks in its send with the lock held, and then, even when the
  process has ended, the loop never finishes: in every continuation the request is still
  blocked and the loop still waits for the lock.\<close>

theorem stop_requests_can_wedge:
  assumes "fresh_container c"
  shows "\<exists>s r. stop_reach (stop_init c) s \<and> \<not> alive s \<and> \<not> interrupted s \<and>
    (\<forall>s'. stop_reach s s' \<longrightarrow> lp s' = LDeferred \<and> lock s' = Some r \<and> (\<exists>t. reqs s' r = ReqBlocked t))"
proof -
  obtain s where s: "stop_reach (stop_init c) s" "lp s = LKilling" "alive s" "lock s = None" "\<not> interrupted s"
      "stopping (ctr s)" "stopTimeoutChan (ctr s) = OpenChan []" "\<forall>r \<ge> 1. reqs s r = ReqIdle"
    using stop_run_killing [OF assms] by blast
  obtain s1 buf where s1: "stop_reach s s1" "alive s1" "lock s1 = None" "\<forall>r \<ge> 11. reqs s1 r = ReqIdle"
      "stopping (ctr s1)" "lp s1 = LKilling" "\<not> interrupted s1"
      "stopTimeoutChan (ctr s1) = OpenChan buf" "length buf = 10"
    using requests_fill_channel [of s 1 10] s by auto
  let ?s2 = "s1\<lparr>reqs := (reqs s1)(11 := ReqLiving 5)\<rparr>"
  let ?s3 = "?s2\<lparr>reqs := (reqs ?s2)(11 := ReqMarked 5)\<rparr>"
  let ?s4 = "?s3\<lparr>reqs := (reqs ?s3)(11 := ReqBlocked 5), lock := Some 11\<rparr>"
  let ?s5 = "?s4\<lparr>alive := False\<rparr>"
  let ?s6 = "?s5\<lparr>kill_log := now ?s5 # kill_log ?s5, lp := LDeferred\<rparr>"
  have r2: "req_step s1 ?s2" using s1 by (intro req_living) simp_all
  have r3: "req_step ?s2 ?s3"
    using req_mark [of ?s2 11 5 "ctr s1" False] s1(3,5) by (simp add: SetAsStopping_def)
  have r4: "req_step ?s3 ?s4"
    using s1 by (intro req_block [where t = 5]) (simp_all add: WaitOnStopTimeout_def)
  have e5: "env_step ?s4 ?s5" by (rule env_dies)
  have l6: "loop_step ?s5 ?s6" using loop_kill [of ?s5] s1 by simp
  have reach: "stop_reach (stop_init c) ?s6"
    by (rule reach_loop [OF reach_env [OF reach_req [OF reach_req [OF reach_req
        [OF stop_reach_trans [OF s1(1) s(1)] r2] r3] r4] e5] l6])
  have "wedged 11 ?s6" using s1 by (simp add: wedged_def)
  then have "\<forall>s'. stop_reach ?s6 s' \<longrightarrow> lp s' = LDeferred \<and> lock s' = Some 11 \<and> (\<exists>t. reqs s' 11 = ReqBlocked t)"
    using wedged_forever [of ?s6 _ 11] unfolding wedged_def by blast
  then show ?thesis
    using reach s1(7) by (intro exI [of _ ?s6] exI [of _ 11]) simp
qed

theorem stop_requests_can_wedge_witness:
  "\<exists>s r. stop_reach (stop_init sample_container) s \<and> \<not> alive s \<and> lp s = LDeferred \<and> lock s = Some r"
  using stop_requests_can_wedge [OF sample_container_fresh] stop_refl by blast



text \<open>C23: A timeout the loop receives moves its deadline to that many seconds from now when this is
  earlier, and never later, for timeouts up to 9223372036 seconds; from 9223372037 seconds
  on (and below twice that) the duration wraps around and the deadline is already past, so
  the container may be killed at once.\<close>

theorem stop_timeout_received:
  assumes "lp s = LSelect" and "stopTimeoutChan (ctr s) = OpenChan (t # buf)"
  shows "\<exists>s'. loop_step s s' \<and> lp s' = LSelect \<and> stopTimeoutChan (ctr s') = OpenChan buf \<and> now s' = now s \<and>
    (0 \<le> t \<and> t \<le> 9223372036 \<longrightarrow> target s' = min (target s) (now s + t * 1000000000)) \<and>
    (9223372037 \<le> t \<and> t \<le> 18446744073 \<longrightarrow> target s' < now s' \<and> (\<exists>s''. loop_step s' s'' \<and> lp s'' = LKilling))"
proof -
  have exact: "timeout_duration t = t * 1000000000" if "0 \<le> t" "t \<le> 9223372036"
    using that by (simp add: timeout_duration_def to_int64_def)
  have wraps: "timeout_duration t < 0" if "9223372037 \<le> t" "t \<le> 18446744073"
  proof -
    have "(t * 1000000000 + 2 ^ 63) mod 2 ^ 64 = (t * 1000000000 + 2 ^ 63 - 2 ^ 64) mod 2 ^ 64"
      by (simp only: minus_mod_self2)
    also have "\<dots> = t * 1000000000 + 2 ^ 63 - 2 ^ 64"
      using that by (intro mod_pos_pos_trivial) simp_all
    finally show ?thesis using that by (simp add: timeout_duration_def to_int64_def)
  qed
  let ?s' = "s\<lparr>ctr := (ctr s)\<lparr>stopTimeoutChan := OpenChan buf\<rparr>,
    target := (if now s + timeout_duration t < target s then now s + timeout_duration t else target s),
    deadlines := (now s + timeout_duration t) # deadlines s\<rparr>"
  have "loop_step ?s' (?s'\<lparr>lp := LKilling\<rparr>)" if "9223372037 \<le> t" "t \<le> 18446744073"
    using wraps [OF that] assms(1) by (intro loop_expired) auto
  then show ?thesis
    using loop_timeout [OF assms] assms(1) exact wraps
    by (intro exI [of _ ?s']) (auto simp: min_def intro!: exI [of _ "?s'\<lparr>lp := LKilling\<rparr>"])
qed

theorem stop_timeout_received_witness:
  "\<exists>s'. loop_step ((stop_init (sample_container\<lparr>stopTimeoutChan := OpenChan [9999999999]\<rparr>))\<lparr>lp := LSelect\<rparr>) s' \<and>
     target s' < now s'"
  using stop_timeout_received [of "(stop_init (sample_container\<lparr>stopTimeoutChan := OpenChan [9999999999]\<rparr>))\<lparr>lp := LSelect\<rparr>"
      9999999999 "[]"]
  by (auto simp: stop_init_def)

end
