(* ===== verification/Runtime_Oci.thy ===== *)
theory Runtime_Oci
  imports Oci_Container Resource_Store
begin

text \<open>
  The runtime front end (\<^verbatim>\<open>internal/oci/oci.go\<close>): the table of runtime handlers,
  the runtime implementation kept for every container; and of the implementation that runs
  OCI runtimes as commands (\<^verbatim>\<open>internal/oci/runtime_oci.go\<close>) the refresh of a
  container's status, its deletion and the signals sent to it.

  The runtime command is a parameter: its output, or \<open>None\<close> when it fails. So are the
  decoder of its output (which overwrites the fields of the state it is given that the
  output mentions) and what the exit file holds at the moments the code looks at it.
\<close>

section \<open>Runtime handlers\<close>

record RuntimeHandler =
  RuntimePath :: string
  rh_RuntimeType :: string
  rh_PrivilegedWithoutHostDevices :: bool
  PlatformRuntimePaths :: str_map
  rh_AllowedAnnotations :: "string list"
  rh_DefaultAnnotations :: str_map

datatype runtime_impl = ImplVM RuntimeHandler | ImplPod RuntimeHandler string | ImplOCI RuntimeHandler

record Runtime =
  Runtimes :: "string \<rightharpoonup> RuntimeHandler"
  DefaultRuntime :: string
  runtimeImplMap :: "string \<rightharpoonup> runtime_impl"

definition ValidateRuntimeHandler :: "Runtime \<Rightarrow> string \<Rightarrow> string + RuntimeHandler" where
  "ValidateRuntimeHandler r handler =
     (if handler = '''' then Inl ''empty runtime handler''
      else case Runtimes r handler of
             None \<Rightarrow> Inl (''failed to find runtime handler '' @ handler)
           | Some rh \<Rightarrow> if RuntimePath rh = '''' then Inl (''empty runtime path for runtime handler '' @ handler)
                        else Inr rh)"

text \<open>The default handler is nil when the table has no entry of that name.\<close>

definition getRuntimeHandler :: "Runtime \<Rightarrow> string \<Rightarrow> string + RuntimeHandler option" where
  "getRuntimeHandler r handler =
     (if handler \<noteq> '''' then (case ValidateRuntimeHandler r handler of Inl e \<Rightarrow> Inl e | Inr rh \<Rightarrow> Inr (Some rh))
      else Inr (Runtimes r (DefaultRuntime r)))"

text \<open>Reading a field of the handler; through the nil pointer it panics.\<close>

definition handler_field :: "(RuntimeHandler \<Rightarrow> 'a) \<Rightarrow> Runtime \<Rightarrow> string \<Rightarrow> (string, 'a) outcome" where
  "handler_field f r handler =
     (case getRuntimeHandler r handler of
        Inl e \<Rightarrow> Err e | Inr None \<Rightarrow> Panic | Inr (Some rh) \<Rightarrow> Ok (f rh))"

definition PrivilegedWithoutHostDevices :: "Runtime \<Rightarrow> string \<Rightarrow> (string, bool) outcome" where
  "PrivilegedWithoutHostDevices = handler_field rh_PrivilegedWithoutHostDevices"

definition PlatformRuntimePath :: "Runtime \<Rightarrow> string \<Rightarrow> string \<Rightarrow> (string, string) outcome" where
  "PlatformRuntimePath r handler platform =
     handler_field (\<lambda>rh. get_or '''' (PlatformRuntimePaths rh) platform) r handler"

definition AllowedAnnotations :: "Runtime \<Rightarrow> string \<Rightarrow> (string, string list) outcome" where
  "AllowedAnnotations = handler_field rh_AllowedAnnotations"

definition RuntimeType :: "Runtime \<Rightarrow> string \<Rightarrow> (string, string) outcome" where
  "RuntimeType = handler_field rh_RuntimeType"

definition RuntimeDefaultAnnotations :: "Runtime \<Rightarrow> string \<Rightarrow> (string, str_map) outcome" where
  "RuntimeDefaultAnnotations = handler_field rh_DefaultAnnotations"

section \<open>Implementations\<close>

text \<open>A pod's implementation is made with its infra container, which starts a client process
  (parameter \<open>new_pod\<close>, its error); the pod's other containers share it.\<close>

definition newRuntimePod :: "(Container \<Rightarrow> string option) \<Rightarrow> Runtime \<Rightarrow> RuntimeHandler \<Rightarrow> Container \<Rightarrow> (string, runtime_impl) outcome" where
  "newRuntimePod new_pod r rh c =
     (if \<not> IsInfra c
      then (case runtimeImplMap r (Sandbox_of c) of None \<Rightarrow> Panic | Some impl \<Rightarrow> Ok impl)
      else case new_pod c of Some e \<Rightarrow> Err e | None \<Rightarrow> Ok (ImplPod rh (ID c)))"

definition newRuntimeImpl :: "(Container \<Rightarrow> string option) \<Rightarrow> Runtime \<Rightarrow> Container \<Rightarrow> (string, runtime_impl) outcome" where
  "newRuntimeImpl new_pod r c =
     (case getRuntimeHandler r (runtimeHandler c) of
        Inl e \<Rightarrow> Err e
      | Inr None \<Rightarrow> Panic
      | Inr (Some rh) \<Rightarrow>
          if rh_RuntimeType rh = ''vm'' then Ok (ImplVM rh)
          else if rh_RuntimeType rh = ''pod'' then newRuntimePod new_pod r rh c
          else Ok (ImplOCI rh))"

definition RuntimeImpl :: "(Container \<Rightarrow> string option) \<Rightarrow> Container \<Rightarrow> Runtime \<Rightarrow> Runtime \<times> (string, runtime_impl) outcome" where
  "RuntimeImpl new_pod c r =
     (case runtimeImplMap r (ID c) of
        Some impl \<Rightarrow> (r, Ok impl)
      | None \<Rightarrow>
          (case newRuntimeImpl new_pod r c of
             Ok impl \<Rightarrow> (r\<lparr>runtimeImplMap := (runtimeImplMap r)(ID c \<mapsto> impl)\<rparr>, Ok impl)
           | Err e \<Rightarrow> (r, Err e) | Panic \<Rightarrow> (r, Panic)))"

text \<open>The implementations' own methods are the parameters \<open>impl_create\<close> and
  \<open>impl_delete\<close>.\<close>

definition runtime_CreateContainer :: "(Container \<Rightarrow> string option) \<Rightarrow> (runtime_impl \<Rightarrow> Container \<Rightarrow> string option) \<Rightarrow>
    Container \<Rightarrow> Runtime \<Rightarrow> Runtime \<times> (string, unit) outcome" where
  "runtime_CreateContainer new_pod impl_create c r =
     (case newRuntimeImpl new_pod r c of
        Err e \<Rightarrow> (r, Err e) | Panic \<Rightarrow> (r, Panic)
      | Ok impl \<Rightarrow> (r\<lparr>runtimeImplMap := (runtimeImplMap r)(ID c \<mapsto> impl)\<rparr>,
                    case impl_create impl c of None \<Rightarrow> Ok () | Some e \<Rightarrow> Err e))"

definition runtime_DeleteContainer :: "(Container \<Rightarrow> string option) \<Rightarrow> (runtime_impl \<Rightarrow> Container \<Rightarrow> string option) \<Rightarrow>
    Container \<Rightarrow> Runtime \<Rightarrow> Runtime \<times> (string, unit) outcome" where
  "runtime_DeleteContainer new_pod impl_delete c r =
     (case runtimeImplMap r (ID c) of
        None \<Rightarrow>
          (case newRuntimeImpl new_pod r c of
             Err e \<Rightarrow> (r, Err e) | Panic \<Rightarrow> (r, Panic)
           | Ok impl \<Rightarrow> (r, case impl_delete impl c of None \<Rightarrow> Ok () | Some e \<Rightarrow> Err e))
      | Some impl \<Rightarrow>
          (case impl_delete impl c of
             None \<Rightarrow> (r\<lparr>runtimeImplMap := map_delete (ID c) (runtimeImplMap r)\<rparr>, Ok ())
           | Some e \<Rightarrow> (r, Err e)))"

section \<open>The status of a container\<close>

text \<open>What the code finds at the path of the exit file: nothing, or a file whose change time
  and contents may each fail to be read.\<close>

datatype exit_file = NoExitFile | ExitFile "int option" "string option"

definition parse_int32 :: "string \<Rightarrow> int option" where
  "parse_int32 s = (case atoi s of None \<Rightarrow> None | Some i \<Rightarrow> if - (2 ^ 31) \<le> i \<and> i < 2 ^ 31 then Some i else None)"

definition updateContainerStatusFromExitFile :: "exit_file \<Rightarrow> ContainerState \<Rightarrow> ContainerState \<times> string option" where
  "updateContainerStatusFromExitFile f s =
     (case f of
        NoExitFile \<Rightarrow> (s, Some ''failed to find container exit file'')
      | ExitFile None _ \<Rightarrow> (s\<lparr>Finished := 0\<rparr>, Some ''failed to get finished time'')
      | ExitFile (Some t) None \<Rightarrow> (s\<lparr>Finished := t\<rparr>, Some ''failed to read exit file'')
      | ExitFile (Some t) (Some str) \<Rightarrow>
          (case parse_int32 str of
             None \<Rightarrow> (s\<lparr>Finished := t\<rparr>, Some ''status code conversion failed'')
           | Some code \<Rightarrow> (s\<lparr>Finished := t, ExitCode := Some code\<rparr>, None)))"

text \<open>The closure \<^verbatim>\<open>stateCmd\<close>: the state it leaves in the container, the decoded state
  if there is one, and the error. Its second result is the flag \<^verbatim>\<open>canReturn\<close>.\<close>

definition stateCmd :: "(string \<Rightarrow> ContainerState \<Rightarrow> ContainerState option) \<Rightarrow> string option \<Rightarrow> exit_file \<Rightarrow> int \<Rightarrow>
    ContainerState \<Rightarrow> ContainerState \<times> ContainerState option \<times> bool \<times> string option" where
  "stateCmd decode out f t s =
     (case out of
        None \<Rightarrow>
          (let s1 = s\<lparr>Status := ContainerStateStopped\<rparr>
           in case updateContainerStatusFromExitFile f s1 of
                (s2, None) \<Rightarrow> (s2, None, True, None)
              | (s2, Some _) \<Rightarrow> (s2\<lparr>Finished := t, ExitCode := Some 255\<rparr>, None, True, None))
      | Some text \<Rightarrow>
          (case decode text s of
             None \<Rightarrow> (s, None, False, Some ''failed to decode container status'')
           | Some st \<Rightarrow> (s, Some st, False, None)))"

text \<open>What the method observes while it runs.\<close>

record status_env =
  out1 :: "string option"
  out2 :: "string option"
  exit1 :: exit_file
  exit2 :: exit_file
  exit3 :: exit_file
  stats :: "nat \<Rightarrow> bool"
  oom_file :: bool
  time1 :: int
  time2 :: int
  signal_all :: "string option"

definition wait_exit_file :: "(nat \<Rightarrow> bool) \<Rightarrow> bool" where
  "wait_exit_file found =
     (snd (ExponentialBackoff 6 (\<lambda>n. (Suc n, found n, None)) 0) = None)"

definition UpdateContainerStatus :: "(string \<Rightarrow> ContainerState \<Rightarrow> ContainerState option) \<Rightarrow> status_env \<Rightarrow>
    Container \<Rightarrow> Container \<times> (string, unit) outcome" where
  "UpdateContainerStatus decode env c =
     (if spoofed c then (c, Ok ())
      else if ExitCode (c_state c) \<noteq> None \<and> Finished (c_state c) \<noteq> 0 then (c, Ok ())
      else case stateCmd decode (out1 env) (exit1 env) (time1 env) (c_state c) of
        (s1, st, canReturn, err) \<Rightarrow>
          (case err of Some e \<Rightarrow> (c\<lparr>c_state := s1\<rparr>, Err e)
           | None \<Rightarrow>
               if canReturn then (c\<lparr>c_state := s1\<rparr>, Ok ())
               else case st of None \<Rightarrow> (c\<lparr>c_state := s1\<rparr>, Panic)
               | Some state1 \<Rightarrow>
                   if Status state1 \<noteq> ContainerStateStopped then (c\<lparr>c_state := state1\<rparr>, Ok ())
                   else let found = wait_exit_file (stats env)
                        in case stateCmd decode (out2 env) (exit2 env) (time2 env) s1 of
                             (s2, _, _, Some e) \<Rightarrow> (c\<lparr>c_state := s2\<rparr>, Err e)
                           | (s2, None, _, None) \<Rightarrow> (c\<lparr>c_state := s2\<rparr>, Err ''state command returned nil'')
                           | (s2, Some state2, _, None) \<Rightarrow>
                               (let (s3, e3) = (if found then updateContainerStatusFromExitFile (exit3 env) state2 else (state2, None))
                                in case e3 of Some e \<Rightarrow> (c\<lparr>c_state := s3\<rparr>, Err e)
                                   | None \<Rightarrow>
                                       let c' = c\<lparr>c_state := (if oom_file env then s3\<lparr>OOMKilled := True\<rparr> else s3)\<rparr>
                                       in case nodeLevelPIDNamespace c' of
                                            Panic \<Rightarrow> (c', Panic) | Err _ \<Rightarrow> (c', Panic)
                                          | Ok nodeLevel \<Rightarrow>
                                              if nodeLevel then (c', case signal_all env of None \<Rightarrow> Ok () | Some e \<Rightarrow> Err e)
                                              else (c', Ok ()))))"

section \<open>Commands\<close>

text \<open>The arguments the runtime is called with.\<close>

definition signalContainer_args :: "Container \<Rightarrow> int \<Rightarrow> bool \<Rightarrow> string list" where
  "signalContainer_args c sig all_procs =
     [''kill''] @ (if all_procs then [''-a''] else []) @ [ID c, itoa sig]"

definition SignalContainer :: "(int \<Rightarrow> string) \<Rightarrow> (string list \<Rightarrow> oci_error option) \<Rightarrow> Container \<Rightarrow> int \<Rightarrow> oci_error option" where
  "SignalContainer SignalName runtimeCmd c sig =
     (if spoofed c then None
      else if SignalName sig = '''' then Some (ErrOther ''unable to find signal'')
      else runtimeCmd (signalContainer_args c sig False))"

definition PauseContainer :: "(string list \<Rightarrow> oci_error option) \<Rightarrow> Container \<Rightarrow> oci_error option" where
  "PauseContainer runtimeCmd c = (if spoofed c then None else runtimeCmd [''pause'', ID c])"

definition UnpauseContainer :: "(string list \<Rightarrow> oci_error option) \<Rightarrow> Container \<Rightarrow> oci_error option" where
  "UnpauseContainer runtimeCmd c = (if spoofed c then None else runtimeCmd [''resume'', ID c])"

definition DeleteContainer :: "(string list \<Rightarrow> oci_error option) \<Rightarrow> Container \<Rightarrow> oci_error option" where
  "DeleteContainer runtimeCmd c =
     (if spoofed c then None
      else case runtimeCmd [''delete'', ''--force'', ID c] of
             None \<Rightarrow> None
           | Some e \<Rightarrow> if errors_Is e ErrNotFound then None else Some e)"

section \<open>Properties\<close>

text \<open>The finish time and exit code a settled container gets: those of the exit file if both can
  be read, else the current time and 255.\<close>

definition exit_of :: "exit_file \<Rightarrow> int \<Rightarrow> int \<times> int" where
  "exit_of f t =
     (case f of
        ExitFile (Some t') (Some str) \<Rightarrow> (case parse_int32 str of Some i \<Rightarrow> (t', i) | None \<Rightarrow> (t, 255))
      | _ \<Rightarrow> (t, 255))"

lemma stateCmd_failed:
  "stateCmd decode None f t s =
     (s\<lparr>Status := ContainerStateStopped, Finished := fst (exit_of f t), ExitCode := Some (snd (exit_of f t))\<rparr>, None, True, None)"
  by (simp add: stateCmd_def updateContainerStatusFromExitFile_def exit_of_def Let_def split: exit_file.split option.split)

text \<open>C26: A container the runtime no longer knows settles as stopped: the update succeeds, the exit
  code and finish time are those of a readable exit file and otherwise 255 and the current
  time, nothing else of the container changes, and once the finish time is set no later
  update changes the container again, whatever the runtime then says.\<close>

theorem forgotten_container_settles:
  assumes "\<not> spoofed c" and "ExitCode (c_state c) = None \<or> Finished (c_state c) = 0" and "out1 env = None"
  shows "UpdateContainerStatus decode env c =
      (c\<lparr>c_state := (c_state c)\<lparr>Status := ContainerStateStopped, Finished := fst (exit_of (exit1 env) (time1 env)),
         ExitCode := Some (snd (exit_of (exit1 env) (time1 env)))\<rparr>\<rparr>, Ok ()) \<and>
    (fst (exit_of (exit1 env) (time1 env)) \<noteq> 0 \<longrightarrow>
      UpdateContainerStatus decode' env' (fst (UpdateContainerStatus decode env c)) =
        (fst (UpdateContainerStatus decode env c), Ok ()))"
proof -
  have ns: "\<not> (ExitCode (c_state c) \<noteq> None \<and> Finished (c_state c) \<noteq> 0)"
    using assms(2) by auto
  have u: "UpdateContainerStatus decode env c =
      (c\<lparr>c_state := (c_state c)\<lparr>Status := ContainerStateStopped, Finished := fst (exit_of (exit1 env) (time1 env)),
         ExitCode := Some (snd (exit_of (exit1 env) (time1 env)))\<rparr>\<rparr>, Ok ())"
    unfolding UpdateContainerStatus_def assms(3) stateCmd_failed if_not_P [OF assms(1)] if_not_P [OF ns] by simp
  show ?thesis
    unfolding u by (simp add: UpdateContainerStatus_def)
qed

definition sample_env :: status_env where
  "sample_env = \<lparr>out1 = None, out2 = None, exit1 = ExitFile (Some 77) (Some ''137''), exit2 = NoExitFile,
     exit3 = NoExitFile, stats = (\<lambda>_. False), oom_file = False, time1 = 90, time2 = 91, signal_all = None\<rparr>"

theorem forgotten_container_settles_witness:
  "ExitCode (c_state (fst (UpdateContainerStatus (\<lambda>_ s. Some s) sample_env zero_Container))) = Some 137 \<and>
   UpdateContainerStatus (\<lambda>_ _. None) (sample_env\<lparr>out1 := Some ''x''\<rparr>)
     (fst (UpdateContainerStatus (\<lambda>_ s. Some s) sample_env zero_Container)) =
   (fst (UpdateContainerStatus (\<lambda>_ s. Some s) sample_env zero_Container), Ok ())"
proof -
  have "\<not> spoofed zero_Container" "ExitCode (c_state zero_Container) = None \<or> Finished (c_state zero_Container) = 0"
    "out1 sample_env = None"
    by (simp_all add: zero_Container_def zero_ContainerState_def sample_env_def)
  note h = forgotten_container_settles [OF this, of "\<lambda>_ s. Some s" "\<lambda>_ _. None" "sample_env\<lparr>out1 := Some ''x''\<rparr>"]
  have e: "exit_of (exit1 sample_env) (time1 sample_env) = (77, 137)"
    by code_simp
  show ?thesis
    using h [THEN conjunct1] h [THEN conjunct2] unfolding e by simp
qed


definition running_env :: status_env where
  "running_env = sample_env\<lparr>out1 := Some ''stopped'', out2 := Some ''stopped'',
     exit3 := ExitFile (Some 77) (Some ''137''), stats := (\<lambda>k. 3 \<le> k)\<rparr>"

definition sample_decode :: "string \<Rightarrow> ContainerState \<Rightarrow> ContainerState option" where
  "sample_decode text s = Some (s\<lparr>Status := text\<rparr>)"

definition pid_container :: Container where
  "pid_container = zero_Container\<lparr>c_spec := Some \<lparr>sp_Linux = Some \<lparr>lin_Namespaces = [''pid''], lin_Resources = None\<rparr>, sp_Process = None\<rparr>\<rparr>"


lemma RuntimeImpl_known: "runtimeImplMap r (ID c) = Some impl \<Longrightarrow> RuntimeImpl new_pod c r = (r, Ok impl)"
  by (simp add: RuntimeImpl_def)

text \<open>C28: A container keeps one runtime implementation from its creation to its deletion: after
  CreateContainer has chosen one, RuntimeImpl returns that one and leaves the table alone,
  even when creating failed; DeleteContainer removes it exactly when the implementation's
  deletion succeeds, and touches no other container's entry.\<close>

theorem runtime_impl_until_deleted:
  assumes "newRuntimeImpl new_pod r c = Ok impl"
  shows "let r1 = fst (runtime_CreateContainer new_pod impl_create c r);
             (r2, res) = runtime_DeleteContainer new_pod impl_delete c r1
    in RuntimeImpl new_pod' c r1 = (r1, Ok impl) \<and>
       (res = Ok () \<longleftrightarrow> impl_delete impl c = None) \<and>
       runtimeImplMap r2 (ID c) = (if impl_delete impl c = None then None else Some impl) \<and>
       (\<forall>i. i \<noteq> ID c \<longrightarrow> runtimeImplMap r2 i = runtimeImplMap r i)"
  using assms by (auto simp: runtime_CreateContainer_def runtime_DeleteContainer_def RuntimeImpl_known Let_def
      split: option.split)

definition sample_runtime :: Runtime where
  "sample_runtime = \<lparr>Runtimes = [''runc'' \<mapsto> \<lparr>RuntimePath = ''/bin/runc'', rh_RuntimeType = ''oci'',
     rh_PrivilegedWithoutHostDevices = False, PlatformRuntimePaths = Map.empty, rh_AllowedAnnotations = [],
     rh_DefaultAnnotations = Map.empty\<rparr>], DefaultRuntime = ''runc'', runtimeImplMap = Map.empty\<rparr>"

theorem runtime_impl_until_deleted_witness:
  "\<exists>impl. newRuntimeImpl (\<lambda>_. None) sample_runtime zero_Container = Ok impl \<and>
     RuntimeImpl (\<lambda>_. None) zero_Container (fst (runtime_CreateContainer (\<lambda>_. None) (\<lambda>_ _. None) zero_Container sample_runtime)) =
       (fst (runtime_CreateContainer (\<lambda>_. None) (\<lambda>_ _. None) zero_Container sample_runtime), Ok impl)"
proof -
  obtain impl where i: "newRuntimeImpl (\<lambda>_. None) sample_runtime zero_Container = Ok impl"
    by (simp add: newRuntimeImpl_def getRuntimeHandler_def sample_runtime_def zero_Container_def)
  show ?thesis
    using runtime_impl_until_deleted [OF i, of "\<lambda>_ _. None" "\<lambda>_ _. None" "\<lambda>_. None"] i
    by (auto simp: Let_def)
qed

end
