(* ===== verification/Sandbox_State.thy ===== *)
theory Sandbox_State
  imports Oci_Container Memory_Store
begin

text \<open>
  The pod object (\<^verbatim>\<open>internal/lib/sandbox\<close>): \<^verbatim>\<open>sandbox.go\<close>,
  its builder (\<^verbatim>\<open>builder.go\<close>) and its namespaces (\<^verbatim>\<open>namespaces.go\<close>).

  The container runtime records that a pod was stopped in two marker files in the directory
  of the pod's infra container. The file system is the set of existing paths; \<open>fails\<close>
  says for which paths creating a file fails. Dereferencing a nil pointer panics.
\<close>

section \<open>Data\<close>

datatype pod_state = SANDBOX_READY | SANDBOX_NOTREADY

record PodSandboxMetadata =
  pm_Name :: string
  pm_Uid :: string
  pm_Namespace :: string
  pm_Attempt :: nat

record PodSandbox =
  ps_Id :: string
  ps_Metadata :: "PodSandboxMetadata option"
  ps_State :: pod_state
  ps_CreatedAt :: int
  ps_Labels :: str_map
  ps_Annotations :: str_map

datatype nstype = NETNS | IPCNS | UTSNS | USERNS | PIDNS

record Namespace =
  ns_Type :: nstype
  ns_Path :: string

record PortMapping_spec =
  pm_protocol :: string
  pm_containerPort :: int
  pm_hostPort :: int
  pm_hostIP :: string

record Sandbox =
  criSandbox :: "PodSandbox option"
  portMappings :: "PortMapping_spec list"
  sb_namespace :: string
  sb_name :: string
  kubeName :: string
  logDir :: string
  sb_containers :: "Container memoryStore"
  createdAt :: int
  processLabel :: string
  mountLabel :: string
  netns :: "Namespace option"
  ipcns :: "Namespace option"
  utsns :: "Namespace option"
  userns :: "Namespace option"
  shmPath :: string
  cgroupParent :: string
  sb_runtimeHandler :: string
  resolvPath :: string
  hostnamePath :: string
  hostname :: string
  ips :: "string list"
  sb_seccompProfilePath :: string
  infraContainer :: "Container option"
  nsOpts :: "string option"
  dnsConfig :: "string option"
  sb_created :: bool
  stopped :: bool
  networkStopped :: bool
  privileged :: bool
  hostNetwork :: bool
  usernsMode :: string
  containerEnvPath :: string
  podLinuxOverhead :: "LinuxContainerResources option"
  podLinuxResources :: "LinuxContainerResources option"

definition zero_Sandbox :: Sandbox where
  "zero_Sandbox = \<lparr>criSandbox = None, portMappings = [], sb_namespace = '''', sb_name = '''', kubeName = '''',
     logDir = '''', sb_containers = New_store, createdAt = 0, processLabel = '''', mountLabel = '''', netns = None,
     ipcns = None, utsns = None, userns = None, shmPath = '''', cgroupParent = '''', sb_runtimeHandler = '''',
     resolvPath = '''', hostnamePath = '''', hostname = '''', ips = [], sb_seccompProfilePath = '''',
     infraContainer = None, nsOpts = None, dnsConfig = None, sb_created = False, stopped = False,
     networkStopped = False, privileged = False, hostNetwork = False, usernsMode = '''', containerEnvPath = '''',
     podLinuxOverhead = None, podLinuxResources = None\<rparr>"

definition zero_PodSandbox :: PodSandbox where
  "zero_PodSandbox = \<lparr>ps_Id = '''', ps_Metadata = None, ps_State = SANDBOX_READY, ps_CreatedAt = 0,
     ps_Labels = Map.empty, ps_Annotations = Map.empty\<rparr>"

section \<open>Operations of a pod\<close>

definition sb_ID :: "Sandbox \<Rightarrow> string" where
  "sb_ID s = (case criSandbox s of None \<Rightarrow> '''' | Some p \<Rightarrow> ps_Id p)"

definition Ready :: "Sandbox \<Rightarrow> bool" where
  "Ready s =
     (case infraContainer s of
        None \<Rightarrow> False
      | Some c \<Rightarrow> if spoofed c then sb_created s \<and> \<not> stopped s
                  else Status (c_state c) = ContainerStateRunning)"

definition sb_State :: "Sandbox \<Rightarrow> pod_state" where
  "sb_State s = (if Ready s then SANDBOX_READY else SANDBOX_NOTREADY)"

definition CRISandbox :: "Sandbox \<Rightarrow> (unit, Sandbox \<times> PodSandbox) outcome" where
  "CRISandbox s =
     (case criSandbox s of None \<Rightarrow> Panic
      | Some p \<Rightarrow>
          let p' = (if sb_State s \<noteq> ps_State p then p\<lparr>ps_State := sb_State s\<rparr> else p)
          in Ok (s\<lparr>criSandbox := Some p'\<rparr>, p'))"

definition AddIPs :: "string list \<Rightarrow> Sandbox \<Rightarrow> Sandbox" where
  "AddIPs i s = s\<lparr>ips := i\<rparr>"

definition sb_AddContainer :: "Container \<Rightarrow> Sandbox \<Rightarrow> Sandbox" where
  "sb_AddContainer c s = s\<lparr>sb_containers := store_Add (c_name c) c (sb_containers s)\<rparr>"

definition sb_GetContainer :: "string \<Rightarrow> Sandbox \<Rightarrow> Container option" where
  "sb_GetContainer name s = store_Get name (sb_containers s)"

definition sb_RemoveContainer :: "Container \<Rightarrow> Sandbox \<Rightarrow> Sandbox" where
  "sb_RemoveContainer c s = s\<lparr>sb_containers := store_Delete (c_name c) (sb_containers s)\<rparr>"

definition SetInfraContainer :: "Container option \<Rightarrow> Sandbox \<Rightarrow> Sandbox \<times> string option" where
  "SetInfraContainer c s =
     (if infraContainer s \<noteq> None then (s, Some ''sandbox already has an infra container'')
      else if c = None then (s, Some ''must provide non-nil infra container'')
      else (s\<lparr>infraContainer := c\<rparr>, None))"

definition RemoveInfraContainer :: "Sandbox \<Rightarrow> Sandbox" where
  "RemoveInfraContainer s = s\<lparr>infraContainer := None\<rparr>"

definition sb_SetCreated :: "Sandbox \<Rightarrow> Sandbox" where
  "sb_SetCreated s = s\<lparr>sb_created := True\<rparr>"

definition path_join :: "string \<Rightarrow> string \<Rightarrow> string" where
  "path_join d f = d @ ''/'' @ f"

definition sbStoppedFilename :: string where
  "sbStoppedFilename = ''stopped''"

definition sbNetworkStoppedFilename :: string where
  "sbNetworkStoppedFilename = ''network-stopped''"

definition createFileInInfraDir :: "(string \<Rightarrow> bool) \<Rightarrow> string \<Rightarrow> Sandbox \<Rightarrow> string set \<Rightarrow> (string, string set) outcome" where
  "createFileInInfraDir fails filename s fs =
     (if \<not> sb_created s then Ok fs
      else case infraContainer s of
             None \<Rightarrow> Panic
           | Some infra \<Rightarrow>
               if c_dir infra \<notin> fs then Ok fs
               else if fails (path_join (c_dir infra) filename) then Err ''create''
               else Ok (insert (path_join (c_dir infra) filename) fs))"

text \<open>SetStopped only logs a failure to write the marker.\<close>

definition SetStopped :: "(string \<Rightarrow> bool) \<Rightarrow> bool \<Rightarrow> Sandbox \<Rightarrow> string set \<Rightarrow> (string, Sandbox \<times> string set) outcome" where
  "SetStopped fails createFile s fs =
     (if stopped s then Ok (s, fs)
      else let s' = s\<lparr>stopped := True\<rparr>
           in if createFile
              then (case createFileInInfraDir fails sbStoppedFilename s' fs of
                      Ok fs' \<Rightarrow> Ok (s', fs') | Err _ \<Rightarrow> Ok (s', fs) | Panic \<Rightarrow> Panic)
              else Ok (s', fs))"

text \<open>The state changes even when the marker cannot be written, so the error of
  SetNetworkStopped comes with the new state.\<close>

definition SetNetworkStopped :: "(string \<Rightarrow> bool) \<Rightarrow> bool \<Rightarrow> Sandbox \<Rightarrow> string set \<Rightarrow> (unit, Sandbox \<times> string set \<times> string option) outcome" where
  "SetNetworkStopped fails createFile s fs =
     (if networkStopped s then Ok (s, fs, None)
      else let s' = s\<lparr>networkStopped := True\<rparr>
           in if createFile
              then (case createFileInInfraDir fails sbNetworkStoppedFilename s' fs of
                      Ok fs' \<Rightarrow> Ok (s', fs', None)
                    | Err e \<Rightarrow> Ok (s', fs, Some (''failed to create state file in container directory. Restores may fail: '' @ e))
                    | Panic \<Rightarrow> Panic)
              else Ok (s', fs, None))"

definition fileExistsInInfraDir :: "string \<Rightarrow> Sandbox \<Rightarrow> string set \<Rightarrow> (unit, bool) outcome" where
  "fileExistsInInfraDir filename s fs =
     (case infraContainer s of None \<Rightarrow> Panic
      | Some infra \<Rightarrow> Ok (path_join (c_dir infra) filename \<in> fs))"

definition RestoreStopped :: "Sandbox \<Rightarrow> string set \<Rightarrow> (unit, Sandbox) outcome" where
  "RestoreStopped s fs =
     outcome_bind (fileExistsInInfraDir sbStoppedFilename s fs)
       (\<lambda>a. let s1 = (if a then s\<lparr>stopped := True\<rparr> else s)
            in outcome_bind (fileExistsInInfraDir sbNetworkStoppedFilename s1 fs)
                 (\<lambda>b. Ok (if b then s1\<lparr>networkStopped := True\<rparr> else s1)))"

definition SetContainerEnvFile :: "(string \<Rightarrow> bool) \<Rightarrow> Sandbox \<Rightarrow> string set \<Rightarrow> (unit, Sandbox \<times> string set) outcome" where
  "SetContainerEnvFile fails s fs =
     (if containerEnvPath s \<noteq> '''' then Ok (s, fs)
      else case infraContainer s of None \<Rightarrow> Panic
           | Some infra \<Rightarrow>
               let p = path_join (c_dir infra) ''.containerenv''
               in Ok (s\<lparr>containerEnvPath := p\<rparr>, if fails p then fs else insert p fs))"

section \<open>Namespaces of a pod\<close>

fun AddManagedNamespaces :: "Namespace option list \<Rightarrow> Sandbox \<Rightarrow> (unit, Sandbox) outcome" where
  "AddManagedNamespaces [] s = Ok s"
| "AddManagedNamespaces (None # nss) s = AddManagedNamespaces nss s"
| "AddManagedNamespaces (Some ns # nss) s =
     (case ns_Type ns of
        IPCNS \<Rightarrow> AddManagedNamespaces nss (s\<lparr>ipcns := Some ns\<rparr>)
      | UTSNS \<Rightarrow> AddManagedNamespaces nss (s\<lparr>utsns := Some ns\<rparr>)
      | NETNS \<Rightarrow> AddManagedNamespaces nss (s\<lparr>netns := Some ns\<rparr>)
      | USERNS \<Rightarrow> AddManagedNamespaces nss (s\<lparr>userns := Some ns\<rparr>)
      | PIDNS \<Rightarrow> Panic)"

text \<open>The process identifier of the infra container: -1 without one, 0 when it is not
  running. \<open>pid_of\<close> is the method Pid of the container.\<close>

definition infraPid :: "(Container \<Rightarrow> (oci_error, int) outcome) \<Rightarrow> Container option \<Rightarrow> int" where
  "infraPid pid_of infra =
     (case infra of None \<Rightarrow> - 1
      | Some c \<Rightarrow> if spoofed c then - 1 else (case pid_of c of Ok p \<Rightarrow> p | _ \<Rightarrow> 0))"

text \<open>\<open>proc_path\<close> is the path of a process's namespace under /proc, empty if it is gone.\<close>

definition nsPathGivenInfraPid :: "(nstype \<Rightarrow> int \<Rightarrow> string) \<Rightarrow> Namespace option \<Rightarrow> nstype \<Rightarrow> int \<Rightarrow> string" where
  "nsPathGivenInfraPid proc_path ns t p =
     (case ns of None \<Rightarrow> if 0 < p then proc_path t p else '''' | Some n \<Rightarrow> ns_Path n)"

definition NamespacePaths :: "(Container \<Rightarrow> (oci_error, int) outcome) \<Rightarrow> (nstype \<Rightarrow> int \<Rightarrow> string) \<Rightarrow> Sandbox \<Rightarrow> (string \<times> nstype) list" where
  "NamespacePaths pid_of proc_path s =
     (let p = infraPid pid_of (infraContainer s)
      in filter (\<lambda>(path, _). path \<noteq> '''')
           [(nsPathGivenInfraPid proc_path (ipcns s) IPCNS p, IPCNS), (nsPathGivenInfraPid proc_path (netns s) NETNS p, NETNS),
            (nsPathGivenInfraPid proc_path (utsns s) UTSNS p, UTSNS), (nsPathGivenInfraPid proc_path (userns s) USERNS p, USERNS)])"

text \<open>Every namespace is removed even when removing an earlier one failed; the errors are
  collected.\<close>

definition RemoveManagedNamespaces :: "('w \<Rightarrow> Namespace \<Rightarrow> 'w \<times> string option) \<Rightarrow> 'w \<Rightarrow> Sandbox \<Rightarrow> 'w \<times> string list" where
  "RemoveManagedNamespaces ns_Remove w s =
     foldl (\<lambda>(w, errs) ns. case ns of None \<Rightarrow> (w, errs)
              | Some n \<Rightarrow> (case ns_Remove w n of (w', None) \<Rightarrow> (w', errs) | (w', Some e) \<Rightarrow> (w', errs @ [e])))
       (w, []) [utsns s, ipcns s, netns s, userns s]"

definition nsJoin :: "(string \<Rightarrow> nstype \<Rightarrow> string + Namespace) \<Rightarrow> string \<Rightarrow> nstype \<Rightarrow> Namespace option \<Rightarrow> Namespace option \<times> string option" where
  "nsJoin GetNamespace nspath t current =
     (case current of
        Some n \<Rightarrow> (Some n, Some ''sandbox already has a namespace, cannot join another'')
      | None \<Rightarrow> (case GetNamespace nspath t of Inr n \<Rightarrow> (Some n, None) | Inl e \<Rightarrow> (None, Some e)))"

definition NetNsJoin :: "(string \<Rightarrow> nstype \<Rightarrow> string + Namespace) \<Rightarrow> string \<Rightarrow> Sandbox \<Rightarrow> Sandbox \<times> string option" where
  "NetNsJoin GetNamespace nspath s =
     (let (ns, err) = nsJoin GetNamespace nspath NETNS (netns s)
      in (s\<lparr>netns := ns\<rparr>, if stopped s then None else err))"

definition IpcNsJoin :: "(string \<Rightarrow> nstype \<Rightarrow> string + Namespace) \<Rightarrow> string \<Rightarrow> Sandbox \<Rightarrow> Sandbox \<times> string option" where
  "IpcNsJoin GetNamespace nspath s =
     (if stopped s then (s, None)
      else let (ns, err) = nsJoin GetNamespace nspath IPCNS (ipcns s)
           in (s\<lparr>ipcns := ns\<rparr>, if stopped s then None else err))"

definition UtsNsJoin :: "(string \<Rightarrow> nstype \<Rightarrow> string + Namespace) \<Rightarrow> string \<Rightarrow> Sandbox \<Rightarrow> Sandbox \<times> string option" where
  "UtsNsJoin GetNamespace nspath s =
     (if stopped s then (s, None)
      else let (ns, err) = nsJoin GetNamespace nspath UTSNS (utsns s)
           in (s\<lparr>utsns := ns\<rparr>, if stopped s then None else err))"

definition UserNsJoin :: "(string \<Rightarrow> nstype \<Rightarrow> string + Namespace) \<Rightarrow> string \<Rightarrow> Sandbox \<Rightarrow> Sandbox \<times> string option" where
  "UserNsJoin GetNamespace nspath s =
     (let (ns, err) = nsJoin GetNamespace nspath USERNS (userns s)
      in (s\<lparr>userns := ns\<rparr>, if stopped s then None else err))"

section \<open>The builder of pods\<close>

record LinuxSandboxSecurityContext =
  sc_NamespaceOptions :: "string option"
  sc_SelinuxOptions :: "string option"
  sc_RunAsUser :: "int option"
  sc_RunAsGroup :: "int option"
  sc_Seccomp :: "string option"
  sc_Apparmor :: "string option"
  sc_Privileged :: bool

record LinuxPodSandboxConfig =
  lc_SecurityContext :: "LinuxSandboxSecurityContext option"

record PodSandboxConfig =
  cfg_Metadata :: "PodSandboxMetadata option"
  cfg_DnsConfig :: "string option"
  cfg_Linux :: "LinuxPodSandboxConfig option"
  cfg_LogDirectory :: string
  cfg_Labels :: str_map

record sandboxBuilder =
  b_config :: "PodSandboxConfig option"
  sandboxRef :: "Sandbox option"

definition NewBuilder :: sandboxBuilder where
  "NewBuilder = \<lparr>b_config = None, sandboxRef = Some zero_Sandbox\<rparr>"

definition GetSandbox :: "sandboxBuilder \<Rightarrow> (string, sandboxBuilder \<times> Sandbox) outcome" where
  "GetSandbox b =
     (case sandboxRef b of None \<Rightarrow> Panic
      | Some s \<Rightarrow> if criSandbox s = None then Err ''cri-o sandbox not initialized''
                  else Ok (b\<lparr>b_config := None, sandboxRef := None\<rparr>, s))"

definition SetConfig :: "PodSandboxConfig option \<Rightarrow> sandboxBuilder \<Rightarrow> string + sandboxBuilder" where
  "SetConfig config b =
     (if b_config b \<noteq> None then Inl ''config already set''
      else case config of None \<Rightarrow> Inl ''config is nil''
      | Some cfg \<Rightarrow>
          (case cfg_Metadata cfg of None \<Rightarrow> Inl ''metadata is nil''
           | Some m \<Rightarrow>
               if pm_Name m = '''' then Inl ''metadata.Name should not be empty''
               else let lin = (case cfg_Linux cfg of None \<Rightarrow> \<lparr>lc_SecurityContext = None\<rparr> | Some l \<Rightarrow> l);
                        lin' = (if lc_SecurityContext lin = None
                                then lin\<lparr>lc_SecurityContext := Some \<lparr>sc_NamespaceOptions = Some '''', sc_SelinuxOptions = Some '''',
                                       sc_RunAsUser = Some 0, sc_RunAsGroup = Some 0, sc_Seccomp = Some '''', sc_Apparmor = Some '''',
                                       sc_Privileged = False\<rparr>\<rparr>
                                else lin)
                    in Inr (b\<lparr>b_config := Some (cfg\<lparr>cfg_Linux := Some lin'\<rparr>)\<rparr>)))"

definition builder_SetID :: "string \<Rightarrow> Sandbox \<Rightarrow> Sandbox" where
  "builder_SetID i s =
     s\<lparr>criSandbox := Some (case criSandbox s of None \<Rightarrow> zero_PodSandbox\<lparr>ps_Id := i\<rparr> | Some p \<Rightarrow> p\<lparr>ps_Id := i\<rparr>)\<rparr>"

definition pod_name :: "PodSandboxMetadata \<Rightarrow> string" where
  "pod_name m = join_with ''_'' [''k8s'', pm_Name m, pm_Namespace m, pm_Uid m, utoa (pm_Attempt m)]"

text \<open>The random identifier is the parameter \<open>i\<close>.\<close>

definition GenerateNameAndID :: "string \<Rightarrow> sandboxBuilder \<Rightarrow> (string, sandboxBuilder) outcome" where
  "GenerateNameAndID i b =
     (case b_config b of None \<Rightarrow> Err ''config is nil''
      | Some cfg \<Rightarrow>
          (case cfg_Metadata cfg of None \<Rightarrow> Panic
           | Some m \<Rightarrow>
               if pm_Namespace m = '''' then Err ''cannot generate pod name without namespace''
               else if pm_Name m = '''' then Err ''cannot generate pod name without name in metadata''
               else if pm_Uid m = '''' then Err ''cannot generate pod name without uid in metadata''
               else (case sandboxRef b of None \<Rightarrow> Panic
                     | Some s \<Rightarrow> Ok (b\<lparr>sandboxRef := Some ((builder_SetID i s)\<lparr>sb_name := pod_name m\<rparr>)\<rparr>))))"

definition SetCRISandbox :: "string \<Rightarrow> str_map \<Rightarrow> str_map \<Rightarrow> PodSandboxMetadata option \<Rightarrow> sandboxBuilder \<Rightarrow> (string, sandboxBuilder) outcome" where
  "SetCRISandbox i labels anns md b =
     (case sandboxRef b of None \<Rightarrow> Panic
      | Some s \<Rightarrow>
          if createdAt s = 0 then Err ''createdAt time is Zero''
          else Ok (b\<lparr>sandboxRef := Some (s\<lparr>criSandbox := Some
                 (case criSandbox s of
                    Some p \<Rightarrow> p\<lparr>ps_CreatedAt := createdAt s, ps_Annotations := anns, ps_Labels := labels, ps_Metadata := md\<rparr>
                  | None \<Rightarrow> zero_PodSandbox\<lparr>ps_Id := i, ps_CreatedAt := createdAt s, ps_Labels := labels,
                              ps_Annotations := anns, ps_Metadata := md\<rparr>)\<rparr>)\<rparr>))"

text \<open>The setters of the builder, each of which sets one field of the pod being built.\<close>

datatype builder_field = FNamespace string | FName string | FKubeName string | FLogDir string
  | FContainers "Container memoryStore" | FProcessLabel string | FMountLabel string | FShmPath string
  | FCgroupParent string | FPrivileged bool | FRuntimeHandler string | FResolvPath string | FHostname string
  | FPortMappings "PortMapping_spec list" | FHostNetwork bool | FUsernsMode string
  | FPodLinuxOverhead "LinuxContainerResources option" | FPodLinuxResources "LinuxContainerResources option"
  | FHostnamePath string | FNamespaceOptions "string option" | FSeccompProfilePath string | FCreatedAt int

fun set_field :: "builder_field \<Rightarrow> Sandbox \<Rightarrow> Sandbox" where
  "set_field (FNamespace x) s = s\<lparr>sb_namespace := x\<rparr>"
| "set_field (FName x) s = s\<lparr>sb_name := x\<rparr>"
| "set_field (FKubeName x) s = s\<lparr>kubeName := x\<rparr>"
| "set_field (FLogDir x) s = s\<lparr>logDir := x\<rparr>"
| "set_field (FContainers x) s = s\<lparr>sb_containers := x\<rparr>"
| "set_field (FProcessLabel x) s = s\<lparr>processLabel := x\<rparr>"
| "set_field (FMountLabel x) s = s\<lparr>mountLabel := x\<rparr>"
| "set_field (FShmPath x) s = s\<lparr>shmPath := x\<rparr>"
| "set_field (FCgroupParent x) s = s\<lparr>cgroupParent := x\<rparr>"
| "set_field (FPrivileged x) s = s\<lparr>privileged := x\<rparr>"
| "set_field (FRuntimeHandler x) s = s\<lparr>sb_runtimeHandler := x\<rparr>"
| "set_field (FResolvPath x) s = s\<lparr>resolvPath := x\<rparr>"
| "set_field (FHostname x) s = s\<lparr>hostname := x\<rparr>"
| "set_field (FPortMappings x) s = s\<lparr>portMappings := x\<rparr>"
| "set_field (FHostNetwork x) s = s\<lparr>hostNetwork := x\<rparr>"
| "set_field (FUsernsMode x) s = s\<lparr>usernsMode := x\<rparr>"
| "set_field (FPodLinuxOverhead x) s = s\<lparr>podLinuxOverhead := x\<rparr>"
| "set_field (FPodLinuxResources x) s = s\<lparr>podLinuxResources := x\<rparr>"
| "set_field (FHostnamePath x) s = s\<lparr>hostnamePath := x\<rparr>"
| "set_field (FNamespaceOptions x) s = s\<lparr>nsOpts := x\<rparr>"
| "set_field (FSeccompProfilePath x) s = s\<lparr>sb_seccompProfilePath := x\<rparr>"
| "set_field (FCreatedAt x) s = s\<lparr>createdAt := x\<rparr>"

definition builder_Set :: "builder_field \<Rightarrow> sandboxBuilder \<Rightarrow> (string, sandboxBuilder) outcome" where
  "builder_Set f b =
     (case sandboxRef b of None \<Rightarrow> Panic | Some s \<Rightarrow> Ok (b\<lparr>sandboxRef := Some (set_field f s)\<rparr>))"

section \<open>Properties\<close>

text \<open>C31: The name generated for a pod determines its metadata: two configurations whose names,
  namespaces and identifiers contain no underscore get the same pod name only if name,
  namespace, identifier and attempt are all equal.\<close>

theorem pod_name_injective:
  assumes "GenerateNameAndID i b = Ok b'" and "GenerateNameAndID j d = Ok d'"
    and "b_config b = Some cfg" "cfg_Metadata cfg = Some m" and "b_config d = Some cfg'" "cfg_Metadata cfg' = Some m'"
    and "CHR ''_'' \<notin> set (pm_Name m @ pm_Namespace m @ pm_Uid m)"
    and "CHR ''_'' \<notin> set (pm_Name m' @ pm_Namespace m' @ pm_Uid m')"
    and "map_option sb_name (sandboxRef b') = map_option sb_name (sandboxRef d')"
  shows "m = m'"
proof -
  have g: "map_option sb_name (sandboxRef b') = Some (pod_name m)"
    if "GenerateNameAndID i b = Ok b'" "b_config b = Some cfg" "cfg_Metadata cfg = Some m" for i b b' cfg m
    using that by (auto simp: GenerateNameAndID_def split: if_splits option.splits)
  have s: "split_on (CHR ''_'') (pod_name m) = [''k8s'', pm_Name m, pm_Namespace m, pm_Uid m, utoa (pm_Attempt m)]"
    if "CHR ''_'' \<notin> set (pm_Name m @ pm_Namespace m @ pm_Uid m)" for m :: PodSandboxMetadata
  proof -
    have "CHR ''_'' \<notin> set (utoa n)" for n
      using utoa_chars [of "CHR ''_''" n] by (auto simp: is_digit_def)
    then show ?thesis
      unfolding pod_name_def using that by (intro split_join) auto
  qed
  have "pod_name m = pod_name m'"
    using g [OF assms(1,3,4)] g [OF assms(2,5,6)] assms(9) by simp
  then have eq: "pm_Name m = pm_Name m'" "pm_Namespace m = pm_Namespace m'" "pm_Uid m = pm_Uid m'"
      "utoa (pm_Attempt m) = utoa (pm_Attempt m')"
    using s [OF assms(7)] s [OF assms(8)] by simp_all
  have "pm_Attempt m = pm_Attempt m'"
    using arg_cong [OF eq(4), of parse_uint] by simp
  then show ?thesis
    using eq(1-3) by (cases m; cases m') simp
qed

definition sample_builder :: "string \<Rightarrow> nat \<Rightarrow> sandboxBuilder" where
  "sample_builder name attempt_nr = NewBuilder\<lparr>b_config := Some \<lparr>cfg_Metadata = Some \<lparr>pm_Name = name, pm_Uid = ''u1'',
     pm_Namespace = ''default'', pm_Attempt = attempt_nr\<rparr>, cfg_DnsConfig = None, cfg_Linux = None, cfg_LogDirectory = '''', cfg_Labels = Map.empty\<rparr>\<rparr>"

theorem pod_name_injective_witness:
  "\<exists>b' d'. GenerateNameAndID ''x'' (sample_builder ''web'' 3) = Ok b' \<and> GenerateNameAndID ''y'' (sample_builder ''web'' 4) = Ok d' \<and>
     map_option sb_name (sandboxRef b') \<noteq> map_option sb_name (sandboxRef d')"
proof -
  obtain b' d' where b': "GenerateNameAndID ''x'' (sample_builder ''web'' 3) = Ok b'"
      and d': "GenerateNameAndID ''y'' (sample_builder ''web'' 4) = Ok d'"
    by (simp add: GenerateNameAndID_def sample_builder_def NewBuilder_def)
  let ?m = "\<lambda>n. \<lparr>pm_Name = ''web'', pm_Uid = ''u1'', pm_Namespace = ''default'', pm_Attempt = n\<rparr>"
  let ?cfg = "\<lambda>n. \<lparr>cfg_Metadata = Some (?m n), cfg_DnsConfig = None, cfg_Linux = None, cfg_LogDirectory = '''', cfg_Labels = Map.empty\<rparr>"
  have "?m 3 = ?m 4" if "map_option sb_name (sandboxRef b') = map_option sb_name (sandboxRef d')"
    using that
    by (intro pod_name_injective [OF b' d', where cfg = "?cfg 3" and cfg' = "?cfg 4"]) (simp_all add: sample_builder_def)
  then show ?thesis using b' d' by auto
qed

text \<open>C32: That a pod was stopped survives a restart: once a created pod has been marked stopped and
  its network stopped, with the markers written to the infra container's directory, a pod
  restored with an infra container in the same directory is stopped with its network
  stopped; with neither marker present the restored pod keeps its flags.\<close>

theorem stop_markers_survive_restart:
  assumes "sb_created s" and "infraContainer s = Some infra" and "c_dir infra \<in> fs"
    and "\<not> stopped s" and "\<not> networkStopped s" and "\<And>p. \<not> fails p"
    and "infraContainer s' = Some infra'" and "c_dir infra' = c_dir infra"
  shows "\<exists>s1 fs1 s2 fs2. SetStopped fails True s fs = Ok (s1, fs1) \<and> SetNetworkStopped fails True s1 fs1 = Ok (s2, fs2, None) \<and>
     RestoreStopped s' fs2 = Ok (s'\<lparr>stopped := True, networkStopped := True\<rparr>) \<and>
     (\<forall>fs0. path_join (c_dir infra) sbStoppedFilename \<notin> fs0 \<and> path_join (c_dir infra) sbNetworkStoppedFilename \<notin> fs0
        \<longrightarrow> RestoreStopped s' fs0 = Ok s')"
  using assms
  by (simp add: SetStopped_def SetNetworkStopped_def createFileInInfraDir_def RestoreStopped_def fileExistsInInfraDir_def Let_def)

theorem stop_markers_survive_restart_witness:
  "\<exists>fs2. RestoreStopped (zero_Sandbox\<lparr>infraContainer := Some (zero_Container\<lparr>c_dir := ''/d''\<rparr>)\<rparr>) fs2 =
     Ok (zero_Sandbox\<lparr>infraContainer := Some (zero_Container\<lparr>c_dir := ''/d''\<rparr>), stopped := True, networkStopped := True\<rparr>)"
  using stop_markers_survive_restart [of "zero_Sandbox\<lparr>infraContainer := Some (zero_Container\<lparr>c_dir := ''/d''\<rparr>), sb_created := True\<rparr>"
      "zero_Container\<lparr>c_dir := ''/d''\<rparr>" "{''/d''}" "\<lambda>_. False"
      "zero_Sandbox\<lparr>infraContainer := Some (zero_Container\<lparr>c_dir := ''/d''\<rparr>)\<rparr>" "zero_Container\<lparr>c_dir := ''/d''\<rparr>"]
  by (auto simp: zero_Sandbox_def)

end
