(* ===== verification/Container_Server.thy ===== *)
theory Container_Server
  imports Registrar Trunc_Index Memory_Store Sandbox_State
begin

text \<open>
  The container server (\<^verbatim>\<open>internal/lib/container_server.go\<close>,
  \<^verbatim>\<open>container_server_linux.go\<close> and \<^verbatim>\<open>container.go\<close>): the name and identifier
  indices, the stores of containers, infra containers and pods, and the count of pods per
  SELinux level.

  The stores hold pointers. A pod is changed through its pointer in the store of pods, which
  the model does by storing the changed pod under its identifier again. A container is filed
  in the store of containers and in that of its pod; when a container object changes, both
  show the change (\<open>changed\<close>). What other components do is a
  parameter: \<open>level_of\<close> is the level of a process label (\<open>None\<close>: the label is
  malformed).
\<close>

section \<open>State\<close>

record ContainerServer =
  ctrNameIndex :: registrar
  ctrIDIndex :: TruncIndex
  podNameIndex :: registrar
  podIDIndex :: TruncIndex
  containers :: "Container memoryStore"
  infraContainers :: "Container memoryStore"
  sandboxes :: "Sandbox memoryStore"
  processLevels :: "string \<rightharpoonup> int"
  releasedLabels :: "string list"

definition New_ContainerServer :: ContainerServer where
  "New_ContainerServer = \<lparr>ctrNameIndex = NewRegistrar, ctrIDIndex = NewTruncIndex [], podNameIndex = NewRegistrar,
     podIDIndex = NewTruncIndex [], containers = New_store, infraContainers = New_store, sandboxes = New_store,
     processLevels = Map.empty, releasedLabels = []\<rparr>"

section \<open>Names\<close>

definition ReserveContainerName :: "string \<Rightarrow> string \<Rightarrow> ContainerServer \<Rightarrow> ContainerServer \<times> registrar_error option" where
  "ReserveContainerName i name c =
     (let (r, e) = Reserve name i (ctrNameIndex c) in (c\<lparr>ctrNameIndex := r\<rparr>, e))"

definition ContainerIDForName :: "string \<Rightarrow> ContainerServer \<Rightarrow> registrar_error + string" where
  "ContainerIDForName name c = registrar_Get name (ctrNameIndex c)"

definition ReleaseContainerName :: "string \<Rightarrow> ContainerServer \<Rightarrow> ContainerServer" where
  "ReleaseContainerName name c = c\<lparr>ctrNameIndex := Release name (ctrNameIndex c)\<rparr>"

definition ReservePodName :: "string \<Rightarrow> string \<Rightarrow> ContainerServer \<Rightarrow> ContainerServer \<times> registrar_error option" where
  "ReservePodName i name c =
     (let (r, e) = Reserve name i (podNameIndex c) in (c\<lparr>podNameIndex := r\<rparr>, e))"

definition ReleasePodName :: "string \<Rightarrow> ContainerServer \<Rightarrow> ContainerServer" where
  "ReleasePodName name c = c\<lparr>podNameIndex := Release name (podNameIndex c)\<rparr>"

definition PodIDForName :: "string \<Rightarrow> ContainerServer \<Rightarrow> registrar_error + string" where
  "PodIDForName name c = registrar_Get name (podNameIndex c)"

section \<open>Containers and pods\<close>

definition GetSandbox_cs :: "string \<Rightarrow> ContainerServer \<Rightarrow> Sandbox option" where
  "GetSandbox_cs i c = store_Get i (sandboxes c)"

definition put_sandbox :: "string \<Rightarrow> Sandbox \<Rightarrow> ContainerServer \<Rightarrow> ContainerServer" where
  "put_sandbox i sb c = c\<lparr>sandboxes := store_Add i sb (sandboxes c)\<rparr>"

definition AddContainer :: "Container \<Rightarrow> ContainerServer \<Rightarrow> ContainerServer" where
  "AddContainer ctr c =
     (case GetSandbox_cs (Sandbox_of ctr) c of
        None \<Rightarrow> c
      | Some sb \<Rightarrow>
          (let c1 = put_sandbox (Sandbox_of ctr) (sb_AddContainer ctr sb) c
           in c1\<lparr>containers := store_Add (ID ctr) ctr (containers c1)\<rparr>))"

definition AddInfraContainer :: "Container \<Rightarrow> ContainerServer \<Rightarrow> ContainerServer" where
  "AddInfraContainer ctr c = c\<lparr>infraContainers := store_Add (ID ctr) ctr (infraContainers c)\<rparr>"

definition GetContainer :: "string \<Rightarrow> ContainerServer \<Rightarrow> Container option" where
  "GetContainer i c = store_Get i (containers c)"

definition GetInfraContainer :: "string \<Rightarrow> ContainerServer \<Rightarrow> Container option" where
  "GetInfraContainer i c = store_Get i (infraContainers c)"

definition HasContainer :: "string \<Rightarrow> ContainerServer \<Rightarrow> bool" where
  "HasContainer i c = (store_Get i (containers c) \<noteq> None)"

text \<open>A failure to remove the container's PID namespace is only logged.\<close>

definition RemoveContainer :: "Container \<Rightarrow> ContainerServer \<Rightarrow> ContainerServer" where
  "RemoveContainer ctr c =
     (case GetSandbox_cs (Sandbox_of ctr) c of
        None \<Rightarrow> c
      | Some sb \<Rightarrow>
          (let c1 = put_sandbox (Sandbox_of ctr) (sb_RemoveContainer ctr sb) c
           in c1\<lparr>containers := store_Delete (ID ctr) (containers c1)\<rparr>))"

definition RemoveInfraContainer_cs :: "Container \<Rightarrow> ContainerServer \<Rightarrow> ContainerServer" where
  "RemoveInfraContainer_cs ctr c = c\<lparr>infraContainers := store_Delete (ID ctr) (infraContainers c)\<rparr>"

text \<open>With several filters a container is listed, once, when one of them accepts it.\<close>

definition ListContainers :: "(Container \<Rightarrow> bool) list \<Rightarrow> ContainerServer \<Rightarrow> Container list" where
  "ListContainers filters c =
     (let cs = store_List container_CreatedAt (containers c)
      in if length filters = 0 then cs
         else filter (\<lambda>ctr. list_ex (\<lambda>f. f ctr) filters) cs)"

definition addSandboxPlatform :: "(string \<Rightarrow> string option) \<Rightarrow> Sandbox \<Rightarrow> ContainerServer \<Rightarrow> ContainerServer \<times> string option" where
  "addSandboxPlatform level_of sb c =
     (case level_of (processLabel sb) of
        None \<Rightarrow> (c, Some ''invalid label'')
      | Some level \<Rightarrow> (c\<lparr>processLevels := (processLevels c)(level \<mapsto> get_or 0 (processLevels c) level + 1)\<rparr>, None))"

definition removeSandboxPlatform :: "(string \<Rightarrow> string option) \<Rightarrow> Sandbox \<Rightarrow> ContainerServer \<Rightarrow> ContainerServer \<times> string option" where
  "removeSandboxPlatform level_of sb c =
     (case level_of (processLabel sb) of
        None \<Rightarrow> (c, Some ''invalid label'')
      | Some level \<Rightarrow>
          (case processLevels c level of
             None \<Rightarrow> (c, None)
           | Some pl \<Rightarrow>
               if pl - 1 = 0
               then (c\<lparr>processLevels := map_delete level ((processLevels c)(level \<mapsto> pl - 1)),
                       releasedLabels := releasedLabels c @ [processLabel sb]\<rparr>, None)
               else (c\<lparr>processLevels := (processLevels c)(level \<mapsto> pl - 1)\<rparr>, None)))"

definition AddSandbox :: "(string \<Rightarrow> string option) \<Rightarrow> Sandbox \<Rightarrow> ContainerServer \<Rightarrow> ContainerServer \<times> string option" where
  "AddSandbox level_of sb c = addSandboxPlatform level_of sb (put_sandbox (sb_ID sb) sb c)"

definition GetSandboxContainer :: "string \<Rightarrow> ContainerServer \<Rightarrow> Container option" where
  "GetSandboxContainer i c = (case GetSandbox_cs i c of None \<Rightarrow> None | Some sb \<Rightarrow> infraContainer sb)"

definition HasSandbox :: "string \<Rightarrow> ContainerServer \<Rightarrow> bool" where
  "HasSandbox i c = (store_Get i (sandboxes c) \<noteq> None)"

definition RemoveSandbox :: "(string \<Rightarrow> string option) \<Rightarrow> string \<Rightarrow> ContainerServer \<Rightarrow> ContainerServer \<times> string option" where
  "RemoveSandbox level_of i c =
     (case GetSandbox_cs i c of
        None \<Rightarrow> (c, None)
      | Some sb \<Rightarrow>
          (case removeSandboxPlatform level_of sb c of
             (c1, Some e) \<Rightarrow> (c1, Some e)
           | (c1, None) \<Rightarrow> (c1\<lparr>sandboxes := store_Delete i (sandboxes c1)\<rparr>, None)))"

definition ListSandboxes :: "ContainerServer \<Rightarrow> Sandbox list" where
  "ListSandboxes c = store_List createdAt (sandboxes c)"

text \<open>A container object has changed (but for its identifier, its name and its pod): what the
  stores that point to it then show.\<close>

definition changed :: "Container \<Rightarrow> ContainerServer \<Rightarrow> ContainerServer" where
  "changed ctr c =
     (let c1 = (if GetContainer (ID ctr) c = None then c else c\<lparr>containers := store_Add (ID ctr) ctr (containers c)\<rparr>)
      in case GetSandbox_cs (Sandbox_of ctr) c1 of
           None \<Rightarrow> c1
         | Some sb \<Rightarrow>
             (case sb_GetContainer (c_name ctr) sb of
                None \<Rightarrow> c1
              | Some old \<Rightarrow> if ID old = ID ctr then put_sandbox (Sandbox_of ctr) (sb_AddContainer ctr sb) c1 else c1))"

text \<open>The new resources override those of the specification field by field.\<close>

definition over :: "'a option \<Rightarrow> 'a option \<Rightarrow> 'a option" where
  "over new old = (case new of None \<Rightarrow> old | Some x \<Rightarrow> Some x)"

definition UpdateContainerLinuxResources :: "Container \<Rightarrow> spec_Resources \<Rightarrow> ContainerServer \<Rightarrow> (unit, Container \<times> ContainerServer) outcome" where
  "UpdateContainerLinuxResources ctr new c =
     (let sp = (case c_spec ctr of None \<Rightarrow> \<lparr>sp_Linux = None, sp_Process = None\<rparr> | Some s \<Rightarrow> s);
          l = (case sp_Linux sp of None \<Rightarrow> \<lparr>lin_Namespaces = [], lin_Resources = None\<rparr> | Some l \<Rightarrow> l);
          r = (case lin_Resources l of
                 None \<Rightarrow> \<lparr>res_CPU = None, res_Memory = None, res_Unified = Map.empty, res_HugepageLimits = []\<rparr> | Some r \<Rightarrow> r);
          cpu = (case res_CPU r of
                   None \<Rightarrow> \<lparr>cpu_Cpus = '''', cpu_Mems = '''', cpu_Period = None, cpu_Quota = None, cpu_Shares = None\<rparr> | Some x \<Rightarrow> x);
          mem = (case res_Memory r of None \<Rightarrow> \<lparr>mem_Limit = None, mem_Swap = None\<rparr> | Some m \<Rightarrow> m)
      in case (res_CPU new, res_Memory new) of
           (Some ncpu, Some nmem) \<Rightarrow>
             (let cpu' = \<lparr>cpu_Cpus = (if cpu_Cpus ncpu \<noteq> '''' then cpu_Cpus ncpu else cpu_Cpus cpu),
                          cpu_Mems = (if cpu_Mems ncpu \<noteq> '''' then cpu_Mems ncpu else cpu_Mems cpu),
                          cpu_Period = over (cpu_Period ncpu) (cpu_Period cpu), cpu_Quota = over (cpu_Quota ncpu) (cpu_Quota cpu),
                          cpu_Shares = over (cpu_Shares ncpu) (cpu_Shares cpu)\<rparr>;
                  mem' = \<lparr>mem_Limit = over (mem_Limit nmem) (mem_Limit mem), mem_Swap = over (mem_Swap nmem) (mem_Swap mem)\<rparr>;
                  ctr' = SetSpec (sp\<lparr>sp_Linux := Some (l\<lparr>lin_Resources := Some (r\<lparr>res_CPU := Some cpu', res_Memory := Some mem'\<rparr>)\<rparr>)\<rparr>) ctr;
                  c1 = changed ctr' c
              in Ok (ctr', c1\<lparr>containers := store_Add (ID ctr') ctr' (containers c1)\<rparr>))
         | _ \<Rightarrow> Panic)"

section \<open>Lookups by name or short identifier\<close>

datatype lookup_error = LEmpty | LIndex trunc_error | LNotFound string | LNotCreated string | LName registrar_error

definition GetContainerFromShortID :: "string \<Rightarrow> ContainerServer \<Rightarrow> lookup_error + Container" where
  "GetContainerFromShortID cid c =
     (if cid = '''' then Inl LEmpty
      else case trunc_Get cid (ctrIDIndex c) of
             Inl e \<Rightarrow> Inl (LIndex e)
           | Inr i \<Rightarrow> (case GetContainer i c of
                        None \<Rightarrow> Inl (LNotFound i)
                      | Some ctr \<Rightarrow> if c_created ctr then Inr ctr else Inl (LNotCreated i)))"

definition LookupContainer :: "string \<Rightarrow> ContainerServer \<Rightarrow> lookup_error + Container" where
  "LookupContainer idOrName c =
     (if idOrName = '''' then Inl LEmpty
      else case ContainerIDForName idOrName c of
             Inr i \<Rightarrow> GetContainerFromShortID i c
           | Inl e \<Rightarrow> if e = ErrNameNotReserved then GetContainerFromShortID idOrName c else Inl (LName e))"

definition getSandboxFromRequest :: "string \<Rightarrow> ContainerServer \<Rightarrow> lookup_error + Sandbox" where
  "getSandboxFromRequest p c =
     (if p = '''' then Inl LEmpty
      else case trunc_Get p (podIDIndex c) of
             Inl e \<Rightarrow> Inl (LIndex e)
           | Inr i \<Rightarrow> (case GetSandbox_cs i c of None \<Rightarrow> Inl (LNotFound i) | Some sb \<Rightarrow> Inr sb))"

definition LookupSandbox :: "string \<Rightarrow> ContainerServer \<Rightarrow> lookup_error + Sandbox" where
  "LookupSandbox idOrName c =
     (if idOrName = '''' then Inl LEmpty
      else case PodIDForName idOrName c of
             Inr i \<Rightarrow> getSandboxFromRequest i c
           | Inl e \<Rightarrow> if e = ErrNameNotReserved then getSandboxFromRequest idOrName c else Inl (LName e))"

section \<open>Invariant\<close>

text \<open>The indices and stores are well formed; a container is filed under its identifier, its
  name is reserved for it, and it is filed under its name in its pod; a pod is filed under
  its identifier and holds only containers the server knows.\<close>

definition indices_ok :: "ContainerServer \<Rightarrow> bool" where
  "indices_ok c \<longleftrightarrow> registrar_inv (ctrNameIndex c) \<and> registrar_inv (podNameIndex c) \<and>
     trunc_inv (ctrIDIndex c) \<and> trunc_inv (podIDIndex c) \<and>
     store_wf (containers c) \<and> store_wf (infraContainers c) \<and> store_wf (sandboxes c)"

definition containers_filed :: "ContainerServer \<Rightarrow> bool" where
  "containers_filed c \<longleftrightarrow> (\<forall>i ctr. GetContainer i c = Some ctr \<longrightarrow>
     ID ctr = i \<and> names (ctrNameIndex c) (c_name ctr) = Some i \<and>
     (\<exists>sb. GetSandbox_cs (Sandbox_of ctr) c = Some sb \<and> sb_GetContainer (c_name ctr) sb = Some ctr))"

definition pods_filed :: "ContainerServer \<Rightarrow> bool" where
  "pods_filed c \<longleftrightarrow> (\<forall>p sb. GetSandbox_cs p c = Some sb \<longrightarrow>
     sb_ID sb = p \<and> store_wf (sb_containers sb) \<and>
     (\<forall>n ctr. sb_GetContainer n sb = Some ctr \<longrightarrow>
        c_name ctr = n \<and> Sandbox_of ctr = p \<and> GetContainer (ID ctr) c = Some ctr))"

definition cs_inv :: "ContainerServer \<Rightarrow> bool" where
  "cs_inv c \<longleftrightarrow> indices_ok c \<and> containers_filed c \<and> pods_filed c"

lemma cs_inv_New: "cs_inv New_ContainerServer"
  by (simp add: cs_inv_def indices_ok_def containers_filed_def pods_filed_def New_ContainerServer_def
      GetContainer_def GetSandbox_cs_def NewRegistrar_inv NewTruncIndex_inv)

lemma containers_filedD:
  assumes "containers_filed c" and "GetContainer i c = Some ctr"
  shows "ID ctr = i" and "names (ctrNameIndex c) (c_name ctr) = Some i"
    and "\<exists>sb. GetSandbox_cs (Sandbox_of ctr) c = Some sb \<and> sb_GetContainer (c_name ctr) sb = Some ctr"
  using assms unfolding containers_filed_def by blast+

lemma pods_filedD:
  assumes "pods_filed c" and "GetSandbox_cs p c = Some sb"
  shows "sb_ID sb = p" and "store_wf (sb_containers sb)"
    and "\<And>n ctr. sb_GetContainer n sb = Some ctr \<Longrightarrow> c_name ctr = n \<and> Sandbox_of ctr = p \<and> GetContainer (ID ctr) c = Some ctr"
  using assms unfolding pods_filed_def by blast+

text \<open>A name determines its container.\<close>

lemma container_by_name:
  "cs_inv c \<Longrightarrow> GetContainer i c = Some x \<Longrightarrow> GetContainer j c = Some y \<Longrightarrow> c_name x = c_name y \<Longrightarrow> x = y"
  using containers_filedD(2) [of c i x] containers_filedD(2) [of c j y] by (simp add: cs_inv_def)

lemma no_container_named:
  assumes "cs_inv c" and "names (ctrNameIndex c) n = Some i" and "GetContainer i c = None" and "GetSandbox_cs p c = Some sb"
  shows "sb_GetContainer n sb = None"
proof (rule ccontr)
  assume "sb_GetContainer n sb \<noteq> None"
  then obtain x where x: "sb_GetContainer n sb = Some x" by blast
  then have "c_name x = n" "GetContainer (ID x) c = Some x"
    using pods_filedD(3) [OF _ assms(4) x] assms(1) by (simp_all add: cs_inv_def)
  then have "ID x = i"
    using containers_filedD(2) [of c "ID x" x] assms(1,2) by (simp add: cs_inv_def)
  then show False using \<open>GetContainer (ID x) c = Some x\<close> assms(3) by simp
qed

lemmas cs_frames = put_sandbox_def GetContainer_def GetSandbox_cs_def Let_def

lemma put_sandbox_frame [simp]:
  "ctrNameIndex (put_sandbox i sb c) = ctrNameIndex c" "podNameIndex (put_sandbox i sb c) = podNameIndex c"
  "ctrIDIndex (put_sandbox i sb c) = ctrIDIndex c" "podIDIndex (put_sandbox i sb c) = podIDIndex c"
  "containers (put_sandbox i sb c) = containers c" "infraContainers (put_sandbox i sb c) = infraContainers c"
  "processLevels (put_sandbox i sb c) = processLevels c"
  by (simp_all add: put_sandbox_def)

lemma GetSandbox_put [simp]: "GetSandbox_cs p (put_sandbox i sb c) = (if p = i then Some sb else GetSandbox_cs p c)"
  by (simp add: put_sandbox_def GetSandbox_cs_def)

lemma AddContainer_present:
  assumes "GetSandbox_cs (Sandbox_of ctr) c = Some sb"
  shows "GetContainer i (AddContainer ctr c) = (if i = ID ctr then Some ctr else GetContainer i c)"
    and "GetSandbox_cs p (AddContainer ctr c) = (if p = Sandbox_of ctr then Some (sb_AddContainer ctr sb) else GetSandbox_cs p c)"
    and "ctrNameIndex (AddContainer ctr c) = ctrNameIndex c" and "ctrIDIndex (AddContainer ctr c) = ctrIDIndex c"
    and "podNameIndex (AddContainer ctr c) = podNameIndex c" and "podIDIndex (AddContainer ctr c) = podIDIndex c"
    and "infraContainers (AddContainer ctr c) = infraContainers c" and "processLevels (AddContainer ctr c) = processLevels c"
  using assms by (simp_all add: AddContainer_def Let_def GetContainer_def GetSandbox_cs_def put_sandbox_def)

lemma RemoveContainer_present:
  assumes "GetSandbox_cs (Sandbox_of ctr) c = Some sb"
  shows "GetContainer i (RemoveContainer ctr c) = (if i = ID ctr then None else GetContainer i c)"
    and "GetSandbox_cs p (RemoveContainer ctr c) = (if p = Sandbox_of ctr then Some (sb_RemoveContainer ctr sb) else GetSandbox_cs p c)"
    and "ctrNameIndex (RemoveContainer ctr c) = ctrNameIndex c" and "ctrIDIndex (RemoveContainer ctr c) = ctrIDIndex c"
    and "podNameIndex (RemoveContainer ctr c) = podNameIndex c" and "podIDIndex (RemoveContainer ctr c) = podIDIndex c"
    and "infraContainers (RemoveContainer ctr c) = infraContainers c" and "processLevels (RemoveContainer ctr c) = processLevels c"
  using assms by (simp_all add: RemoveContainer_def Let_def GetContainer_def GetSandbox_cs_def put_sandbox_def)

lemma sb_GetContainer_simps [simp]:
  "sb_GetContainer n (sb_AddContainer ctr sb) = (if n = c_name ctr then Some ctr else sb_GetContainer n sb)"
  "sb_GetContainer n (sb_RemoveContainer ctr sb) = (if n = c_name ctr then None else sb_GetContainer n sb)"
  "sb_ID (sb_AddContainer ctr sb) = sb_ID sb" "sb_ID (sb_RemoveContainer ctr sb) = sb_ID sb"
  "stopped (sb_AddContainer ctr sb) = stopped sb" "stopped (sb_RemoveContainer ctr sb) = stopped sb"
  by (simp_all add: sb_GetContainer_def sb_AddContainer_def sb_RemoveContainer_def sb_ID_def)

lemma indices_ok_AddContainer: "indices_ok c \<Longrightarrow> indices_ok (AddContainer ctr c)"
  by (simp add: indices_ok_def AddContainer_def put_sandbox_def Let_def store_Add_wf split: option.split)

lemma indices_ok_RemoveContainer: "indices_ok c \<Longrightarrow> indices_ok (RemoveContainer ctr c)"
  by (simp add: indices_ok_def RemoveContainer_def put_sandbox_def Let_def store_Add_wf store_Delete_wf split: option.split)

lemma AddContainer_inv:
  assumes inv: "cs_inv c" and name: "names (ctrNameIndex c) (c_name ctr) = Some (ID ctr)"
    and same: "\<And>old. GetContainer (ID ctr) c = Some old \<Longrightarrow> c_name old = c_name ctr \<and> Sandbox_of old = Sandbox_of ctr"
  shows "cs_inv (AddContainer ctr c)"
proof (cases "GetSandbox_cs (Sandbox_of ctr) c")
  case None
  then show ?thesis using inv by (simp add: AddContainer_def)
next
  case (Some sb)
  note a = AddContainer_present [OF Some]

  have f: "containers_filed c" and p: "pods_filed c" using inv by (simp_all add: cs_inv_def)
  have "containers_filed (AddContainer ctr c)"
    unfolding containers_filed_def
  proof (intro allI impI)
    fix i x assume x: "GetContainer i (AddContainer ctr c) = Some x"
    show "ID x = i \<and> names (ctrNameIndex (AddContainer ctr c)) (c_name x) = Some i \<and>
      (\<exists>sb. GetSandbox_cs (Sandbox_of x) (AddContainer ctr c) = Some sb \<and> sb_GetContainer (c_name x) sb = Some x)"
    proof (cases "i = ID ctr")
      case True
      then show ?thesis using x a name by simp
    next
      case False
      then have "GetContainer i c = Some x" using x a by simp
      note d = containers_filedD [OF f this]
      then have "c_name x \<noteq> c_name ctr" using name False by auto
      with d show ?thesis using a Some by auto
    qed
  qed
  moreover have "pods_filed (AddContainer ctr c)"
    unfolding pods_filed_def
  proof (intro allI impI)
    fix q s assume s: "GetSandbox_cs q (AddContainer ctr c) = Some s"
    obtain s0 where s0: "GetSandbox_cs q c = Some s0" "s = (if q = Sandbox_of ctr then sb_AddContainer ctr s0 else s0)"
      using s a(2) [of q] Some by (auto split: if_splits)
    note d = pods_filedD [OF p s0(1)]
    have "sb_ID s = q" "store_wf (sb_containers s)"
      using d(1,2) by (simp_all add: s0(2)) (simp add: sb_AddContainer_def store_Add_wf)
    moreover have "c_name x = n \<and> Sandbox_of x = q \<and> GetContainer (ID x) (AddContainer ctr c) = Some x"
      if x: "sb_GetContainer n s = Some x" for n x
    proof (cases "q = Sandbox_of ctr \<and> n = c_name ctr")
      case True
      then show ?thesis using x s0(2) a by auto
    next
      case False
      then have "sb_GetContainer n s0 = Some x" using x s0(2) by (auto split: if_splits)
      note e = d(3) [OF this]
      then have "ID x \<noteq> ID ctr" using same [of x] False by auto
      then show ?thesis using a e by simp
    qed
    ultimately show "sb_ID s = q \<and> store_wf (sb_containers s) \<and> (\<forall>n x. sb_GetContainer n s = Some x \<longrightarrow>
        c_name x = n \<and> Sandbox_of x = q \<and> GetContainer (ID x) (AddContainer ctr c) = Some x)"
      by blast
  qed
  ultimately show ?thesis
    using inv by (simp add: cs_inv_def indices_ok_AddContainer)
qed

text \<open>Filing a container and removing it again is the identity; filing the same container twice
  keeps the second object.\<close>

lemma RemoveContainer_AddContainer:
  assumes "GetContainer (ID x) c = None" and "GetSandbox_cs (Sandbox_of x) c = Some sb" and "sb_GetContainer (c_name x) sb = None"
    and "ID y = ID x" and "c_name y = c_name x" and "Sandbox_of y = Sandbox_of x"
  shows "RemoveContainer y (AddContainer x c) = c"
proof -
  have "sb_RemoveContainer y (sb_AddContainer x sb) = sb"
    using assms(3,5) by (simp add: sb_RemoveContainer_def sb_AddContainer_def sb_GetContainer_def store_Delete_Add)
  moreover have "store_Add (Sandbox_of x) sb (sandboxes c) = sandboxes c"
    using assms(2) by (simp add: GetSandbox_cs_def store_Add_same)
  moreover have "store_Delete (ID x) (store_Add (ID x) x (containers c)) = containers c"
    using assms(1) by (simp add: GetContainer_def store_Delete_Add)
  ultimately show ?thesis
    using assms(2,4,6) by (simp add: RemoveContainer_def AddContainer_def put_sandbox_def Let_def GetSandbox_cs_def store_Add_Add)
qed

lemma AddContainer_AddContainer:
  assumes "ID y = ID x" and "c_name y = c_name x" and "Sandbox_of y = Sandbox_of x"
  shows "AddContainer y (AddContainer x c) = AddContainer y c"
proof (cases "GetSandbox_cs (Sandbox_of x) c")
  case None
  then show ?thesis using assms by (simp add: AddContainer_def)
next
  case (Some sb)
  moreover have "sb_AddContainer y (sb_AddContainer x sb) = sb_AddContainer y sb"
    using assms by (simp add: sb_AddContainer_def store_Add_Add)
  ultimately show ?thesis
    using assms by (simp add: AddContainer_def put_sandbox_def Let_def GetSandbox_cs_def store_Add_Add)
qed

lemma changed_filed:
  assumes inv: "cs_inv c" and old: "GetContainer (ID ctr) c = Some old" "c_name old = c_name ctr" "Sandbox_of old = Sandbox_of ctr"
  shows "changed ctr c = AddContainer ctr c" and "cs_inv (changed ctr c)"
proof -
  have f: "containers_filed c" using inv by (simp add: cs_inv_def)
  obtain sb where sb: "GetSandbox_cs (Sandbox_of ctr) c = Some sb" "sb_GetContainer (c_name ctr) sb = Some old"
    using containers_filedD(3) [OF f old(1)] old(2,3) by auto
  have i: "ID old = ID ctr" using containers_filedD(1) [OF f old(1)] .
  have g: "GetSandbox_cs p (c\<lparr>containers := x\<rparr>) = GetSandbox_cs p c" for p x
    by (simp add: GetSandbox_cs_def)
  show *: "changed ctr c = AddContainer ctr c"
    using sb i old(1) by (simp add: changed_def AddContainer_def g put_sandbox_def)
  show "cs_inv (changed ctr c)"
    unfolding * by (rule AddContainer_inv [OF inv]) (use containers_filedD(2) [OF f old(1)] old in auto)
qed

lemma changed_not_filed:
  assumes inv: "cs_inv c" and none: "GetContainer (ID ctr) c = None"
  shows "changed ctr c = c"
proof -
  have "ID old \<noteq> ID ctr" if "GetSandbox_cs p c = Some sb" "sb_GetContainer n sb = Some old" for p sb n old
    using pods_filedD(3) [OF _ that] inv none by (auto simp: cs_inv_def)
  then show ?thesis
    using none by (auto simp: changed_def split: option.split)
qed

lemma RemoveContainer_inv:
  assumes inv: "cs_inv c" and name: "\<And>i x. GetContainer i c = Some x \<Longrightarrow> c_name x = c_name ctr \<Longrightarrow> i = ID ctr"
    and same: "\<And>old. GetContainer (ID ctr) c = Some old \<Longrightarrow> c_name old = c_name ctr \<and> Sandbox_of old = Sandbox_of ctr"
  shows "cs_inv (RemoveContainer ctr c)"
proof (cases "GetSandbox_cs (Sandbox_of ctr) c")
  case None
  then show ?thesis using inv by (simp add: RemoveContainer_def)
next
  case (Some sb)
  have f: "containers_filed c" and p: "pods_filed c" using inv by (simp_all add: cs_inv_def)
  note a = RemoveContainer_present [OF Some]
  have "containers_filed (RemoveContainer ctr c)"
    unfolding containers_filed_def
  proof (intro allI impI)
    fix i x assume x: "GetContainer i (RemoveContainer ctr c) = Some x"
    then have i: "i \<noteq> ID ctr" "GetContainer i c = Some x" using a by (auto split: if_splits)
    note d = containers_filedD [OF f i(2)]
    have "c_name x \<noteq> c_name ctr"
      using name i by blast
    then show "ID x = i \<and> names (ctrNameIndex (RemoveContainer ctr c)) (c_name x) = Some i \<and>
      (\<exists>sb. GetSandbox_cs (Sandbox_of x) (RemoveContainer ctr c) = Some sb \<and> sb_GetContainer (c_name x) sb = Some x)"
      using d a Some by auto
  qed
  moreover have "pods_filed (RemoveContainer ctr c)"
    unfolding pods_filed_def
  proof (intro allI impI)
    fix q s assume s: "GetSandbox_cs q (RemoveContainer ctr c) = Some s"
    obtain s0 where s0: "GetSandbox_cs q c = Some s0" "s = (if q = Sandbox_of ctr then sb_RemoveContainer ctr s0 else s0)"
      using s a(2) [of q] Some by (auto split: if_splits)
    note d = pods_filedD [OF p s0(1)]
    have "sb_ID s = q" "store_wf (sb_containers s)"
      using d(1,2) by (simp_all add: s0(2)) (simp add: sb_RemoveContainer_def store_Delete_wf)
    moreover have "c_name x = n \<and> Sandbox_of x = q \<and> GetContainer (ID x) (RemoveContainer ctr c) = Some x"
      if x: "sb_GetContainer n s = Some x" for n x
    proof -
      have x0: "sb_GetContainer n s0 = Some x" "\<not> (q = Sandbox_of ctr \<and> n = c_name ctr)"
        using x s0(2) by (auto split: if_splits)
      note e = d(3) [OF x0(1)]
      have "ID x \<noteq> ID ctr" using e x0(2) same [of x] by auto
      then show ?thesis using e a by simp
    qed
    ultimately show "sb_ID s = q \<and> store_wf (sb_containers s) \<and> (\<forall>n x. sb_GetContainer n s = Some x \<longrightarrow>
        c_name x = n \<and> Sandbox_of x = q \<and> GetContainer (ID x) (RemoveContainer ctr c) = Some x)"
      by blast
  qed
  ultimately show ?thesis
    using inv by (simp add: cs_inv_def indices_ok_RemoveContainer)
qed

lemma ReserveContainerName_frame:
  "fst (ReserveContainerName i n c) = c\<lparr>ctrNameIndex := fst (Reserve n i (ctrNameIndex c))\<rparr>"
  "snd (ReserveContainerName i n c) = snd (Reserve n i (ctrNameIndex c))"
  by (simp_all add: ReserveContainerName_def split_beta)

lemma get_frames [simp]:
  "GetContainer i (c\<lparr>ctrNameIndex := r\<rparr>) = GetContainer i c" "GetSandbox_cs i (c\<lparr>ctrNameIndex := r\<rparr>) = GetSandbox_cs i c"
  "GetContainer i (c\<lparr>ctrIDIndex := x\<rparr>) = GetContainer i c" "GetSandbox_cs i (c\<lparr>ctrIDIndex := x\<rparr>) = GetSandbox_cs i c"
  "GetContainer i (c\<lparr>podNameIndex := r\<rparr>) = GetContainer i c" "GetSandbox_cs i (c\<lparr>podNameIndex := r\<rparr>) = GetSandbox_cs i c"
  "GetContainer i (c\<lparr>podIDIndex := x\<rparr>) = GetContainer i c" "GetSandbox_cs i (c\<lparr>podIDIndex := x\<rparr>) = GetSandbox_cs i c"
  "GetContainer i (c\<lparr>infraContainers := f\<rparr>) = GetContainer i c" "GetSandbox_cs i (c\<lparr>infraContainers := f\<rparr>) = GetSandbox_cs i c"
  "GetContainer i (c\<lparr>processLevels := l\<rparr>) = GetContainer i c" "GetSandbox_cs i (c\<lparr>processLevels := l\<rparr>) = GetSandbox_cs i c"
  "GetContainer i (c\<lparr>releasedLabels := ls\<rparr>) = GetContainer i c" "GetSandbox_cs i (c\<lparr>releasedLabels := ls\<rparr>) = GetSandbox_cs i c"
  by (simp_all add: GetContainer_def GetSandbox_cs_def)

lemma pods_filed_cong:
  "(\<And>i. GetContainer i c' = GetContainer i c) \<Longrightarrow> (\<And>i. GetSandbox_cs i c' = GetSandbox_cs i c) \<Longrightarrow> pods_filed c' = pods_filed c"
  by (simp add: pods_filed_def)

lemma cs_inv_frame:
  assumes "cs_inv c" and "\<And>i. GetContainer i c' = GetContainer i c" and "\<And>i. GetSandbox_cs i c' = GetSandbox_cs i c"
    and "indices_ok c'" and "\<And>i ctr. GetContainer i c = Some ctr \<Longrightarrow> names (ctrNameIndex c') (c_name ctr) = Some i"
  shows "cs_inv c'"
proof -
  have "containers_filed c'"
    using assms(1,2,3,5) unfolding cs_inv_def containers_filed_def by metis
  then show ?thesis
    using assms(1,4) pods_filed_cong [of c' c] assms(2,3) by (simp add: cs_inv_def)
qed

lemma cs_inv_names: "cs_inv c \<Longrightarrow> GetContainer i c = Some ctr \<Longrightarrow> names (ctrNameIndex c) (c_name ctr) = Some i"
  using containers_filedD(2) by (simp add: cs_inv_def)

lemma ReserveContainerName_inv: "cs_inv c \<Longrightarrow> cs_inv (fst (ReserveContainerName i n c))"
  unfolding ReserveContainerName_frame
  by (rule cs_inv_frame, assumption)
    (simp_all add: reg.reserve_keeps cs_inv_names, simp add: cs_inv_def indices_ok_def Reserve_inv)

lemma ReleaseContainerName_inv:
  assumes "cs_inv c" and "\<And>i ctr. GetContainer i c = Some ctr \<Longrightarrow> c_name ctr \<noteq> n"
  shows "cs_inv (ReleaseContainerName n c)"
  using assms(1)
proof (rule cs_inv_frame)
  show "names (ctrNameIndex (ReleaseContainerName n c)) (c_name ctr) = Some i" if "GetContainer i c = Some ctr" for i ctr
    using assms(2) [OF that] cs_inv_names [OF assms(1) that] assms(1)
    by (simp add: ReleaseContainerName_def reg.release_lookup cs_inv_def indices_ok_def)
qed (use assms(1) in \<open>simp_all add: ReleaseContainerName_def cs_inv_def indices_ok_def Release_inv\<close>)

lemma ctrIDIndex_inv: "cs_inv c \<Longrightarrow> trunc_inv x \<Longrightarrow> cs_inv (c\<lparr>ctrIDIndex := x\<rparr>)"
  by (rule cs_inv_frame, assumption) (simp_all add: cs_inv_names, simp add: cs_inv_def indices_ok_def)

lemma podIDIndex_inv: "cs_inv c \<Longrightarrow> trunc_inv x \<Longrightarrow> cs_inv (c\<lparr>podIDIndex := x\<rparr>)"
  by (rule cs_inv_frame, assumption) (simp_all add: cs_inv_names, simp add: cs_inv_def indices_ok_def)

lemma podNameIndex_inv: "cs_inv c \<Longrightarrow> registrar_inv x \<Longrightarrow> cs_inv (c\<lparr>podNameIndex := x\<rparr>)"
  by (rule cs_inv_frame, assumption) (simp_all add: cs_inv_names, simp add: cs_inv_def indices_ok_def)

lemma infraContainers_inv: "cs_inv c \<Longrightarrow> store_wf x \<Longrightarrow> cs_inv (c\<lparr>infraContainers := x\<rparr>)"
  by (rule cs_inv_frame, assumption) (simp_all add: cs_inv_names, simp add: cs_inv_def indices_ok_def)

lemma processLevels_inv: "cs_inv c \<Longrightarrow> cs_inv (c\<lparr>processLevels := l\<rparr>)" "cs_inv c \<Longrightarrow> cs_inv (c\<lparr>releasedLabels := r\<rparr>)"
  by (rule cs_inv_frame, assumption, simp_all add: cs_inv_names, simp add: cs_inv_def indices_ok_def)+

lemma put_sandbox_inv:
  assumes inv: "cs_inv c" and fresh: "GetSandbox_cs i c = None" and sb: "sb_ID sb = i" "sb_containers sb = New_store"
  shows "cs_inv (put_sandbox i sb c)"
proof -
  have none: "sb_GetContainer n sb = None" for n
    using sb(2) by (simp add: sb_GetContainer_def)
  have f: "containers_filed c" and p: "pods_filed c" using inv by (simp_all add: cs_inv_def)
  have g: "GetContainer j (put_sandbox i sb c) = GetContainer j c" for j
    by (simp add: GetContainer_def)
  have "Sandbox_of x \<noteq> i" if "GetContainer j c = Some x" for j x
    using containers_filedD(3) [OF f that] fresh by auto
  then have "containers_filed (put_sandbox i sb c)"
    using f unfolding containers_filed_def g by simp
  moreover have "pods_filed (put_sandbox i sb c)"
    using p sb none unfolding pods_filed_def g by simp
  ultimately show ?thesis
    using inv by (simp add: cs_inv_def indices_ok_def) (simp add: put_sandbox_def store_Add_wf)
qed

lemma AddSandbox_inv:
  assumes "cs_inv c" and "GetSandbox_cs (sb_ID sb) c = None" and "sb_containers sb = New_store"
  shows "cs_inv (fst (AddSandbox level_of sb c))"
  using put_sandbox_inv [OF assms(1,2) refl assms(3)]
  by (simp add: AddSandbox_def addSandboxPlatform_def processLevels_inv split: option.split)

lemma delete_sandbox_inv:
  assumes inv: "cs_inv c" and sb: "GetSandbox_cs i c = Some sb" and none: "\<And>n. sb_GetContainer n sb = None"
  shows "cs_inv (c\<lparr>sandboxes := store_Delete i (sandboxes c)\<rparr>)"
proof -
  let ?c = "c\<lparr>sandboxes := store_Delete i (sandboxes c)\<rparr>"
  have g: "GetContainer j ?c = GetContainer j c" "GetSandbox_cs j ?c = (if j = i then None else GetSandbox_cs j c)" for j
    by (simp_all add: GetContainer_def GetSandbox_cs_def)
  have f: "containers_filed c" and p: "pods_filed c" using inv by (simp_all add: cs_inv_def)
  have "Sandbox_of x \<noteq> i" if "GetContainer j c = Some x" for j x
    using containers_filedD(3) [OF f that] sb none by auto
  then have "containers_filed ?c"
    using f unfolding containers_filed_def g by simp
  moreover have "pods_filed ?c"
    using p unfolding pods_filed_def g by (simp split: if_splits)
  ultimately show ?thesis
    using inv by (simp add: cs_inv_def indices_ok_def store_Delete_wf)
qed

lemma RemoveSandbox_inv:
  assumes inv: "cs_inv c" and none: "\<And>sb n. GetSandbox_cs i c = Some sb \<Longrightarrow> sb_GetContainer n sb = None"
  shows "cs_inv (fst (RemoveSandbox level_of i c))"
proof (cases "GetSandbox_cs i c")
  case None
  then show ?thesis using inv by (simp add: RemoveSandbox_def)
next
  case (Some sb)
  let ?d = "c\<lparr>sandboxes := store_Delete i (sandboxes c)\<rparr>"
  have d: "cs_inv ?d" using delete_sandbox_inv [OF inv Some] none Some by blast
  have s: "c\<lparr>processLevels := l, releasedLabels := r, sandboxes := x\<rparr> = c\<lparr>sandboxes := x, processLevels := l, releasedLabels := r\<rparr>"
    "c\<lparr>processLevels := l, sandboxes := x\<rparr> = c\<lparr>sandboxes := x, processLevels := l\<rparr>" for l r x
    by simp_all
  show ?thesis
    using Some inv d processLevels_inv(1) [OF d] processLevels_inv(2) [OF processLevels_inv(1) [OF d]]
    by (simp add: RemoveSandbox_def removeSandboxPlatform_def s split: option.split)
qed

section \<open>Pods per SELinux level\<close>

definition level_count :: "(string \<Rightarrow> string option) \<Rightarrow> string \<Rightarrow> ContainerServer \<Rightarrow> nat" where
  "level_count level_of l c = length (filter (\<lambda>e. level_of (processLabel (snd e)) = Some l) (ents (sandboxes c)))"

definition levels_ok :: "(string \<Rightarrow> string option) \<Rightarrow> ContainerServer \<Rightarrow> bool" where
  "levels_ok level_of c \<longleftrightarrow>
     (\<forall>l. processLevels c l = (if level_count level_of l c = 0 then None else Some (int (level_count level_of l c))))"

lemma length_filter_delete:
  assumes "distinct (map fst al)" and "map_of al k = Some v"
  shows "length (filter (\<lambda>e. P (snd e)) al) = length (filter (\<lambda>e. P (snd e)) (AList.delete k al)) + (if P v then 1 else 0)"
  using assms
proof (induction al)
  case (Cons e al)
  then show ?case by (cases e; cases "fst e = k") auto
qed simp

lemma levels_ok_AddSandbox:
  assumes "levels_ok level_of c" and "GetSandbox_cs (sb_ID sb) c = None"
  shows "levels_ok level_of (fst (AddSandbox level_of sb c))"
proof -
  have e: "ents (sandboxes (put_sandbox (sb_ID sb) sb c)) = ents (sandboxes c) @ [(sb_ID sb, sb)]"
    using assms(2) by (simp add: put_sandbox_def store_Add_def update_absent GetSandbox_cs_def store_Get_def map_of_absent)
  have n: "level_count level_of l (put_sandbox (sb_ID sb) sb c) =
      level_count level_of l c + (if level_of (processLabel sb) = Some l then 1 else 0)" for l
    by (simp add: level_count_def e)
  show ?thesis
  proof (cases "level_of (processLabel sb)")
    case None
    then show ?thesis
      using assms(1) n by (simp add: AddSandbox_def addSandboxPlatform_def levels_ok_def)
  next
    case (Some l)
    have "level_count level_of k (fst (AddSandbox level_of sb c)) = level_count level_of k (put_sandbox (sb_ID sb) sb c)" for k
      using Some by (simp add: AddSandbox_def addSandboxPlatform_def level_count_def)
    then show ?thesis
      using assms(1) Some n unfolding levels_ok_def
      by (auto simp: AddSandbox_def addSandboxPlatform_def get_or_def split: if_splits)
  qed
qed

lemma RemoveSandbox_levels:
  assumes ok: "levels_ok level_of c" and wf: "store_wf (sandboxes c)" and sb: "GetSandbox_cs i c = Some sb"
    and l: "level_of (processLabel sb) = Some l"
  shows "let c' = fst (RemoveSandbox level_of i c)
    in snd (RemoveSandbox level_of i c) = None \<and> levels_ok level_of c' \<and> GetSandbox_cs i c' = None \<and>
       releasedLabels c' = releasedLabels c @ (if level_count level_of l c' = 0 then [processLabel sb] else [])"
proof -
  let ?c = "c\<lparr>sandboxes := store_Delete i (sandboxes c)\<rparr>"
  have n: "level_count level_of k c = level_count level_of k ?c + (if k = l then 1 else 0)" for k
    using length_filter_delete [of "ents (sandboxes c)" i sb "\<lambda>s. level_of (processLabel s) = Some k"] wf sb l
    by (auto simp: level_count_def store_Delete_def store_wf_def GetSandbox_cs_def store_Get_def)
  then have p: "processLevels c l = Some (int (level_count level_of l ?c) + 1)"
    using ok by (simp add: levels_ok_def)
  have cnt: "level_count level_of k (fst (RemoveSandbox level_of i c)) = level_count level_of k ?c" for k
    using sb l p by (simp add: RemoveSandbox_def removeSandboxPlatform_def level_count_def)
  have pl: "processLevels (fst (RemoveSandbox level_of i c)) = (processLevels c)(l := if level_count level_of l ?c = 0 then None
      else Some (int (level_count level_of l ?c)))"
    using sb l p by (auto simp: RemoveSandbox_def removeSandboxPlatform_def map_delete_def)
  have "levels_ok level_of (fst (RemoveSandbox level_of i c))"
    using ok n unfolding levels_ok_def cnt pl by auto
  then show ?thesis
    unfolding Let_def cnt using sb l p
    by (auto simp: RemoveSandbox_def removeSandboxPlatform_def GetSandbox_cs_def)
qed

section \<open>Properties\<close>

text \<open>C16: The table of process levels counts the pods of each level: adding a pod with a new
  identifier and removing a pod keep it exact, and the SELinux label of a removed pod is
  released exactly when no pod of its level is left.\<close>

theorem process_levels_exact:
  assumes "levels_ok level_of c" and "store_wf (sandboxes c)" and "GetSandbox_cs (sb_ID new) c = None"
    and "GetSandbox_cs i c = Some sb" and "level_of (processLabel sb) = Some l"
  shows "levels_ok level_of (fst (AddSandbox level_of new c)) \<and>
    (let (c', err) = RemoveSandbox level_of i c
     in err = None \<and> levels_ok level_of c' \<and> \<not> HasSandbox i c' \<and>
        releasedLabels c' = releasedLabels c @ (if level_count level_of l c' = 0 then [processLabel sb] else []))"
  using levels_ok_AddSandbox [OF assms(1,3)] RemoveSandbox_levels [OF assms(1,2,4,5)]
  by (simp add: Let_def split_beta HasSandbox_def GetSandbox_cs_def)

definition sample_pod :: "string \<Rightarrow> string \<Rightarrow> Sandbox" where
  "sample_pod i label = zero_Sandbox\<lparr>criSandbox := Some (zero_PodSandbox\<lparr>ps_Id := i\<rparr>), processLabel := label\<rparr>"

theorem process_levels_exact_witness:
  "let c = fst (AddSandbox Some (sample_pod ''p1'' ''s0:c1'') New_ContainerServer);
       c' = fst (RemoveSandbox Some ''p1'' c)
   in levels_ok Some (fst (AddSandbox Some (sample_pod ''p2'' ''s0:c1'') c)) \<and> releasedLabels c' = [''s0:c1''] \<and>
      processLevels c' ''s0:c1'' = None"
proof -
  let ?c = "fst (AddSandbox Some (sample_pod ''p1'' ''s0:c1'') New_ContainerServer)"
  have ids: "sb_ID (sample_pod i l) = i" for i l
    by (simp add: sb_ID_def sample_pod_def)
  have get: "GetSandbox_cs ''p2'' ?c = None" "GetSandbox_cs ''p1'' ?c = Some (sample_pod ''p1'' ''s0:c1'')"
    by (simp_all add: AddSandbox_def addSandboxPlatform_def ids New_ContainerServer_def GetSandbox_cs_def put_sandbox_def)
  have wf: "store_wf (sandboxes ?c)"
    by (simp add: AddSandbox_def addSandboxPlatform_def New_ContainerServer_def put_sandbox_def store_Add_wf)
  have ok: "levels_ok Some ?c"
    by (rule levels_ok_AddSandbox)
      (simp_all add: levels_ok_def level_count_def New_ContainerServer_def New_store_def GetSandbox_cs_def store_Get_def)
  have "releasedLabels ?c = []" "level_count Some ''s0:c1'' (fst (RemoveSandbox Some ''p1'' ?c)) = 0"
    by code_simp+
  moreover have "processLabel (sample_pod i l) = l" for i l
    by (simp add: sample_pod_def)
  ultimately show ?thesis
    using process_levels_exact [OF ok wf, of "sample_pod ''p2'' ''s0:c1''" "''p1''" "sample_pod ''p1'' ''s0:c1''" "''s0:c1''"]
    unfolding ids Let_def split_beta get levels_ok_def [of Some "fst (RemoveSandbox Some ''p1'' ?c)"] by simp
qed

end
