(* ===== verification/Server_Restore.thy ===== *)
theory Server_Restore
  imports Container_Server
begin

text \<open>
  Loading pods and containers from disk when the server starts
  (\<^verbatim>\<open>LoadSandbox\<close> and \<^verbatim>\<open>LoadContainer\<close> of
  \<^verbatim>\<open>internal/lib/container_server.go\<close>), with the deferred clean-up each of them does when
  a later step fails.

  The storage service and the decoders of the JSON annotations are parameters, collected in
  two records. A call that panics runs its deferred functions with no error recorded, so it
  undoes nothing.
\<close>

section \<open>What is on disk\<close>

record oci_config =
  m_spec :: Spec
  m_ann :: str_map
  m_SelinuxLabel :: "string option"
  m_MountLabel :: "string option"
  m_nsPaths :: "(nstype \<times> string) list"

record codecs =
  js_map :: "string \<Rightarrow> (string, str_map) outcome"
  js_metadata :: "string \<Rightarrow> (string, ContainerMetadata) outcome"
  js_podMetadata :: "string \<Rightarrow> (string, PodSandboxMetadata) outcome"
  js_ports :: "string \<Rightarrow> (string, PortMapping_spec list) outcome"
  js_nsOpts :: "string \<Rightarrow> (string, string) outcome"
  js_resources :: "string \<Rightarrow> (string, LinuxContainerResources) outcome"
  js_volumes :: "string \<Rightarrow> (string, ContainerVolume list) outcome"
  parse_time :: "string \<Rightarrow> (string, int) outcome"
  parse_bundle_name :: "string \<Rightarrow> (string, string) outcome"
  parse_bundle_id :: "string \<Rightarrow> (string, string) outcome"

record disk =
  d_config :: "string \<Rightarrow> (string, oci_config) outcome"
  d_runDir :: "string \<Rightarrow> (string, string) outcome"
  d_dir :: "string \<Rightarrow> (string, string) outcome"
  d_fromDisk :: "Container \<Rightarrow> (string, Container) outcome"
  d_toDisk :: "Container \<Rightarrow> (string, Container) outcome"
  d_getNamespace :: "string \<Rightarrow> nstype \<Rightarrow> string + Namespace"
  d_fs :: "string set"

definition crio_ann :: "oci_config \<Rightarrow> string \<Rightarrow> string" where
  "crio_ann m k = get_or '''' (m_ann m) (''io.kubernetes.cri-o.'' @ k)"

definition crio_ann_opt :: "oci_config \<Rightarrow> string \<Rightarrow> string option" where
  "crio_ann_opt m k = m_ann m (''io.kubernetes.cri-o.'' @ k)"

definition isTrue :: "string \<Rightarrow> bool" where
  "isTrue a = (a = ''true'')"

definition restoreVolumes :: "codecs \<Rightarrow> oci_config \<Rightarrow> Container \<Rightarrow> (string, Container) outcome" where
  "restoreVolumes js m ctr =
     (if crio_ann m ''Volumes'' \<noteq> ''''
      then outcome_bind (js_volumes js (crio_ann m ''Volumes''))
             (\<lambda>vs. Ok (foldl (\<lambda>c v. AddVolume v c) ctr vs))
      else Ok ctr)"

definition configNsPath :: "oci_config \<Rightarrow> nstype \<Rightarrow> string option" where
  "configNsPath m t =
     (case find (\<lambda>(t', _). t' = t) (m_nsPaths m) of
        None \<Rightarrow> None | Some (_, p) \<Rightarrow> if p = '''' then None else Some p)"

section \<open>Containers\<close>

definition load_image_name :: "codecs \<Rightarrow> oci_config \<Rightarrow> (string, string option) outcome" where
  "load_image_name js m =
     (case crio_ann_opt m ''ImageName'' of
        None \<Rightarrow> Ok None
      | Some s \<Rightarrow> if s = '''' then Ok None else outcome_bind (parse_bundle_name js s) (\<lambda>n. Ok (Some n)))"

definition load_image_id :: "codecs \<Rightarrow> oci_config \<Rightarrow> (string, string option) outcome" where
  "load_image_id js m =
     (case crio_ann_opt m ''ImageRef'' of
        None \<Rightarrow> Ok None | Some s \<Rightarrow> outcome_bind (parse_bundle_id js s) (\<lambda>i. Ok (Some i)))"

text \<open>From the metadata to the container ready to be filed.\<close>

definition load_container_object :: "codecs \<Rightarrow> disk \<Rightarrow> string \<Rightarrow> string \<Rightarrow> oci_config \<Rightarrow> str_map \<Rightarrow> ContainerServer \<Rightarrow>
    (string, Container) outcome" where
  "load_container_object js d i name m labels c =
     outcome_bind (js_metadata js (crio_ann m ''Metadata'')) (\<lambda>metadata.
     case GetSandbox_cs (crio_ann m ''SandboxID'') c of
       None \<Rightarrow> Err (''could not get sandbox with id '' @ crio_ann m ''SandboxID'' @ '', skipping'')
     | Some sb \<Rightarrow>
         outcome_bind (d_runDir d i) (\<lambda>containerPath.
         outcome_bind (d_dir d i) (\<lambda>containerDir.
         outcome_bind (load_image_name js m) (\<lambda>someName.
         outcome_bind (load_image_id js m) (\<lambda>imgID.
         outcome_bind (js_map js (crio_ann m ''Annotations'')) (\<lambda>kubeAnnotations.
         outcome_bind (parse_time js (crio_ann m ''Created'')) (\<lambda>created.
         outcome_bind (restoreVolumes js m
             (NewContainer i name containerPath (crio_ann m ''LogPath'') labels (m_ann m) kubeAnnotations
                (crio_ann m ''Image'') someName imgID '''' (Some metadata) (sb_ID sb)
                (isTrue (crio_ann m ''TTY'')) (isTrue (crio_ann m ''Stdin'')) (isTrue (crio_ann m ''StdinOnce''))
                (sb_runtimeHandler sb) containerDir created (get_or '''' (m_ann m) ''org.opencontainers.image.stopSignal'')))
           (\<lambda>ctr.
         outcome_bind (d_fromDisk d (SetSeccompProfilePath (crio_ann m ''SeccompProfilePath'')
             (SetMountPoint (crio_ann m ''MountPoint'') (SetSpec (m_spec m) ctr)))) (\<lambda>ctr1.
         outcome_bind (d_toDisk d ctr1) (\<lambda>ctr2.
         Ok (SetRuntimePathForPlatform (crio_ann m ''PlatformRuntimePath'') (SetCreated ctr2))))))))))))"

definition LoadContainer :: "codecs \<Rightarrow> disk \<Rightarrow> string \<Rightarrow> ContainerServer \<Rightarrow> ContainerServer \<times> (string, unit) outcome" where
  "LoadContainer js d i c =
     (case d_config d i of
        Err e \<Rightarrow> (c, Err e) | Panic \<Rightarrow> (c, Panic)
      | Ok m \<Rightarrow>
          if (case m_ann m ''io.container.manager'' of None \<Rightarrow> False | Some v \<Rightarrow> v \<noteq> ''cri-o'')
          then (c, Err ''non CRI-O container'')
          else case js_map js (crio_ann m ''Labels'') of
            Err e \<Rightarrow> (c, Err e) | Panic \<Rightarrow> (c, Panic)
          | Ok labels \<Rightarrow>
              (let name = crio_ann m ''Name''
               in case ReserveContainerName i name c of
                    (c1, Some _) \<Rightarrow> (c1, Err ''error reserving ctr name'')
                  | (c1, None) \<Rightarrow>
                      (case load_container_object js d i name m labels c1 of
                         Err e \<Rightarrow> (ReleaseContainerName name c1, Err e)
                       | Panic \<Rightarrow> (c1, Panic)
                       | Ok ctr \<Rightarrow>
                           (let c2 = AddContainer ctr c1
                            in case trunc_Add i (ctrIDIndex c2) of
                                 (ix, None) \<Rightarrow> (c2\<lparr>ctrIDIndex := ix\<rparr>, Ok ())
                               | (ix, Some _) \<Rightarrow> (ReleaseContainerName name (c2\<lparr>ctrIDIndex := ix\<rparr>), Err ''index'')))))"

section \<open>Pods\<close>

definition load_optional_resources :: "codecs \<Rightarrow> string option \<Rightarrow> (string, LinuxContainerResources) outcome" where
  "load_optional_resources js a = (case a of None \<Rightarrow> Ok zero_resources | Some v \<Rightarrow> js_resources js v)"

text \<open>\<^verbatim>\<open>filepath.Dir\<close> of a clean path.\<close>

definition dirname :: "string \<Rightarrow> string" where
  "dirname p =
     (if CHR ''/'' \<notin> set p then ''.''
      else let q = rev (drop 1 (dropWhile (\<lambda>ch. ch \<noteq> CHR ''/'') (rev p))) in if q = '''' then ''/'' else q)"

text \<open>From the metadata to the built pod, with the creation time.\<close>

definition load_sandbox_object :: "codecs \<Rightarrow> string \<Rightarrow> string \<Rightarrow> oci_config \<Rightarrow> str_map \<Rightarrow> (string, Sandbox \<times> int \<times> str_map) outcome" where
  "load_sandbox_object js i name m labels =
     outcome_bind (js_podMetadata js (crio_ann m ''Metadata'')) (\<lambda>metadata.
     case (m_SelinuxLabel m, m_MountLabel m) of
       (Some procLabel, Some mntLabel) \<Rightarrow>
         outcome_bind (js_map js (crio_ann m ''Annotations'')) (\<lambda>kubeAnnotations.
         outcome_bind (js_ports js (crio_ann m ''PortMappings'')) (\<lambda>ports.
         outcome_bind (js_nsOpts js (crio_ann m ''NamespaceOptions'')) (\<lambda>nsopts.
         outcome_bind (parse_time js (crio_ann m ''Created'')) (\<lambda>created.
         outcome_bind (SetCRISandbox i labels kubeAnnotations (Some metadata)
             (NewBuilder\<lparr>sandboxRef := Some (fold set_field [FName name, FProcessLabel procLabel, FMountLabel mntLabel, FCreatedAt created]
                (builder_SetID i zero_Sandbox))\<rparr>)) (\<lambda>b.
         outcome_bind (load_optional_resources js (crio_ann_opt m ''PodLinuxOverhead'')) (\<lambda>overhead.
         outcome_bind (load_optional_resources js (crio_ann_opt m ''PodLinuxResources'')) (\<lambda>res.
         outcome_bind (GetSandbox (b\<lparr>sandboxRef := map_option (fold set_field
              [FLogDir (dirname (crio_ann m ''LogPath'')), FContainers New_store, FShmPath (crio_ann m ''ShmPath''),
               FCgroupParent (crio_ann m ''CgroupParent''), FPrivileged (isTrue (crio_ann m ''PrivilegedRuntime'')),
               FRuntimeHandler (crio_ann m ''RuntimeHandler''), FResolvPath (crio_ann m ''ResolvPath''),
               FHostname (crio_ann m ''HostName''), FPortMappings ports, FHostNetwork (isTrue (crio_ann m ''HostNetwork'')),
               FUsernsMode (crio_ann m ''userns-mode''), FPodLinuxOverhead (Some overhead), FPodLinuxResources (Some res),
               FHostnamePath (crio_ann m ''HostnamePath''), FNamespaceOptions (Some nsopts),
               FSeccompProfilePath (crio_ann m ''SeccompProfilePath''), FCreatedAt created]) (sandboxRef b)\<rparr>)) (\<lambda>(_, sb).
         Ok (sb, created, kubeAnnotations)))))))))
     | _ \<Rightarrow> Panic)"

definition load_infra_container :: "codecs \<Rightarrow> string \<Rightarrow> string \<Rightarrow> oci_config \<Rightarrow> str_map \<Rightarrow> str_map \<Rightarrow> Sandbox \<Rightarrow> int \<Rightarrow> string \<Rightarrow> string \<Rightarrow>
    (string, Container) outcome" where
  "load_infra_container js i cname m labels kubeAnnotations sb created sandboxPath sandboxDir =
     (let cID = crio_ann m ''ContainerID'';
          ctr = (if crio_ann_opt m ''Spoofed'' = Some ''true''
                 then NewSpoofedContainer cID cname labels i created sandboxPath
                 else NewContainer cID cname sandboxPath (crio_ann m ''LogPath'') labels (m_ann m) kubeAnnotations
                        (crio_ann m ''Image'') None None '''' None i False False False (sb_runtimeHandler sb) sandboxDir
                        created (get_or '''' (m_ann m) ''org.opencontainers.image.stopSignal''))
      in restoreVolumes js m (SetMountPoint (crio_ann m ''MountPoint'') (SetSpec (m_spec m) ctr)))"

fun join_namespaces :: "disk \<Rightarrow> oci_config \<Rightarrow> (nstype \<times> (string \<Rightarrow> Sandbox \<Rightarrow> Sandbox \<times> string option)) list \<Rightarrow> Sandbox \<Rightarrow>
    Sandbox \<times> string option" where
  "join_namespaces d m [] sb = (sb, None)"
| "join_namespaces d m ((t, join) # js) sb =
     (case configNsPath m t of
        None \<Rightarrow> join_namespaces d m js sb
      | Some p \<Rightarrow> (case join p sb of
                    (sb', Some e) \<Rightarrow> (sb', Some e) | (sb', None) \<Rightarrow> join_namespaces d m js sb'))"

definition namespacesToJoin :: "disk \<Rightarrow> (nstype \<times> (string \<Rightarrow> Sandbox \<Rightarrow> Sandbox \<times> string option)) list" where
  "namespacesToJoin d = [(NETNS, NetNsJoin (d_getNamespace d)), (IPCNS, IpcNsJoin (d_getNamespace d)),
     (UTSNS, UtsNsJoin (d_getNamespace d)), (USERNS, UserNsJoin (d_getNamespace d))]"

text \<open>The result of a step after the pod has been added: the server and the pod as they are,
  and the error, if any.\<close>

type_synonym load_result = "ContainerServer \<times> Sandbox \<times> (string, unit) outcome"

definition load_infra_steps :: "codecs \<Rightarrow> disk \<Rightarrow> string \<Rightarrow> oci_config \<Rightarrow> str_map \<Rightarrow> str_map \<Rightarrow> int \<Rightarrow> string \<Rightarrow> string \<Rightarrow> string \<Rightarrow>
    Sandbox \<Rightarrow> ContainerServer \<Rightarrow> load_result" where
  "load_infra_steps js d i m labels kubeAnnotations created sandboxPath sandboxDir cname sb c =
     (case load_infra_container js i cname m labels kubeAnnotations sb created sandboxPath sandboxDir of
        Err e \<Rightarrow> (c, sb, Err e) | Panic \<Rightarrow> (c, sb, Panic)
      | Ok ctr \<Rightarrow>
          (case SetInfraContainer (Some ctr) sb of
             (sb1, Some e) \<Rightarrow> (c, sb1, Err e)
           | (sb1, None) \<Rightarrow>
               (let c1 = AddInfraContainer ctr c
                in case RestoreStopped sb1 (d_fs d) of
                     Err _ \<Rightarrow> (c1, sb1, Panic) | Panic \<Rightarrow> (c1, sb1, Panic)
                   | Ok sb2 \<Rightarrow>
                       (case join_namespaces d m (namespacesToJoin d) sb2 of
                          (sb3, Some e) \<Rightarrow> (c1, sb3, Err e)
                        | (sb3, None) \<Rightarrow>
                            (case outcome_bind (d_fromDisk d ctr) (d_toDisk d) of
                               Err e \<Rightarrow> (c1, sb3, Err e) | Panic \<Rightarrow> (c1, sb3, Panic)
                             | Ok ctr' \<Rightarrow>
                                 (let sb4 = sb_SetCreated (sb3\<lparr>infraContainer := Some ctr'\<rparr>)
                                  in case trunc_Add (ID ctr') (ctrIDIndex c1) of
                                       (ix, Some _) \<Rightarrow> (c1\<lparr>ctrIDIndex := ix\<rparr>, sb4, Err ''index'')
                                     | (ix, None) \<Rightarrow>
                                         (let c2 = c1\<lparr>ctrIDIndex := ix\<rparr>
                                          in case trunc_Add i (podIDIndex c2) of
                                               (px, None) \<Rightarrow> (c2\<lparr>podIDIndex := px\<rparr>, sb4, Ok ())
                                             | (px, Some _) \<Rightarrow>
                                                 (c2\<lparr>podIDIndex := px, ctrIDIndex := fst (trunc_Delete (ID ctr') (ctrIDIndex c2))\<rparr>,
                                                  sb4, Err ''index''))))))))"

definition LoadSandbox :: "(string \<Rightarrow> string option) \<Rightarrow> codecs \<Rightarrow> disk \<Rightarrow> string \<Rightarrow> ContainerServer \<Rightarrow>
    ContainerServer \<times> (string, Sandbox) outcome" where
  "LoadSandbox level_of js d i c =
     (case d_config d i of
        Err e \<Rightarrow> (c, Err e) | Panic \<Rightarrow> (c, Panic)
      | Ok m \<Rightarrow>
          (case js_map js (crio_ann m ''Labels'') of
             Err e \<Rightarrow> (c, Err e) | Panic \<Rightarrow> (c, Panic)
           | Ok labels \<Rightarrow>
               (let name = crio_ann m ''Name''
                in case ReservePodName i name c of
                     (c1, Some _) \<Rightarrow> (c1, Err ''error reserving pod name'')
                   | (c1, None) \<Rightarrow>
                       (case load_sandbox_object js i name m labels of
                          Err e \<Rightarrow> (ReleasePodName name c1, Err e) | Panic \<Rightarrow> (c1, Panic)
                        | Ok (sb, created, kubeAnnotations) \<Rightarrow>
                            (case AddSandbox level_of sb c1 of
                               (c2, Some e) \<Rightarrow> (ReleasePodName name c2, Err e)
                             | (c2, None) \<Rightarrow>
                                 (let undo = (\<lambda>c'. ReleasePodName name (fst (RemoveSandbox level_of (sb_ID sb) c')))
                                  in case outcome_bind (d_runDir d i) (\<lambda>p. outcome_bind (d_dir d i) (\<lambda>q. Ok (p, q))) of
                                       Err e \<Rightarrow> (undo c2, Err e) | Panic \<Rightarrow> (c2, Panic)
                                     | Ok (sandboxPath, sandboxDir) \<Rightarrow>
                                         (case ReserveContainerName (crio_ann m ''ContainerID'') (crio_ann m ''ContainerName'') c2 of
                                            (c3, Some _) \<Rightarrow> (undo c3, Err ''error reserving ctr name'')
                                          | (c3, None) \<Rightarrow>
                                              (case load_infra_steps js d i m labels kubeAnnotations created sandboxPath sandboxDir
                                                      (crio_ann m ''ContainerName'') sb c3 of
                                                 (c4, sb', Ok _) \<Rightarrow> (put_sandbox (sb_ID sb) sb' c4, Ok sb')
                                               | (c4, sb', Err e) \<Rightarrow>
                                                   (undo (ReleaseContainerName (crio_ann m ''ContainerName'') (put_sandbox (sb_ID sb) sb' c4)), Err e)
                                               | (c4, sb', Panic) \<Rightarrow> (put_sandbox (sb_ID sb) sb' c4, Panic))))))))) "

end
