(* ===== verification/Host_Files.thy ===== *)
theory Host_Files
  imports Prelude
begin

text \<open>
  The files of the host as the hooks use them through the package \<^verbatim>\<open>os\<close>: their contents by
  path, the directories, and the paths on which the kernel refuses an operation. A write
  that fails leaves the file as it was. The commands the hooks run are recorded in order.
\<close>

section \<open>Files and commands\<close>

datatype file_error = FileNotExist | FileFailed

datatype command = RunOneshot string | RestartService

datatype node = File string | Dir

record host =
  hf_nodes :: "string \<rightharpoonup> node"
  hf_unreadable :: "string \<Rightarrow> bool"
  hf_readonly :: "string \<Rightarrow> bool"
  hf_unstatable :: "string \<Rightarrow> bool"
  hf_runs :: "command list"

definition path_parent :: "string \<Rightarrow> string" where
  "path_parent p = rev (drop 1 (dropWhile (\<lambda>c. c \<noteq> CHR ''/'') (rev p)))"

definition os_ReadFile :: "string \<Rightarrow> host \<Rightarrow> file_error + string" where
  "os_ReadFile p h =
     (case hf_nodes h p of
        None \<Rightarrow> Inl FileNotExist
      | Some Dir \<Rightarrow> Inl FileFailed
      | Some (File c) \<Rightarrow> if hf_unreadable h p then Inl FileFailed else Inr c)"

definition os_WriteFile :: "string \<Rightarrow> string \<Rightarrow> host \<Rightarrow> host \<times> file_error option" where
  "os_WriteFile p c h =
     (if hf_readonly h p \<or> hf_nodes h p = Some Dir then (h, Some FileFailed)
      else if hf_nodes h p = None \<and> hf_nodes h (path_parent p) \<noteq> Some Dir then (h, Some FileNotExist)
      else (h\<lparr>hf_nodes := (hf_nodes h)(p \<mapsto> File c)\<rparr>, None))"

text \<open>The directory and all above it; none of them may be a file.\<close>

definition is_file :: "node option \<Rightarrow> bool" where
  "is_file n = (case n of Some (File _) \<Rightarrow> True | _ \<Rightarrow> False)"

definition path_ancestors :: "string \<Rightarrow> string list" where
  "path_ancestors p = map (\<lambda>k. take k p) (filter (\<lambda>k. p ! k = CHR ''/'') [0..<length p])"

definition os_MkdirAll :: "string \<Rightarrow> host \<Rightarrow> host \<times> file_error option" where
  "os_MkdirAll p h =
     (if hf_nodes h p = Some Dir then (h, None)
      else if hf_readonly h p \<or> list_ex (\<lambda>d. is_file (hf_nodes h d)) (p # path_ancestors p) then (h, Some FileFailed)
      else (h\<lparr>hf_nodes := (\<lambda>d. if d \<in> set (p # path_ancestors p) then Some Dir else hf_nodes h d)\<rparr>, None))"

definition os_Remove :: "string \<Rightarrow> host \<Rightarrow> host \<times> file_error option" where
  "os_Remove p h =
     (if hf_nodes h p = None then (h, Some FileNotExist)
      else if hf_readonly h p \<or> hf_nodes h p = Some Dir then (h, Some FileFailed)
      else (h\<lparr>hf_nodes := (hf_nodes h)(p := None)\<rparr>, None))"

text \<open>\<^verbatim>\<open>fileExists\<close> of the hooks: only an absent file is expected to fail, and on any other error
  the missing file information is dereferenced.\<close>

definition fileExists :: "string \<Rightarrow> host \<Rightarrow> bool reply" where
  "fileExists p h = (if hf_unstatable h p then Crash else Reply (is_file (hf_nodes h p)))"

text \<open>An operation on the host, and operations one after the other: the first that does not
  return a value ends the sequence.\<close>

type_synonym 'a io = "host \<Rightarrow> host \<times> 'a reply"

definition io_return :: "'a \<Rightarrow> 'a io" where
  "io_return a h = (h, Reply a)"

definition io_fail :: "string \<Rightarrow> 'a io" where
  "io_fail e h = (h, Fail e)"

definition io_reply :: "'a reply \<Rightarrow> 'a io" where
  "io_reply r h = (h, r)"

definition io_bind :: "'a io \<Rightarrow> ('a \<Rightarrow> 'b io) \<Rightarrow> 'b io" where
  "io_bind m f h =
     (case m h of (h', Reply a) \<Rightarrow> f a h' | (h', Fail e) \<Rightarrow> (h', Fail e)
      | (h', Crash) \<Rightarrow> (h', Crash) | (h', Hang) \<Rightarrow> (h', Hang))"

definition io_seq :: "'a io \<Rightarrow> 'b io \<Rightarrow> 'b io" where
  "io_seq m n = io_bind m (\<lambda>_. n)"

text \<open>\<^verbatim>\<open>if c \{ if err := m; err != nil \{ return err \} \}\<close>.\<close>

definition io_when :: "bool \<Rightarrow> unit io \<Rightarrow> unit io" where
  "io_when c m = (if c then m else io_return ())"

definition file_error_text :: "file_error \<Rightarrow> string" where
  "file_error_text e = (case e of FileNotExist \<Rightarrow> ''no such file or directory'' | FileFailed \<Rightarrow> ''operation failed'')"

definition io_read :: "string \<Rightarrow> string io" where
  "io_read p h = (h, case os_ReadFile p h of Inl e \<Rightarrow> Fail (file_error_text e) | Inr c \<Rightarrow> Reply c)"

text \<open>From an operation with an optional error.\<close>

definition io_step :: "(host \<Rightarrow> host \<times> file_error option) \<Rightarrow> unit io" where
  "io_step f h = (case f h of (h', None) \<Rightarrow> (h', Reply ()) | (h', Some e) \<Rightarrow> (h', Fail (file_error_text e)))"

definition io_exists :: "string \<Rightarrow> bool io" where
  "io_exists p h = (h, fileExists p h)"

section \<open>Lemmas\<close>

lemma io_bind_Reply_iff:
  "io_bind m f h = (h', Reply b) \<longleftrightarrow> (\<exists>h1 a. m h = (h1, Reply a) \<and> f a h1 = (h', Reply b))"
  by (auto simp: io_bind_def split: prod.splits reply.splits)

lemma io_seq_Reply_iff:
  "io_seq m n h = (h', Reply b) \<longleftrightarrow> (\<exists>h1 a. m h = (h1, Reply a) \<and> n h1 = (h', Reply b))"
  by (simp add: io_seq_def io_bind_Reply_iff)

lemma io_ends_iff:
  "io_return a h = (h', Reply b) \<longleftrightarrow> h' = h \<and> b = a"
  "io_fail e h = (h', Reply b) \<longleftrightarrow> False"
  "io_reply r h = (h', Reply b) \<longleftrightarrow> h' = h \<and> r = Reply b"
  "io_read p h = (h', Reply s) \<longleftrightarrow> h' = h \<and> os_ReadFile p h = Inr s"
  "io_step f h = (h', Reply u) \<longleftrightarrow> f h = (h', None)"
  by (auto simp: io_return_def io_fail_def io_reply_def io_read_def io_step_def split: sum.splits prod.splits option.splits)

lemmas io_success = io_bind_Reply_iff io_seq_Reply_iff io_ends_iff


text \<open>The contents of the files, and what the operations do to them.\<close>

definition file_of :: "host \<Rightarrow> string \<Rightarrow> string option" where
  "file_of h p = (case hf_nodes h p of Some (File c) \<Rightarrow> Some c | _ \<Rightarrow> None)"

text \<open>The operations leave the permissions of the host alone.\<close>

definition same_rights :: "host \<Rightarrow> host \<Rightarrow> bool" where
  "same_rights h h' = (hf_readonly h' = hf_readonly h \<and> hf_unreadable h' = hf_unreadable h \<and> hf_unstatable h' = hf_unstatable h)"

lemma same_rights_refl [simp]: "same_rights h h"
  by (simp add: same_rights_def)

lemma same_rights_trans [trans]: "same_rights h h' \<Longrightarrow> same_rights h' h'' \<Longrightarrow> same_rights h h''"
  by (simp add: same_rights_def)

lemma os_WriteFile_ok:
  assumes "os_WriteFile p c h = (h', None)"
  shows "file_of h' = (file_of h)(p \<mapsto> c)" and "same_rights h h'" and "\<not> hf_readonly h p"
  using assms by (auto simp: os_WriteFile_def file_of_def same_rights_def fun_eq_iff split: if_splits)

lemma os_WriteFile_existing:
  assumes "file_of h p \<noteq> None" and "\<not> hf_readonly h p"
  shows "\<exists>h'. os_WriteFile p c h = (h', None)"
  using assms by (auto simp: os_WriteFile_def file_of_def split: option.splits node.splits)

lemma os_WriteFile_failed: "os_WriteFile p c h = (h', Some e) \<Longrightarrow> h' = h"
  by (auto simp: os_WriteFile_def split: if_splits)

lemma os_Remove_ok:
  assumes "os_Remove p h = (h', None)"
  shows "file_of h' = (file_of h)(p := None)" and "same_rights h h'"
  using assms by (auto simp: os_Remove_def file_of_def same_rights_def fun_eq_iff split: if_splits)

lemma os_Remove_existing:
  assumes "file_of h p \<noteq> None" and "\<not> hf_readonly h p"
  shows "\<exists>h'. os_Remove p h = (h', None)"
  using assms by (auto simp: os_Remove_def file_of_def split: option.splits node.splits)

lemma os_Remove_failed: "os_Remove p h = (h', Some e) \<Longrightarrow> h' = h"
  by (auto simp: os_Remove_def split: if_splits)

lemma is_file_iff: "is_file (hf_nodes h p) \<longleftrightarrow> file_of h p \<noteq> None"
  by (auto simp: is_file_def file_of_def split: option.splits node.splits)

lemma os_MkdirAll_ok:
  assumes "os_MkdirAll p h = (h', None)"
  shows "file_of h' = file_of h" and "same_rights h h'"
proof -
  have "file_of h' = file_of h \<and> same_rights h h'"
  proof (cases "hf_nodes h p = Some Dir")
    case True
    with assms show ?thesis by (simp add: os_MkdirAll_def)
  next
    case False
    let ?ds = "set (p # path_ancestors p)"
    have h': "h' = h\<lparr>hf_nodes := (\<lambda>d. if d \<in> ?ds then Some Dir else hf_nodes h d)\<rparr>"
      and n: "\<forall>d\<in>?ds. file_of h d = None"
      using assms False by (auto simp: os_MkdirAll_def list_ex_iff is_file_iff split: if_splits)
    have "file_of h' d = (if d \<in> ?ds then None else file_of h d)" for d
      by (simp add: h' file_of_def)
    then show ?thesis using n by (auto simp: fun_eq_iff h' same_rights_def)
  qed
  then show "file_of h' = file_of h" "same_rights h h'" by auto
qed

lemma os_ReadFile_ok_iff:
  "os_ReadFile p h = Inr c \<longleftrightarrow> file_of h p = Some c \<and> \<not> hf_unreadable h p"
  by (auto simp: os_ReadFile_def file_of_def split: option.splits node.splits)

lemma fileExists_iff: "fileExists p h = Reply b \<longleftrightarrow> \<not> hf_unstatable h p \<and> b = (file_of h p \<noteq> None)"
  by (auto simp: fileExists_def file_of_def is_file_def split: option.splits node.splits)

end
