(* ===== verification/Cgroups.thy ===== *)
theory Cgroups
  imports Host_Files
begin

text \<open>
  Control groups (\<^verbatim>\<open>internal/config/cgmgr\<close>): the paths of pods and containers under the two
  managers, the check of the memory of a pod, and the managers of the library cached for
  version 1 of the kernel interface.

  A manager of the library (\<^verbatim>\<open>libcontainer\<close>) is named by what it is made from. What it does
  to the kernel and to systemd is a parameter: whether it can be made, the path of a
  controller, and the operations \<^verbatim>\<open>Set\<close>, \<^verbatim>\<open>Apply\<close> and \<^verbatim>\<open>Destroy\<close>.
\<close>

section \<open>Managers of the library\<close>

datatype manager = Manager (mg_name: string) (mg_parent: string) (mg_systemd: bool)

record cg_resources =
  cr_CpuQuota :: int
  cr_CpusetCpus :: string

definition no_resources :: cg_resources where
  "no_resources = \<lparr>cr_CpuQuota = 0, cr_CpusetCpus = ''''\<rparr>"

record cg_env =
  ce_v2 :: bool
  ce_new :: "manager \<Rightarrow> string option"
  ce_path :: "manager \<Rightarrow> string \<Rightarrow> string"
  ce_Set :: "manager \<Rightarrow> cg_resources \<Rightarrow> unit io"
  ce_Apply :: "manager \<Rightarrow> unit io"
  ce_Destroy :: "manager \<Rightarrow> unit io"

definition new_manager :: "cg_env \<Rightarrow> manager \<Rightarrow> string + manager" where
  "new_manager ce m = (case ce_new ce m of None \<Rightarrow> Inr m | Some e \<Rightarrow> Inl e)"

definition libctrManager :: "cg_env \<Rightarrow> string \<Rightarrow> string \<Rightarrow> bool \<Rightarrow> string + manager" where
  "libctrManager ce cgroup parent systemd =
     new_manager ce (Manager cgroup
       (if systemd then (let b = filepath_Base parent in if b = ''.'' then ''-.slice'' else b) else parent) systemd)"

section \<open>Paths\<close>

definition containerCgroupPath :: "string \<Rightarrow> string" where
  "containerCgroupPath i = ''crio'' @ ''-'' @ i"

text \<open>The components of a slice name, the path so far and the prefix.\<close>

fun expand_components :: "string \<Rightarrow> string \<Rightarrow> string list \<Rightarrow> string option" where
  "expand_components pth pre [] = Some pth"
| "expand_components pth pre (c # cs) =
     (if c = '''' then None
      else expand_components (pth @ ''/'' @ pre @ c @ ''.slice'') (pre @ c @ ''-'') cs)"

definition ExpandSlice :: "string \<Rightarrow> string + string" where
  "ExpandSlice slice =
     (if length slice < length ''.slice'' \<or> \<not> has_suffix slice ''.slice'' then Inl ''invalid slice name''
      else if str_contains slice ''/'' then Inl ''invalid slice name''
      else let sliceName = trim_suffix slice ''.slice''
           in if sliceName = ''-'' then Inr ''/''
              else case expand_components '''' '''' (split_on (CHR ''-'') sliceName) of
                     None \<Rightarrow> Inl ''invalid slice name''
                   | Some p \<Rightarrow> Inr p)"

definition convertCgroupFsNameToSystemd :: "string \<Rightarrow> string" where
  "convertCgroupFsNameToSystemd n = filepath_Base n"

definition sandboxCgroupAbsolutePath :: "string \<Rightarrow> string + string" where
  "sandboxCgroupAbsolutePath sbParent = ExpandSlice (convertCgroupFsNameToSystemd sbParent)"

definition systemd_ContainerCgroupPath :: "string \<Rightarrow> string \<Rightarrow> string" where
  "systemd_ContainerCgroupPath sbParent cid =
     (if sbParent \<noteq> '''' then sbParent else ''system.slice'') @ '':'' @ ''crio'' @ '':'' @ cid"

definition systemd_ContainerCgroupAbsolutePath :: "string \<Rightarrow> string \<Rightarrow> string + string" where
  "systemd_ContainerCgroupAbsolutePath sbParent cid =
     (case ExpandSlice (if sbParent \<noteq> '''' then sbParent else ''system.slice'') of
        Inl e \<Rightarrow> Inl e
      | Inr cgroup \<Rightarrow> Inr (filepath_Join [cgroup, containerCgroupPath cid @ ''.scope'']))"

definition cgroupfs_ContainerCgroupPath :: "string \<Rightarrow> string \<Rightarrow> string" where
  "cgroupfs_ContainerCgroupPath sbParent cid =
     filepath_Join [''/'', if sbParent \<noteq> '''' then sbParent else ''/crio'', containerCgroupPath cid]"

section \<open>The managers\<close>

definition VerifyMemoryIsEnough :: "int \<Rightarrow> int \<Rightarrow> bool" where
  "VerifyMemoryIsEnough memoryLimit minMemory = (\<not> (memoryLimit \<noteq> 0 \<and> memoryLimit < minMemory))"

definition verifyCgroupHasEnoughMemory :: "host \<Rightarrow> string \<Rightarrow> string \<Rightarrow> string \<Rightarrow> int \<Rightarrow> string option" where
  "verifyCgroupHasEnoughMemory h slicePath memorySubsystemPath memoryMaxFilename containerMinMemory =
     (case os_ReadFile (filepath_Join [memorySubsystemPath, slicePath, memoryMaxFilename]) h of
        Inl FileNotExist \<Rightarrow> None
      | Inl FileFailed \<Rightarrow> Some ''unable to read memory file for cgroups''
      | Inr fileData \<Rightarrow>
          let strMemory = rev (dropWhile (\<lambda>c. c = CHR 0x0A) (rev fileData))
          in if strMemory \<noteq> '''' \<and> strMemory \<noteq> ''max''
             then (case atoi strMemory of
                     None \<Rightarrow> Some ''error converting cgroup memory value''
                   | Some memoryLimit \<Rightarrow>
                       if VerifyMemoryIsEnough memoryLimit containerMinMemory then None
                       else Some ''pod set memory limit too low'')
             else None)"

record CgroupManager =
  cm_systemd :: bool
  memoryPath :: string
  memoryMaxFile :: string
  v1CtrCgMgr :: "string \<rightharpoonup> manager"
  v1SbCgMgr :: "string \<rightharpoonup> manager"

definition SetCgroupManager :: "bool \<Rightarrow> string \<Rightarrow> string + CgroupManager" where
  "SetCgroupManager v2 name =
     (if name = ''systemd'' \<or> name = ''cgroupfs'' then
        Inr \<lparr>cm_systemd = (name = ''systemd''),
             memoryPath = (if v2 then ''/sys/fs/cgroup'' else ''/sys/fs/cgroup/memory''),
             memoryMaxFile = (if v2 then ''memory.max'' else ''memory.limit_in_bytes''),
             v1CtrCgMgr = Map.empty, v1SbCgMgr = Map.empty\<rparr>
      else Inl ''invalid cgroup manager'')"

definition ContainerCgroupAbsolutePath :: "CgroupManager \<Rightarrow> string \<Rightarrow> string \<Rightarrow> string + string" where
  "ContainerCgroupAbsolutePath m sbParent cid =
     (if cm_systemd m then systemd_ContainerCgroupAbsolutePath sbParent cid
      else Inr (cgroupfs_ContainerCgroupPath sbParent cid))"

definition systemd_SandboxCgroupPath :: "host \<Rightarrow> CgroupManager \<Rightarrow> string \<Rightarrow> string \<Rightarrow> int \<Rightarrow> string + string \<times> string" where
  "systemd_SandboxCgroupPath h m sbParent sbID minMemory =
     (if sbParent = '''' then Inr ('''', '''')
      else if \<not> has_suffix (filepath_Base sbParent) ''.slice''
      then Inl ''cri-o configured with systemd cgroup manager, but did not receive slice as parent''
      else let cgParent = convertCgroupFsNameToSystemd sbParent
           in case verifyCgroupHasEnoughMemory h sbParent (memoryPath m) (memoryMaxFile m) minMemory of
                Some e \<Rightarrow> Inl e
              | None \<Rightarrow> Inr (cgParent, cgParent @ '':'' @ ''crio'' @ '':'' @ sbID))"

definition cgroupfs_SandboxCgroupPath :: "host \<Rightarrow> CgroupManager \<Rightarrow> string \<Rightarrow> string \<Rightarrow> int \<Rightarrow> string + string \<times> string" where
  "cgroupfs_SandboxCgroupPath h m sbParent sbID minMemory =
     (if has_suffix (filepath_Base sbParent) ''.slice''
      then Inl ''cri-o configured with cgroupfs cgroup manager, but received systemd slice as parent''
      else case verifyCgroupHasEnoughMemory h sbParent (memoryPath m) (memoryMaxFile m) minMemory of
             Some e \<Rightarrow> Inl e
           | None \<Rightarrow> Inr (sbParent, filepath_Join [sbParent, containerCgroupPath sbID]))"

text \<open>The managers of the library for a container and for a pod, from the cache with version 1.\<close>

definition ContainerCgroupManager :: "cg_env \<Rightarrow> string \<Rightarrow> string \<Rightarrow> CgroupManager \<Rightarrow> CgroupManager \<times> (string + manager)" where
  "ContainerCgroupManager ce sbParent cid m =
     (case if ce_v2 ce then None else v1CtrCgMgr m cid of
        Some g \<Rightarrow> (m, Inr g)
      | None \<Rightarrow>
          (case ContainerCgroupAbsolutePath m sbParent cid of
             Inl e \<Rightarrow> (m, Inl e)
           | Inr cgPath \<Rightarrow>
               (case libctrManager ce (if cm_systemd m then cid else filepath_Base cgPath) (filepath_Dir cgPath) (cm_systemd m) of
                  Inl e \<Rightarrow> (m, Inl e)
                | Inr g \<Rightarrow> (if ce_v2 ce then m else m\<lparr>v1CtrCgMgr := (v1CtrCgMgr m)(cid \<mapsto> g)\<rparr>, Inr g))))"

definition RemoveContainerCgManager :: "cg_env \<Rightarrow> string \<Rightarrow> CgroupManager \<Rightarrow> CgroupManager" where
  "RemoveContainerCgManager ce cid m = (if ce_v2 ce then m else m\<lparr>v1CtrCgMgr := map_delete cid (v1CtrCgMgr m)\<rparr>)"

definition SandboxCgroupManager :: "cg_env \<Rightarrow> string \<Rightarrow> string \<Rightarrow> CgroupManager \<Rightarrow> CgroupManager \<times> (string + manager)" where
  "SandboxCgroupManager ce sbParent sbID m =
     (case if ce_v2 ce then None else v1SbCgMgr m sbID of
        Some g \<Rightarrow> (m, Inr g)
      | None \<Rightarrow>
          (case sandboxCgroupAbsolutePath sbParent of
             Inl e \<Rightarrow> (m, Inl e)
           | Inr cgPath \<Rightarrow>
               (case libctrManager ce (filepath_Base cgPath) (filepath_Dir cgPath) (cm_systemd m) of
                  Inl e \<Rightarrow> (m, Inl e)
                | Inr g \<Rightarrow> (if ce_v2 ce then m else m\<lparr>v1SbCgMgr := (v1SbCgMgr m)(sbID \<mapsto> g)\<rparr>, Inr g))))"

definition RemoveSandboxCgManager :: "cg_env \<Rightarrow> string \<Rightarrow> CgroupManager \<Rightarrow> CgroupManager" where
  "RemoveSandboxCgManager ce sbID m = (if ce_v2 ce then m else m\<lparr>v1SbCgMgr := map_delete sbID (v1SbCgMgr m)\<rparr>)"

section \<open>The group of a pod\<close>

text \<open>\<^verbatim>\<open>cgroups.WriteFile\<close> and \<^verbatim>\<open>cgroups.ReadFile\<close>, which refuse an empty directory.\<close>

definition cg_read :: "string \<Rightarrow> string \<Rightarrow> string io" where
  "cg_read dir file = (if dir = '''' then io_fail ''no directory specified'' else io_read (dir @ ''/'' @ file))"

definition cg_write :: "string \<Rightarrow> string \<Rightarrow> string \<Rightarrow> unit io" where
  "cg_write dir file c = (if dir = '''' then io_fail ''no directory specified'' else io_step (os_WriteFile (dir @ ''/'' @ file) c))"

definition io_sum :: "string + 'a \<Rightarrow> 'a io" where
  "io_sum r h = (h, case r of Inl e \<Rightarrow> Fail e | Inr a \<Rightarrow> Reply a)"

definition mkdir_unless_missing :: "string \<Rightarrow> unit io" where
  "mkdir_unless_missing p h =
     (case os_MkdirAll p h of (h', Some FileFailed) \<Rightarrow> (h', Fail ''failed to create cpuset'') | (h', _) \<Rightarrow> (h', Reply ()))"

definition createSandboxCgroup :: "cg_env \<Rightarrow> string \<Rightarrow> string \<Rightarrow> unit io" where
  "createSandboxCgroup ce sbParent containerCgroup =
     io_bind (io_sum (new_manager ce (Manager containerCgroup sbParent False))) (\<lambda>mgr.
       io_seq (io_when (\<not> ce_v2 ce)
         (let p = ce_path ce mgr ''cpuset''
          in if p = '''' then io_fail ''failed to find cpuset for newly created cgroup''
             else io_seq (mkdir_unless_missing p) (cg_write p ''cpuset.sched_load_balance'' ''0'')))
         (ce_Apply ce mgr))"

definition removeSandboxCgroup :: "cg_env \<Rightarrow> string \<Rightarrow> string \<Rightarrow> unit io" where
  "removeSandboxCgroup ce sbParent containerCgroup =
     io_bind (io_sum (new_manager ce (Manager containerCgroup sbParent False))) (ce_Destroy ce)"

definition CreateSandboxCgroup :: "cg_env \<Rightarrow> CgroupManager \<Rightarrow> string \<Rightarrow> string \<Rightarrow> unit io" where
  "CreateSandboxCgroup ce m sbParent cid =
     (if cm_systemd m
      then (if sbParent = '''' then io_return ()
            else io_bind (io_sum (ExpandSlice sbParent)) (\<lambda>p. createSandboxCgroup ce p (containerCgroupPath cid)))
      else createSandboxCgroup ce (filepath_Join [''/'', sbParent]) (containerCgroupPath cid))"

definition RemoveSandboxCgroup :: "cg_env \<Rightarrow> CgroupManager \<Rightarrow> string \<Rightarrow> string \<Rightarrow> unit io" where
  "RemoveSandboxCgroup ce m sbParent cid =
     (if cm_systemd m
      then (if sbParent = '''' then io_return ()
            else io_bind (io_sum (ExpandSlice sbParent)) (\<lambda>p. removeSandboxCgroup ce p (containerCgroupPath cid)))
      else removeSandboxCgroup ce (filepath_Join [''/'', sbParent]) (containerCgroupPath cid))"

section \<open>Laws\<close>

lemma has_suffix_iff: "has_suffix s p \<longleftrightarrow> (\<exists>u. s = u @ p)"
proof -
  have "has_suffix s p \<longleftrightarrow> (\<exists>v. rev s = rev p @ v)"
    unfolding has_suffix_def has_prefix_iff prefix_def by blast
  also have "\<dots> \<longleftrightarrow> (\<exists>u. s = u @ p)"
    by (metis rev_append rev_rev_ident)
  finally show ?thesis .
qed

text \<open>What the expansion of a slice gives ends with the slice itself.\<close>

lemma expand_components_last:
  "expand_components pth pre cs = Some p \<Longrightarrow> cs \<noteq> [] \<Longrightarrow>
    \<exists>q. p = q @ ''/'' @ pre @ join_with ''-'' cs @ ''.slice''"
proof (induction cs arbitrary: pth pre rule: induct_list012)
  case (3 c d cs)
  then show ?case
    using 3(2) [of "pth @ ''/'' @ pre @ c @ ''.slice''" "pre @ c @ ''-''"] by (auto split: if_splits)
qed (auto split: if_splits)

lemma filepath_Base_slash:
  assumes "w \<noteq> ''''" and "CHR ''/'' \<notin> set w"
  shows "filepath_Base (q @ ''/'' @ w) = w"
proof -
  have l: "last w \<noteq> CHR ''/''" using assms by (metis last_in_set)
  then have d: "rev (dropWhile (\<lambda>ch. ch = CHR ''/'') (rev (q @ ''/'' @ w))) = q @ ''/'' @ w"
    using assms(1) by (cases w rule: rev_cases) auto
  have "split_on (CHR ''/'') (q @ CHR ''/'' # w) = split_on (CHR ''/'') q @ [w]"
    by (simp only: split_on_append split_on_no_sep [OF assms(2)])
  with d show ?thesis by (simp add: filepath_Base_def Let_def)
qed

text \<open>The name of a slice is the base of its path: the conversion undoes the expansion.\<close>

lemma convert_ExpandSlice:
  assumes "ExpandSlice s = Inr p" and "s \<noteq> ''-.slice''"
  shows "convertCgroupFsNameToSystemd p = s"
proof -
  obtain n where n: "s = n @ ''.slice''"
    using assms(1) by (auto simp: ExpandSlice_def has_suffix_iff split: if_splits)
  have t: "trim_suffix s ''.slice'' = n"
    using n by (simp add: trim_suffix_def has_suffix_iff)
  have sl: "CHR ''/'' \<notin> set s"
  proof
    assume "CHR ''/'' \<in> set s"
    then have "str_contains s ''/''" unfolding str_contains_iff by (metis append_Cons append_Nil split_list)
    then show False using assms(1) by (simp add: ExpandSlice_def split: if_splits)
  qed
  have "n \<noteq> ''-''" using assms(2) n by auto
  then have "expand_components '''' '''' (split_on (CHR ''-'') n) = Some p"
    using assms(1) by (simp add: ExpandSlice_def t Let_def split: if_splits option.splits)
  then obtain q where "p = q @ ''/'' @ s"
    using expand_components_last [of "''''" "''''" "split_on (CHR ''-'') n" p] by (auto simp: join_split_on n)
  then show ?thesis
    using filepath_Base_slash [OF _ sl, of q] n by (simp add: convertCgroupFsNameToSystemd_def)
qed

text \<open>A manager stays in the cache until it is removed.\<close>

lemma ContainerCgroupManager_cached:
  assumes "ContainerCgroupManager ce p i m = (m', Inr g)" and "\<not> ce_v2 ce"
  shows "ContainerCgroupManager ce p' i m' = (m', Inr g)"
  using assms by (auto simp: ContainerCgroupManager_def split: option.splits sum.splits)

lemma RemoveContainerCgManager_forgets:
  "\<not> ce_v2 ce \<Longrightarrow> v1CtrCgMgr (RemoveContainerCgManager ce i m) i = None"
  by (simp add: RemoveContainerCgManager_def)

text \<open>The parents of the pods that the cgroupfs manager accepts are those it cannot make a
  manager for: it expands them as slices.\<close>

lemma ExpandSlice_no_slice: "\<not> has_suffix s ''.slice'' \<Longrightarrow> \<exists>e. ExpandSlice s = Inl e"
  by (simp add: ExpandSlice_def)

lemma cgroupfs_pod_manager_fails:
  assumes "cgroupfs_SandboxCgroupPath h m sbParent sbID minMemory = Inr r" and "v1SbCgMgr m sbID = None"
  shows "\<exists>e. SandboxCgroupManager ce sbParent sbID m = (m, Inl e)"
proof -
  have "\<not> has_suffix (filepath_Base sbParent) ''.slice''"
    using assms(1) by (auto simp: cgroupfs_SandboxCgroupPath_def split: if_splits)
  then obtain e where "sandboxCgroupAbsolutePath sbParent = Inl e"
    using ExpandSlice_no_slice by (force simp: sandboxCgroupAbsolutePath_def convertCgroupFsNameToSystemd_def)
  then show ?thesis using assms(2) by (simp add: SandboxCgroupManager_def)
qed

end
