(* ===== verification/Annotations.thy ===== *)
theory Annotations
  imports Prelude
begin

text \<open>
  The annotation keys that change how the server treats a pod
  (\<^verbatim>\<open>pkg/annotations/annotations.go\<close>), and the filter that removes from the annotations of a
  pod those its runtime handler and its workload do not allow
  (\<^verbatim>\<open>validateAllowedAndGenerateDisallowedAnnotations\<close> of \<^verbatim>\<open>pkg/config/config.go\<close> and
  \<^verbatim>\<open>FilterDisallowedAnnotations\<close> of \<^verbatim>\<open>pkg/config/workloads.go\<close>).
\<close>

section \<open>Keys\<close>

definition CPULoadBalancingAnnotation :: string where
  "CPULoadBalancingAnnotation = ''cpu-load-balancing.crio.io''"

definition CPUQuotaAnnotation :: string where
  "CPUQuotaAnnotation = ''cpu-quota.crio.io''"

definition IRQLoadBalancingAnnotation :: string where
  "IRQLoadBalancingAnnotation = ''irq-load-balancing.crio.io''"

definition CPUCStatesAnnotation :: string where
  "CPUCStatesAnnotation = ''cpu-c-states.crio.io''"

definition CPUFreqGovernorAnnotation :: string where
  "CPUFreqGovernorAnnotation = ''cpu-freq-governor.crio.io''"

definition CPUSharedAnnotation :: string where
  "CPUSharedAnnotation = ''cpu-shared.crio.io''"

definition OCISeccompBPFHookAnnotation :: string where
  "OCISeccompBPFHookAnnotation = ''io.containers.trace-syscall''"

definition UsernsModeAnnotation :: string where
  "UsernsModeAnnotation = ''io.kubernetes.cri-o.userns-mode''"

definition Cgroup2RWAnnotation :: string where
  "Cgroup2RWAnnotation = ''io.kubernetes.cri-o.cgroup2-mount-hierarchy-rw''"

definition UnifiedCgroupAnnotation :: string where
  "UnifiedCgroupAnnotation = ''io.kubernetes.cri-o.UnifiedCgroup''"

definition ShmSizeAnnotation :: string where
  "ShmSizeAnnotation = ''io.kubernetes.cri-o.ShmSize''"

definition DevicesAnnotation :: string where
  "DevicesAnnotation = ''io.kubernetes.cri-o.Devices''"

definition RdtContainerAnnotation :: string where
  "RdtContainerAnnotation = ''io.kubernetes.cri.rdt-class''"

definition TrySkipVolumeSELinuxLabelAnnotation :: string where
  "TrySkipVolumeSELinuxLabelAnnotation = ''io.kubernetes.cri-o.TrySkipVolumeSELinuxLabel''"

definition SeccompNotifierActionAnnotation :: string where
  "SeccompNotifierActionAnnotation = ''io.kubernetes.cri-o.seccompNotifierAction''"

definition UmaskAnnotation :: string where
  "UmaskAnnotation = ''io.kubernetes.cri-o.umask''"

definition PodLinuxOverheadAnnotation :: string where
  "PodLinuxOverheadAnnotation = ''io.kubernetes.cri-o.PodLinuxOverhead''"

definition PodLinuxResourcesAnnotation :: string where
  "PodLinuxResourcesAnnotation = ''io.kubernetes.cri-o.PodLinuxResources''"

definition LinkLogsAnnotation :: string where
  "LinkLogsAnnotation = ''io.kubernetes.cri-o.LinkLogs''"

definition SeccompProfileAnnotation :: string where
  "SeccompProfileAnnotation = ''seccomp-profile.kubernetes.cri-o.io''"

definition DisableFIPSAnnotation :: string where
  "DisableFIPSAnnotation = ''io.kubernetes.cri-o.DisableFIPS''"

definition AllAllowedAnnotations :: "string list" where
  "AllAllowedAnnotations =
     [UsernsModeAnnotation, Cgroup2RWAnnotation, UnifiedCgroupAnnotation, ShmSizeAnnotation, DevicesAnnotation,
      CPULoadBalancingAnnotation, CPUQuotaAnnotation, IRQLoadBalancingAnnotation, OCISeccompBPFHookAnnotation,
      RdtContainerAnnotation, TrySkipVolumeSELinuxLabelAnnotation, CPUCStatesAnnotation, CPUFreqGovernorAnnotation,
      SeccompNotifierActionAnnotation, UmaskAnnotation, PodLinuxOverheadAnnotation, PodLinuxResourcesAnnotation,
      LinkLogsAnnotation, CPUSharedAnnotation, SeccompProfileAnnotation, DisableFIPSAnnotation,
      ''bundle'', ''org.systemd.property.'', ''org.criu.config'', ''module.wasm.image/variant'',
      ''io.kubernetes.cri.container-type'', ''run.oci.'']"

section \<open>Filtering\<close>

text \<open>The keys are collected in a map from the key to whether it is allowed; the entries that
  stayed false are the disallowed ones. Their order, which is that of the map, does not
  matter to the filter.\<close>

fun mark_allowed :: "string list \<Rightarrow> (string \<times> bool) list \<Rightarrow> string + (string \<times> bool) list" where
  "mark_allowed [] m = Inr m"
| "mark_allowed (ann # anns) m =
     (if ann \<notin> fst ` set m then Inl (''invalid allowed_annotation: '' @ ann)
      else mark_allowed anns (map (\<lambda>(k, b). (k, if k = ann then True else b)) m))"

definition validateAllowedAndGenerateDisallowedAnnotations :: "string list \<Rightarrow> string + string list" where
  "validateAllowedAndGenerateDisallowedAnnotations allowed =
     (case mark_allowed allowed (map (\<lambda>ann. (ann, False)) AllAllowedAnnotations) of
        Inl e \<Rightarrow> Inl e
      | Inr m \<Rightarrow> Inr (map fst (filter (\<lambda>(k, b). \<not> b) m)))"

definition Workloads_FilterDisallowedAnnotations :: "string list \<Rightarrow> str_map \<Rightarrow> string + str_map" where
  "Workloads_FilterDisallowedAnnotations allowed toFilter =
     (case validateAllowedAndGenerateDisallowedAnnotations allowed of
        Inl e \<Rightarrow> Inl e
      | Inr disallowed \<Rightarrow> Inr (\<lambda>ann. if list_ex (\<lambda>d. has_prefix ann d) disallowed then None else toFilter ann))"

section \<open>Lemmas\<close>

lemma mark_allowed_iff:
  "mark_allowed allowed m = Inr m' \<longleftrightarrow>
     set allowed \<subseteq> fst ` set m \<and> m' = map (\<lambda>(k, b). (k, b \<or> k \<in> set allowed)) m"
proof (induction allowed m rule: mark_allowed.induct)
  case (2 ann anns m)
  have "fst ` set (map (\<lambda>(k, b). (k, if k = ann then True else b)) m) = fst ` set m"
    by (force simp: image_iff)
  moreover have "map (\<lambda>(k, b). (k, b \<or> k \<in> set anns)) (map (\<lambda>(k, b). (k, if k = ann then True else b)) m) =
      map (\<lambda>(k, b). (k, b \<or> k \<in> set (ann # anns))) m"
    by (auto split: if_splits)
  ultimately show ?case using 2 by auto
qed auto

text \<open>The disallowed annotations are those of the list that are not allowed; an annotation
  that is not on the list cannot be allowed.\<close>

lemma validateAllowed_iff:
  "validateAllowedAndGenerateDisallowedAnnotations allowed = Inr ds \<longleftrightarrow>
     set allowed \<subseteq> set AllAllowedAnnotations \<and> ds = filter (\<lambda>a. a \<notin> set allowed) AllAllowedAnnotations"
proof -
  have f: "map fst (filter (\<lambda>(k, b). \<not> b) (map (\<lambda>(k, b). (k, b \<or> k \<in> A)) (map (\<lambda>ann. (ann, False)) xs))) =
      filter (\<lambda>a. a \<notin> A) xs" for A :: "string set" and xs
    by (induction xs) auto
  show ?thesis
  proof (cases "mark_allowed allowed (map (\<lambda>ann. (ann, False)) AllAllowedAnnotations)")
    case (Inl e)
    then show ?thesis
      using mark_allowed_iff [of allowed "map (\<lambda>ann. (ann, False)) AllAllowedAnnotations"]
      by (auto simp: validateAllowedAndGenerateDisallowedAnnotations_def image_image)
  next
    case (Inr m)
    then show ?thesis
      using mark_allowed_iff [of allowed "map (\<lambda>ann. (ann, False)) AllAllowedAnnotations" m] f [of "set allowed" AllAllowedAnnotations]
      by (auto simp: validateAllowedAndGenerateDisallowedAnnotations_def image_image)
  qed
qed

lemma filter_annotations_iff:
  "Workloads_FilterDisallowedAnnotations allowed m = Inr m' \<longleftrightarrow>
     set allowed \<subseteq> set AllAllowedAnnotations \<and>
     m' = (\<lambda>k. if \<exists>d \<in> set AllAllowedAnnotations - set allowed. has_prefix k d then None else m k)"
proof -
  have "Workloads_FilterDisallowedAnnotations allowed m = Inr m' \<longleftrightarrow>
      (\<exists>ds. validateAllowedAndGenerateDisallowedAnnotations allowed = Inr ds \<and>
         m' = (\<lambda>k. if list_ex (\<lambda>d. has_prefix k d) ds then None else m k))"
    by (auto simp: Workloads_FilterDisallowedAnnotations_def split: sum.splits)
  then show ?thesis
    by (auto simp: validateAllowed_iff list_ex_iff Bex_def set_diff_eq cong: if_cong conj_cong)
qed

end
