(* ===== verification/Ctr_Factory.thy ===== *)
theory Ctr_Factory
  imports Sandbox_State Cgroups Annotations
begin

text \<open>
  The container factory (\<^verbatim>\<open>internal/factory/container\<close>: \<^verbatim>\<open>container.go\<close> and
  \<^verbatim>\<open>namespaces.go\<close>), which turns a creation request into the OCI specification of
  the container, with the methods of the specification generator it calls
  (\<^verbatim>\<open>vendor/github.com/opencontainers/runtime-tools/generate\<close>).

  The generated specification is the record \<open>SpecGen\<close>: the parts of it the factory
  writes. The default specification the generator starts from, the encoders of the JSON
  annotations, the base64 decoder, the capabilities of the host and what the node supports
  are parameters.
\<close>

section \<open>Requests\<close>

datatype ns_mode = POD | CONTAINER | NODE | TARGET

record Capability =
  AddCapabilities :: "string list"
  DropCapabilities :: "string list"

record SELinuxOption =
  se_User :: string
  se_Role :: string
  se_Type :: string
  se_Level :: string

record LinuxContainerSecurityContext =
  csc_Capabilities :: "Capability option"
  csc_Privileged :: bool
  csc_ReadonlyRootfs :: bool
  csc_SelinuxOptions :: "SELinuxOption option"
  csc_NoNewPrivs :: bool
  csc_MaskedPaths :: "string list"
  csc_ReadonlyPaths :: "string list"
  csc_Network :: ns_mode
  csc_Pid :: ns_mode

record LinuxContainerConfig =
  lcc_SecurityContext :: "LinuxContainerSecurityContext option"

text \<open>The command distinguishes nil from empty, as do the annotations, which the factory
  writes to.\<close>

record ContainerConfig =
  cc_Metadata :: "ContainerMetadata option"
  cc_Image :: "string option"
  cc_Command :: "string list option"
  cc_Args :: "string list"
  cc_Labels :: str_map
  cc_Annotations :: "str_map option"
  cc_LogPath :: string
  cc_Tty :: bool
  cc_Stdin :: bool
  cc_StdinOnce :: bool
  cc_Linux :: "LinuxContainerConfig option"

section \<open>The specification generator\<close>

record caps =
  Bounding :: "string list"
  Effective :: "string list"
  Inheritable :: "string list"
  Permitted :: "string list"
  Ambient :: "string list"

record Mount =
  mnt_Destination :: string
  mnt_Type :: string
  mnt_Source :: string
  mnt_Options :: "string list"

record SpecGen =
  g_Args :: "string list"
  g_Caps :: caps
  g_Annotations :: str_map
  g_Mounts :: "Mount list"
  g_Namespaces :: "(string \<times> string) list"
  g_NoNewPrivs :: bool
  g_MaskedPaths :: "string list"
  g_ReadonlyPaths :: "string list"
  g_SelinuxLabel :: string
  g_ApparmorProfile :: string
  g_Seccomp :: "string option"
  g_OOMScoreAdj :: "int option"
  g_CPU :: spec_CPU
  g_Memory :: spec_Memory
  g_Hugepages :: "(string \<times> nat) list"
  g_Unified :: str_map

definition AddAnnotation :: "string \<Rightarrow> string \<Rightarrow> SpecGen \<Rightarrow> SpecGen" where
  "AddAnnotation k v g = g\<lparr>g_Annotations := (g_Annotations g)(k \<mapsto> v)\<rparr>"

fun remove_first :: "('a \<Rightarrow> bool) \<Rightarrow> 'a list \<Rightarrow> 'a list" where
  "remove_first p [] = []"
| "remove_first p (x # xs) = (if p x then xs else x # remove_first p xs)"

definition RemoveMount :: "string \<Rightarrow> SpecGen \<Rightarrow> SpecGen" where
  "RemoveMount dest g = g\<lparr>g_Mounts := remove_first (\<lambda>m. mnt_Destination m = dest) (g_Mounts g)\<rparr>"

definition AddMount :: "Mount \<Rightarrow> SpecGen \<Rightarrow> SpecGen" where
  "AddMount m g = g\<lparr>g_Mounts := g_Mounts g @ [m]\<rparr>"

text \<open>The first entry of the type is replaced; the generator knows the seven types.\<close>

definition known_namespace :: "string \<Rightarrow> bool" where
  "known_namespace t = (t \<in> set [''network'', ''pid'', ''mount'', ''ipc'', ''uts'', ''user'', ''cgroup''])"

fun replace_ns :: "string \<Rightarrow> string \<Rightarrow> (string \<times> string) list \<Rightarrow> (string \<times> string) list" where
  "replace_ns t p [] = [(t, p)]"
| "replace_ns t p ((t', p') # ns) = (if t' = t then (t, p) # ns else (t', p') # replace_ns t p ns)"

definition AddOrReplaceLinuxNamespace :: "string \<Rightarrow> string \<Rightarrow> SpecGen \<Rightarrow> string + SpecGen" where
  "AddOrReplaceLinuxNamespace t p g =
     (if known_namespace t then Inr (g\<lparr>g_Namespaces := replace_ns t p (g_Namespaces g)\<rparr>)
      else Inl (''unrecognized namespace '' @ t))"

definition RemoveLinuxNamespace :: "string \<Rightarrow> SpecGen \<Rightarrow> string + SpecGen" where
  "RemoveLinuxNamespace t g =
     (if known_namespace t then Inr (g\<lparr>g_Namespaces := remove_first (\<lambda>(t', _). t' = t) (g_Namespaces g)\<rparr>)
      else Inl (''unrecognized namespace '' @ t))"

section \<open>Capabilities\<close>

text \<open>The capabilities the library knows, in the order of their numbers, and the number of the
  last one the host has.\<close>

record cap_library =
  cl_names :: "string list"
  cl_last :: nat

definition cap_name :: "string \<Rightarrow> string" where
  "cap_name n = ''CAP_'' @ to_upper n"

definition getOCICapabilitiesList :: "cap_library \<Rightarrow> string list" where
  "getOCICapabilitiesList lib = map cap_name (take (Suc (cl_last lib)) (cl_names lib))"

definition CapValid :: "cap_library \<Rightarrow> string \<Rightarrow> bool \<Rightarrow> bool" where
  "CapValid lib c hostSpecific =
     (has_prefix c ''CAP_'' \<and>
      (c \<in> set (if hostSpecific then getOCICapabilitiesList lib else map cap_name (cl_names lib))))"

definition add_cap :: "string \<Rightarrow> string list \<Rightarrow> string list" where
  "add_cap c xs = (if list_ex (\<lambda>x. to_upper x = to_upper c) xs then xs else xs @ [to_upper c])"

text \<open>The sets never hold a capability twice, so the loops of the Drop methods remove one
  element.\<close>

definition drop_cap :: "string \<Rightarrow> string list \<Rightarrow> string list" where
  "drop_cap c xs = remove_first (\<lambda>x. to_upper x = to_upper c) xs"

text \<open>The four calls the factory makes for one capability. Every one of them validates it, in
  the same way, so it is the first that fails.\<close>

definition add_process_cap :: "cap_library \<Rightarrow> bool \<Rightarrow> string \<Rightarrow> caps \<Rightarrow> string + caps" where
  "add_process_cap lib inheritable c cs =
     (if \<not> CapValid lib (to_upper c) True then Inl (''invalid capability: '' @ to_upper c)
      else let cs1 = cs\<lparr>Bounding := add_cap c (Bounding cs), Effective := add_cap c (Effective cs),
                        Permitted := add_cap c (Permitted cs)\<rparr>
           in Inr (if inheritable then cs1\<lparr>Inheritable := add_cap c (Inheritable cs1)\<rparr> else cs1))"

text \<open>Dropping changes the bounding set before it validates the capability.\<close>

definition drop_process_cap :: "cap_library \<Rightarrow> bool \<Rightarrow> string \<Rightarrow> caps \<Rightarrow> caps \<times> string option" where
  "drop_process_cap lib inheritable c cs =
     (let cs0 = cs\<lparr>Bounding := drop_cap c (Bounding cs)\<rparr>
      in if \<not> CapValid lib (to_upper c) False then (cs0, Some (''invalid capability: '' @ to_upper c))
         else let cs1 = cs0\<lparr>Effective := drop_cap c (Effective cs0), Permitted := drop_cap c (Permitted cs0)\<rparr>
              in (if inheritable then cs1\<lparr>Inheritable := drop_cap c (Inheritable cs1)\<rparr> else cs1, None))"

fun add_process_caps :: "cap_library \<Rightarrow> bool \<Rightarrow> string list \<Rightarrow> caps \<Rightarrow> string + caps" where
  "add_process_caps lib inh [] cs = Inr cs"
| "add_process_caps lib inh (c # rest) cs =
     (case add_process_cap lib inh c cs of Inl e \<Rightarrow> Inl e | Inr cs' \<Rightarrow> add_process_caps lib inh rest cs')"

fun drop_process_caps :: "cap_library \<Rightarrow> bool \<Rightarrow> string list \<Rightarrow> caps \<Rightarrow> string + caps" where
  "drop_process_caps lib inh [] cs = Inr cs"
| "drop_process_caps lib inh (c # rest) cs =
     (case drop_process_cap lib inh c cs of (_, Some e) \<Rightarrow> Inl e | (cs', None) \<Rightarrow> drop_process_caps lib inh rest cs')"

definition inStringSlice :: "string list \<Rightarrow> string \<Rightarrow> bool" where
  "inStringSlice ss str = list_ex (\<lambda>s. equal_fold s str) ss"

definition toCAPPrefixed :: "string \<Rightarrow> string" where
  "toCAPPrefixed c = (if \<not> has_prefix (to_lower c) ''cap_'' then ''CAP_'' @ to_upper c else c)"

fun add_requested :: "cap_library \<Rightarrow> bool \<Rightarrow> string list \<Rightarrow> caps \<Rightarrow> string + caps" where
  "add_requested lib inh [] cs = Inr cs"
| "add_requested lib inh (c # rest) cs =
     (if equal_fold c ''ALL'' then add_requested lib inh rest cs
      else if \<not> inStringSlice (getOCICapabilitiesList lib) (toCAPPrefixed c)
           then Inl (''unknown capability to add: '' @ toCAPPrefixed c)
      else case add_process_cap lib inh (toCAPPrefixed c) cs of
             Inl e \<Rightarrow> Inl e | Inr cs' \<Rightarrow> add_requested lib inh rest cs')"

fun drop_requested :: "cap_library \<Rightarrow> bool \<Rightarrow> string list \<Rightarrow> caps \<Rightarrow> string + caps" where
  "drop_requested lib inh [] cs = Inr cs"
| "drop_requested lib inh (c # rest) cs =
     (if equal_fold c ''ALL'' then drop_requested lib inh rest cs
      else case drop_process_cap lib inh (toCAPPrefixed c) cs of
             (_, Some e) \<Rightarrow> Inl (''failed to drop cap '' @ toCAPPrefixed c @ '' '' @ e)
           | (cs', None) \<Rightarrow> drop_requested lib inh rest cs')"

definition no_caps :: caps where
  "no_caps = \<lparr>Bounding = [], Effective = [], Inheritable = [], Permitted = [], Ambient = []\<rparr>"

definition SpecSetupCapabilities :: "cap_library \<Rightarrow> Capability option \<Rightarrow> string list \<Rightarrow> bool \<Rightarrow> SpecGen \<Rightarrow> string + SpecGen" where
  "SpecSetupCapabilities lib cap defaultCaps addInheritableCapabilities g =
     (let cp = (case cap of None \<Rightarrow> \<lparr>AddCapabilities = [], DropCapabilities = []\<rparr> | Some c \<Rightarrow> c);
          addAll = inStringSlice (AddCapabilities cp) ''ALL'';
          dropAll = inStringSlice (DropCapabilities cp) ''ALL'';
          toAdd = (if \<not> (addAll \<or> dropAll) then AddCapabilities cp @ defaultCaps else AddCapabilities cp);
          capabilitiesList = getOCICapabilitiesList lib
      in case (if addAll then add_process_caps lib addInheritableCapabilities capabilitiesList no_caps else Inr no_caps) of
           Inl e \<Rightarrow> Inl e
         | Inr cs1 \<Rightarrow>
             (case (if dropAll then drop_process_caps lib addInheritableCapabilities capabilitiesList cs1 else Inr cs1) of
                Inl e \<Rightarrow> Inl e
              | Inr cs2 \<Rightarrow>
                  (case add_requested lib addInheritableCapabilities toAdd cs2 of
                     Inl e \<Rightarrow> Inl e
                   | Inr cs3 \<Rightarrow>
                       (case drop_requested lib addInheritableCapabilities (DropCapabilities cp) cs3 of
                          Inl e \<Rightarrow> Inl e | Inr cs4 \<Rightarrow> Inr (g\<lparr>g_Caps := cs4\<rparr>)))))"

section \<open>The factory\<close>

record factory_container =
  config :: "ContainerConfig option"
  sboxConfig :: "PodSandboxConfig option"
  f_id :: string
  f_name :: string
  f_privileged :: bool
  f_restore :: bool
  f_spec :: SpecGen
  f_pidns :: "Namespace option"

definition New_container :: "SpecGen \<Rightarrow> factory_container" where
  "New_container g = \<lparr>config = None, sboxConfig = None, f_id = '''', f_name = '''', f_privileged = False, f_restore = False,
     f_spec = g, f_pidns = None\<rparr>"

definition SpecAddMount :: "Mount \<Rightarrow> factory_container \<Rightarrow> factory_container" where
  "SpecAddMount r c = c\<lparr>f_spec := AddMount r (RemoveMount (mnt_Destination r) (f_spec c))\<rparr>"

definition factory_SetConfig :: "ContainerConfig option \<Rightarrow> PodSandboxConfig option \<Rightarrow> factory_container \<Rightarrow> string + factory_container" where
  "factory_SetConfig cfg sbox c =
     (if config c \<noteq> None then Inl ''config already set''
      else case cfg of None \<Rightarrow> Inl ''config is nil''
      | Some cf \<Rightarrow>
          (case cc_Metadata cf of None \<Rightarrow> Inl ''metadata is nil''
           | Some md \<Rightarrow>
               if md_Name md = '''' then Inl ''name is empty''
               else if sbox = None then Inl ''sandbox config is nil''
               else if sboxConfig c \<noteq> None then Inl ''sandbox config is already set''
               else Inr (c\<lparr>config := cfg, sboxConfig := sbox\<rparr>)))"

definition container_name :: "ContainerMetadata \<Rightarrow> PodSandboxMetadata \<Rightarrow> string" where
  "container_name md pm =
     join_with ''_'' [''k8s'', md_Name md, pm_Name pm, pm_Namespace pm, pm_Uid pm, utoa (md_Attempt md)]"

text \<open>The fresh random identifier is a parameter. Reading the metadata through a nil pointer
  panics.\<close>

definition SetNameAndID :: "string \<Rightarrow> string \<Rightarrow> factory_container \<Rightarrow> (string, factory_container) outcome" where
  "SetNameAndID random oldID c =
     (case config c of None \<Rightarrow> Err ''config is not set''
      | Some cf \<Rightarrow>
          (case sboxConfig c of None \<Rightarrow> Err ''sandbox config is nil''
           | Some sc \<Rightarrow>
               (case cfg_Metadata sc of None \<Rightarrow> Err ''sandbox metadata is nil''
                | Some pm \<Rightarrow>
                    (case cc_Metadata cf of None \<Rightarrow> Panic
                     | Some md \<Rightarrow> Ok (c\<lparr>f_id := (if oldID = '''' then random else oldID), f_name := container_name md pm\<rparr>)))))"

definition SetPrivileged :: "factory_container \<Rightarrow> string + factory_container" where
  "SetPrivileged c =
     (case (config c, sboxConfig c) of
        (Some cf, Some sc) \<Rightarrow>
          (case (Option.bind (cc_Linux cf) lcc_SecurityContext, Option.bind (cfg_Linux sc) lc_SecurityContext) of
             (Some ctx, Some sctx) \<Rightarrow>
               if csc_Privileged ctx
               then if \<not> sc_Privileged sctx then Inl ''no privileged container allowed in sandbox''
                    else Inr (c\<lparr>f_privileged := True\<rparr>)
               else Inr c
           | _ \<Rightarrow> Inr c)
      | _ \<Rightarrow> Inr c)"

text \<open>\<open>sane\<close> is EnsureSaneLogPath: its error.\<close>

definition LogPath :: "(string \<Rightarrow> string option) \<Rightarrow> string \<Rightarrow> factory_container \<Rightarrow> (string, string) outcome" where
  "LogPath sane sboxLogDir c =
     (case (config c, sboxConfig c) of
        (Some cf, Some sc) \<Rightarrow>
          (let dir = (if cfg_LogDirectory sc \<noteq> '''' then cfg_LogDirectory sc else sboxLogDir)
           in if dir = '''' then Err ''container has a sandbox with an empty log path''
              else let p = filepath_Join [dir, if cc_LogPath cf = '''' then f_id c @ ''.log'' else cc_LogPath cf]
                   in case sane p of Some e \<Rightarrow> Err e | None \<Rightarrow> Ok p)
      | _ \<Rightarrow> Panic)"

definition DisableFips :: "PodSandboxConfig \<Rightarrow> bool" where
  "DisableFips sc = (cfg_Labels sc ''FIPS_DISABLE'' = Some ''true'')"

definition UserRequestedImage :: "ContainerConfig \<Rightarrow> string + string" where
  "UserRequestedImage cf =
     (case cc_Image cf of
        None \<Rightarrow> Inl ''CreateContainerRequest.ContainerConfig.Image is nil''
      | Some img \<Rightarrow> if img = '''' then Inl ''CreateContainerRequest.ContainerConfig.Image.Image is empty'' else Inr img)"

definition ReadOnly :: "bool \<Rightarrow> ContainerConfig \<Rightarrow> (unit, bool) outcome" where
  "ReadOnly serverIsReadOnly cf =
     (case cc_Linux cf of
        None \<Rightarrow> Ok serverIsReadOnly
      | Some l \<Rightarrow> (case lcc_SecurityContext l of None \<Rightarrow> Panic | Some ctx \<Rightarrow> Ok (csc_ReadonlyRootfs ctx \<or> serverIsReadOnly)))"

definition GetLabelOptions :: "SELinuxOption \<Rightarrow> string list" where
  "GetLabelOptions o1 =
     (if se_User o1 \<noteq> '''' then [''user:'' @ se_User o1] else []) @
     (if se_Role o1 \<noteq> '''' then [''role:'' @ se_Role o1] else []) @
     (if se_Type o1 \<noteq> '''' then [''type:'' @ se_Type o1] else []) @
     (if se_Level o1 \<noteq> '''' then [''level:'' @ se_Level o1] else [])"

text \<open>The labels of the pod, overridden by those of the request; \<open>dup\<close> is the library's
  split of the pod's label. The result is the map whose values the method returns in an
  arbitrary order.\<close>

definition SelinuxLabel :: "(string \<Rightarrow> string + string list) \<Rightarrow> string \<Rightarrow> LinuxContainerSecurityContext \<Rightarrow> string + str_map" where
  "SelinuxLabel dup sboxLabel ctx =
     (case dup sboxLabel of Inl e \<Rightarrow> Inl e
      | Inr opts \<Rightarrow>
          (let add = (\<lambda>m r. m(hd (split_on (CHR '':'') r) \<mapsto> r))
           in Inr (foldl add Map.empty
                (opts @ (case csc_SelinuxOptions ctx of None \<Rightarrow> [] | Some o1 \<Rightarrow> GetLabelOptions o1)))))"

text \<open>The resources of the annotation, in order; an entry without an equals sign stops the
  loop with what was set before it.\<close>

fun add_unified :: "(string \<Rightarrow> string option) \<Rightarrow> string list \<Rightarrow> SpecGen \<Rightarrow> SpecGen \<times> string option" where
  "add_unified b64 [] g = (g, None)"
| "add_unified b64 (r # rs) g =
     (case split_two (CHR ''='') r of
        [k, v] \<Rightarrow> add_unified b64 rs (g\<lparr>g_Unified := (g_Unified g)(k \<mapsto> case b64 v of Some d \<Rightarrow> d | None \<Rightarrow> v)\<rparr>)
      | _ \<Rightarrow> (g, Some ''invalid annotation io.kubernetes.cri-o.UnifiedCgroup''))"

definition AddUnifiedResourcesFromAnnotations :: "(string \<Rightarrow> string option) \<Rightarrow> str_map \<Rightarrow> factory_container \<Rightarrow> factory_container \<times> string option" where
  "AddUnifiedResourcesFromAnnotations b64 anns c =
     (case config c of None \<Rightarrow> (c, None)
      | Some cf \<Rightarrow>
          (let containerName = get_or '''' (cc_Labels cf) ''io.kubernetes.container.name'';
               annotation = get_or '''' anns (''io.kubernetes.cri-o.UnifiedCgroup.'' @ containerName)
           in if containerName = '''' \<or> annotation = '''' then (c, None)
              else let (g, e) = add_unified b64 (split_on (CHR '';'') annotation) (f_spec c) in (c\<lparr>f_spec := g\<rparr>, e)))"

record image_config =
  img_Entrypoint :: "string list"
  img_Cmd :: "string list"

definition SpecSetProcessArgs :: "image_config option \<Rightarrow> ContainerConfig \<Rightarrow> SpecGen \<Rightarrow> string + SpecGen" where
  "SpecSetProcessArgs imageOCIConfig cf g =
     (let cmd0 = (case cc_Command cf of None \<Rightarrow> [] | Some c \<Rightarrow> c);
          (kubeCommands, kubeArgs) =
            (case imageOCIConfig of
               None \<Rightarrow> (cmd0, cc_Args cf)
             | Some img \<Rightarrow>
                 if length cmd0 = 0
                 then (if cc_Command cf = None then img_Entrypoint img else cmd0,
                       if length (cc_Args cf) = 0 then img_Cmd img else cc_Args cf)
                 else (cmd0, cc_Args cf))
      in case kubeCommands of
           e # as \<Rightarrow> Inr (g\<lparr>g_Args := [e] @ as @ kubeArgs\<rparr>)
         | [] \<Rightarrow> (case kubeArgs of e # as \<Rightarrow> Inr (g\<lparr>g_Args := [e] @ as\<rparr>) | [] \<Rightarrow> Inl ''no command specified''))"

definition WillRunSystemd :: "SpecGen \<Rightarrow> (unit, bool) outcome" where
  "WillRunSystemd g =
     (case g_Args g of [] \<Rightarrow> Panic
      | e # _ \<Rightarrow> Ok (str_contains e ''/sbin/init'' \<or> filepath_Base e = ''systemd''))"

definition SetupPrivileged :: "cap_library \<Rightarrow> SpecGen \<Rightarrow> SpecGen" where
  "SetupPrivileged lib g =
     (let cs = getOCICapabilitiesList lib
      in g\<lparr>g_Caps := \<lparr>Bounding = cs, Effective = cs, Inheritable = cs, Permitted = cs, Ambient = cs\<rparr>,
           g_SelinuxLabel := '''', g_ApparmorProfile := '''', g_Seccomp := None\<rparr>)"

definition SpecSetPrivileges :: "cap_library \<Rightarrow> string list \<Rightarrow> bool \<Rightarrow> LinuxContainerSecurityContext \<Rightarrow> factory_container \<Rightarrow> string + factory_container" where
  "SpecSetPrivileges lib defaultCaps inh ctx c =
     (case (if f_privileged c then Inr (SetupPrivileged lib (f_spec c))
            else SpecSetupCapabilities lib (csc_Capabilities ctx) defaultCaps inh (f_spec c)) of
        Inl e \<Rightarrow> Inl e
      | Inr g \<Rightarrow>
          (let g1 = g\<lparr>g_NoNewPrivs := csc_NoNewPrivs ctx\<rparr>
           in Inr (c\<lparr>f_spec := (if \<not> f_privileged c
                then g1\<lparr>g_MaskedPaths := g_MaskedPaths g1 @ csc_MaskedPaths ctx,
                        g_ReadonlyPaths := g_ReadonlyPaths g1 @ csc_ReadonlyPaths ctx\<rparr>
                else g1)\<rparr>)))"

subsection \<open>Resources\<close>

text \<open>What the node supports: swap accounting, huge pages and cgroup version 2.\<close>

record node_features =
  CgroupHasMemorySwap :: bool
  CgroupHasHugetlb :: bool
  CgroupIsV2 :: bool

text \<open>Conversion of an integer to \<^verbatim>\<open>uint64\<close>.\<close>

definition to_uint64 :: "int \<Rightarrow> int" where
  "to_uint64 i = i mod 2 ^ 64"

fun set_hugepage :: "string \<Rightarrow> nat \<Rightarrow> (string \<times> nat) list \<Rightarrow> (string \<times> nat) list" where
  "set_hugepage p l [] = [(p, l)]"
| "set_hugepage p l ((p', l') # hs) = (if p' = p then (p', l) # hs else (p', l') # set_hugepage p l hs)"

definition SpecSetLinuxContainerResources :: "node_features \<Rightarrow> LinuxContainerResources \<Rightarrow> int \<Rightarrow> SpecGen \<Rightarrow> SpecGen \<times> string option" where
  "SpecSetLinuxContainerResources nf r minMemory g0 =
     (let g = g0\<lparr>g_CPU := (g_CPU g0)\<lparr>cpu_Period := Some (to_uint64 (CpuPeriod r)), cpu_Quota := Some (CpuQuota r),
                 cpu_Shares := Some (to_uint64 (CpuShares r))\<rparr>\<rparr>;
          limit = MemoryLimitInBytes r; swap = MemorySwapLimitInBytes r;
          finish = (\<lambda>g. let g1 = g\<lparr>g_OOMScoreAdj := Some (OomScoreAdj r),
                            g_CPU := (g_CPU g)\<lparr>cpu_Cpus := CpusetCpus r, cpu_Mems := CpusetMems r\<rparr>\<rparr>;
                          g2 = (if CgroupHasHugetlb nf
                                then g1\<lparr>g_Hugepages := foldl (\<lambda>hs (p, l). set_hugepage p l hs) (g_Hugepages g1) (HugepageLimits r)\<rparr>
                                else g1)
                      in if CgroupIsV2 nf then g2\<lparr>g_Unified := g_Unified g2 ++ Unified r\<rparr> else g2)
      in if limit = 0 then (finish g, None)
         else if \<not> VerifyMemoryIsEnough limit minMemory then (g, Some ''set memory limit too low'')
         else let g1 = g\<lparr>g_Memory := (g_Memory g)\<lparr>mem_Limit := Some limit\<rparr>\<rparr>
              in if swap > 0 \<and> swap < limit then (g1, Some ''memory swap limit cannot be lower than memory limit'')
                 else (finish (if CgroupHasMemorySwap nf
                               then g1\<lparr>g_Memory := (g_Memory g1)\<lparr>mem_Swap := Some (if swap \<noteq> 0 then swap else limit)\<rparr>\<rparr> else g1), None))"

subsection \<open>Namespaces\<close>

definition spec_of_nstype :: "nstype \<Rightarrow> string" where
  "spec_of_nstype t = (case t of IPCNS \<Rightarrow> ''ipc'' | NETNS \<Rightarrow> ''network'' | UTSNS \<Rightarrow> ''uts'' | USERNS \<Rightarrow> ''user'' | PIDNS \<Rightarrow> '''')"

fun ConfigureGeneratorGivenNamespacePaths :: "(string \<times> nstype) list \<Rightarrow> SpecGen \<Rightarrow> string + SpecGen" where
  "ConfigureGeneratorGivenNamespacePaths [] g = Inr g"
| "ConfigureGeneratorGivenNamespacePaths ((p, t) # nss) g =
     (if p = '''' then ConfigureGeneratorGivenNamespacePaths nss g
      else if spec_of_nstype t = '''' then Inl ''invalid namespace type''
      else case AddOrReplaceLinuxNamespace (spec_of_nstype t) p g of
             Inl e \<Rightarrow> Inl e | Inr g' \<Rightarrow> ConfigureGeneratorGivenNamespacePaths nss g')"

text \<open>The target container is given by the result of its method Pid; \<open>from_proc\<close> makes
  a namespace from a process. The last argument but one is the pod's PID namespace path and
  whether its own mode is POD.\<close>

definition SpecAddNamespaces :: "(int \<Rightarrow> string + Namespace) \<Rightarrow> (string \<times> nstype) list \<Rightarrow> (oci_error, int) outcome option \<Rightarrow>
    LinuxContainerSecurityContext \<Rightarrow> string \<times> bool \<Rightarrow> factory_container \<Rightarrow> (string, factory_container) outcome" where
  "SpecAddNamespaces from_proc paths targetCtr ctx pod c =
     (let (pidNsPath, pod_is_POD) = pod
      in case ConfigureGeneratorGivenNamespacePaths paths (f_spec c) of
        Inl e \<Rightarrow> Err e
      | Inr g \<Rightarrow>
          (case (if csc_Network ctx = NODE then RemoveLinuxNamespace ''network'' g else Inr g) of
             Inl e \<Rightarrow> Err e
           | Inr g1 \<Rightarrow>
               (case csc_Pid ctx of
                  NODE \<Rightarrow> (case RemoveLinuxNamespace ''pid'' g1 of Inl e \<Rightarrow> Err e | Inr g2 \<Rightarrow> Ok (c\<lparr>f_spec := g2\<rparr>))
                | POD \<Rightarrow>
                    if pidNsPath = ''''
                    then if \<not> pod_is_POD then Err ''pod level PID namespace requested, but pod sandbox was not similarly configured''
                         else Err ''PID namespace requested, but sandbox infra container unexpectedly invalid''
                    else (case AddOrReplaceLinuxNamespace ''pid'' pidNsPath g1 of Inl e \<Rightarrow> Err e | Inr g2 \<Rightarrow> Ok (c\<lparr>f_spec := g2\<rparr>))
                | TARGET \<Rightarrow>
                    (case targetCtr of None \<Rightarrow> Err ''target PID namespace specified with invalid target ID''
                     | Some p \<Rightarrow>
                         (case p of Panic \<Rightarrow> Panic | Err _ \<Rightarrow> Err ''target PID namespace find PID''
                          | Ok i \<Rightarrow>
                              (case from_proc i of Inl e \<Rightarrow> Err e
                               | Inr ns \<Rightarrow>
                                   (case AddOrReplaceLinuxNamespace ''pid'' (ns_Path ns) g1 of
                                      Inl e \<Rightarrow> Err e | Inr g2 \<Rightarrow> Ok (c\<lparr>f_spec := g2, f_pidns := Some ns\<rparr>)))))
                | CONTAINER \<Rightarrow> Ok (c\<lparr>f_spec := g1\<rparr>))))"

subsection \<open>Annotations\<close>

text \<open>The JSON encoders, \<open>None\<close> being their error, and the format of times.\<close>

record encoders =
  enc_metadata :: "ContainerMetadata option \<Rightarrow> string option"
  enc_map :: "str_map \<Rightarrow> string option"
  enc_volumes :: "ContainerVolume list \<Rightarrow> string option"
  fmt_time :: "int \<Rightarrow> string"

definition FormatBool :: "bool \<Rightarrow> string" where
  "FormatBool b = (if b then ''true'' else ''false'')"

definition crio :: "string \<Rightarrow> string" where
  "crio k = ''io.kubernetes.cri-o.'' @ k"

text \<open>The pod's annotations, in the order in which the loop meets them. One that names this
  container is also written to the request's own annotations, which panics when they are
  nil.\<close>

fun add_pod_annotations :: "string \<Rightarrow> (string \<times> string) list \<Rightarrow> ContainerConfig \<Rightarrow> SpecGen \<Rightarrow> (string, ContainerConfig \<times> SpecGen) outcome" where
  "add_pod_annotations name [] cf g = Ok (cf, g)"
| "add_pod_annotations name ((k, v) # as) cf g =
     (if k = OCISeccompBPFHookAnnotation @ ''/'' @ name
      then (case cc_Annotations cf of None \<Rightarrow> Panic
            | Some m \<Rightarrow> add_pod_annotations name as (cf\<lparr>cc_Annotations := Some (m(OCISeccompBPFHookAnnotation \<mapsto> v))\<rparr>)
                         (AddAnnotation OCISeccompBPFHookAnnotation v g))
      else add_pod_annotations name as cf (AddAnnotation k v g))"

text \<open>What the pod and the image contribute.\<close>

record pod_view =
  pv_annotations :: "(string \<times> string) list"
  pv_ID :: string
  pv_Name :: string
  pv_ResolvPath :: string
  pv_LogDir :: string
  pv_IPs :: "string list"

fun add_all :: "(string \<times> string) list \<Rightarrow> SpecGen \<Rightarrow> SpecGen" where
  "add_all [] g = g"
| "add_all ((k, v) # as) g = add_all as (AddAnnotation k v g)"

definition own_annotations :: "encoders \<Rightarrow> int \<Rightarrow> pod_view \<Rightarrow> string \<Rightarrow> string \<Rightarrow> string list \<Rightarrow> string \<Rightarrow> string \<Rightarrow> string \<Rightarrow> string \<Rightarrow>
    ContainerConfig \<Rightarrow> factory_container \<Rightarrow> (string \<times> string) list" where
  "own_annotations enc created sb userRequestedImage logpath repoTags imgId mntPoint seccompRef platformPath cf c =
     [(crio ''Image'', userRequestedImage), (crio ''ImageName'', case repoTags of [] \<Rightarrow> '''' | t # _ \<Rightarrow> t),
      (crio ''ImageRef'', imgId), (crio ''Name'', f_name c), (crio ''ContainerID'', f_id c), (crio ''SandboxID'', pv_ID sb),
      (crio ''SandboxName'', pv_Name sb), (crio ''ContainerType'', ''container''), (crio ''LogPath'', logpath),
      (crio ''TTY'', FormatBool (cc_Tty cf)), (crio ''Stdin'', FormatBool (cc_Stdin cf)),
      (crio ''StdinOnce'', FormatBool (cc_StdinOnce cf)), (crio ''ResolvPath'', pv_ResolvPath sb),
      (''io.container.manager'', ''cri-o''), (crio ''MountPoint'', mntPoint), (crio ''SeccompProfilePath'', seccompRef),
      (crio ''Created'', fmt_time enc created), (crio ''PlatformRuntimePath'', platformPath)]"

definition ip_annotations :: "string list \<Rightarrow> (string \<times> string) list" where
  "ip_annotations addrs = map (\<lambda>(n, ip). (crio ''IP.'' @ utoa n, ip)) (zip [0..<length addrs] addrs)"

definition systemd_annotations :: "bool \<Rightarrow> str_map \<Rightarrow> (string \<times> string) list" where
  "systemd_annotations isSystemd kube =
     (if isSystemd
      then (case kube ''io.kubernetes.pod.terminationGracePeriod'' of None \<Rightarrow> []
            | Some t \<Rightarrow> [(''org.systemd.property.TimeoutStopUSec'', ''uint64 '' @ t @ ''000000'')]) @
           [(''org.systemd.property.DefaultDependencies'', ''true''), (''org.systemd.property.After'', ''['' @ [CHR 39] @ ''crio.service'' @ [CHR 39] @ '']'')]
      else [])"

definition SpecAddAnnotations :: "encoders \<Rightarrow> (string \<Rightarrow> string option) \<Rightarrow> int \<Rightarrow> pod_view \<Rightarrow> ContainerVolume list \<Rightarrow> string \<Rightarrow> string \<Rightarrow>
    string list \<Rightarrow> string \<Rightarrow> bool \<Rightarrow> string \<Rightarrow> string \<Rightarrow> factory_container \<Rightarrow> (string, factory_container) outcome" where
  "SpecAddAnnotations enc sane created sb containerVolumes mntPoint configStopSignal repoTags imgId isSystemd seccompRef platformPath c =
     (case config c of None \<Rightarrow> Panic
      | Some cf0 \<Rightarrow>
          (case UserRequestedImage cf0 of
             Inl e \<Rightarrow> Err e
           | Inr userRequestedImage \<Rightarrow>
               outcome_bind (LogPath sane (pv_LogDir sb) c) (\<lambda>logpath.
               case cc_Metadata cf0 of None \<Rightarrow> Panic
               | Some md \<Rightarrow>
                   outcome_bind (add_pod_annotations (md_Name md) (pv_annotations sb) cf0 (f_spec c)) (\<lambda>(cf, g).
                   let g1 = add_all (own_annotations enc created sb userRequestedImage logpath repoTags imgId mntPoint
                              seccompRef platformPath cf c) g;
                       kube = (case cc_Annotations cf of None \<Rightarrow> Map.empty | Some m \<Rightarrow> m)
                   in case (enc_metadata enc (cc_Metadata cf), enc_map enc (cc_Labels cf), enc_volumes enc containerVolumes, enc_map enc kube) of
                        (Some jm, Some jl, Some jv, Some ja) \<Rightarrow>
                          (let g2 = add_all [(crio ''Metadata'', jm), (crio ''Labels'', jl), (crio ''Volumes'', jv), (crio ''Annotations'', ja)] g1;
                               g3 = g2\<lparr>g_Annotations := g_Annotations g2 ++ kube ++ cc_Labels cf\<rparr>;
                               g4 = add_all (ip_annotations (pv_IPs sb) @ systemd_annotations isSystemd kube @
                                      (if configStopSignal \<noteq> '''' then [(''org.opencontainers.image.stopSignal'', configStopSignal)] else [])) g3
                           in Ok (c\<lparr>config := Some cf, f_spec := g4\<rparr>))
                      | _ \<Rightarrow> Err ''json''))))"

subsection \<open>The sets of capabilities\<close>

text \<open>The sets a call of the factory can produce: the same capabilities in the bounding, the
  effective and the permitted set, in the inheritable one if asked for, and no ambient ones.\<close>

definition caps_of :: "bool \<Rightarrow> string list \<Rightarrow> caps" where
  "caps_of inh xs = \<lparr>Bounding = xs, Effective = xs, Inheritable = (if inh then xs else []), Permitted = xs, Ambient = []\<rparr>"

definition canonical :: "string list \<Rightarrow> bool" where
  "canonical xs \<longleftrightarrow> distinct xs \<and> list_all (\<lambda>x. to_upper x = x) xs"

text \<open>The capabilities a list of a request names.\<close>

definition named_caps :: "string list \<Rightarrow> string set" where
  "named_caps cs = {to_upper (toCAPPrefixed c) | c. c \<in> set cs \<and> \<not> equal_fold c ''ALL''}"

lemma named_caps_simps [simp]:
  "named_caps [] = {}"
  "named_caps (c # cs) = (if equal_fold c ''ALL'' then named_caps cs else insert (to_upper (toCAPPrefixed c)) (named_caps cs))"
  "named_caps (xs @ ys) = named_caps xs \<union> named_caps ys"
  by (auto simp: named_caps_def)

lemma to_upper_cap_name [simp]: "to_upper (cap_name n) = cap_name n"
  by (simp add: cap_name_def) (simp add: upper_char_def)

lemma has_prefix_cap_name [simp]: "has_prefix (cap_name n) ''CAP_''"
  unfolding cap_name_def by (rule has_prefix_append)

lemma CapValid_iff:
  "CapValid lib c True \<longleftrightarrow> c \<in> set (getOCICapabilitiesList lib)" "CapValid lib c False \<longleftrightarrow> c \<in> cap_name ` set (cl_names lib)"
  by (auto simp: CapValid_def getOCICapabilitiesList_def)

lemma host_caps_upper: "c \<in> set (getOCICapabilitiesList lib) \<Longrightarrow> to_upper c = c"
  by (auto simp: getOCICapabilitiesList_def)

lemma inStringSlice_host:
  "inStringSlice (getOCICapabilitiesList lib) c \<longleftrightarrow> to_upper c \<in> set (getOCICapabilitiesList lib)"
proof -
  have "inStringSlice (getOCICapabilitiesList lib) c \<longleftrightarrow> (\<exists>x \<in> set (getOCICapabilitiesList lib). to_upper x = to_upper c)"
    by (simp add: inStringSlice_def list_ex_iff equal_fold_upper)
  then show ?thesis using host_caps_upper by force
qed

lemma canonicalD: "canonical xs \<Longrightarrow> x \<in> set xs \<Longrightarrow> to_upper x = x"
  by (simp add: canonical_def list_all_iff)

lemma add_cap_canonical:
  assumes "canonical xs"
  shows "canonical (add_cap c xs)" "set (add_cap c xs) = insert (to_upper c) (set xs)"
proof -
  have "list_ex (\<lambda>x. to_upper x = to_upper c) xs \<longleftrightarrow> to_upper c \<in> set xs"
    using canonicalD [OF assms] by (force simp: list_ex_iff)
  then show "canonical (add_cap c xs)" "set (add_cap c xs) = insert (to_upper c) (set xs)"
    using assms by (auto simp: add_cap_def canonical_def)
qed

lemma drop_cap_canonical:
  assumes "canonical xs"
  shows "canonical (drop_cap c xs)" "set (drop_cap c xs) = set xs - {to_upper c}"
proof -
  have *: "canonical (drop_cap c xs) \<and> set (drop_cap c xs) = set xs - {to_upper c}"
    using assms by (induction xs) (auto simp: drop_cap_def canonical_def)
  then show "canonical (drop_cap c xs)" "set (drop_cap c xs) = set xs - {to_upper c}" by simp_all
qed

lemma add_process_cap_caps_of:
  "add_process_cap lib inh c (caps_of inh xs) =
     (if to_upper c \<in> set (getOCICapabilitiesList lib) then Inr (caps_of inh (add_cap c xs)) else Inl (''invalid capability: '' @ to_upper c))"
  by (simp add: add_process_cap_def caps_of_def CapValid_iff Let_def)

lemma drop_process_cap_caps_of:
  "to_upper c \<in> cap_name ` set (cl_names lib) \<Longrightarrow> drop_process_cap lib inh c (caps_of inh xs) = (caps_of inh (drop_cap c xs), None)"
  "to_upper c \<notin> cap_name ` set (cl_names lib) \<Longrightarrow> \<exists>cs e. drop_process_cap lib inh c (caps_of inh xs) = (cs, Some e)"
  by (simp_all add: drop_process_cap_def caps_of_def CapValid_iff Let_def)

lemma add_process_caps_caps_of:
  assumes "canonical xs" and "set cs \<subseteq> set (getOCICapabilitiesList lib)"
  shows "\<exists>ys. add_process_caps lib inh cs (caps_of inh xs) = Inr (caps_of inh ys) \<and> canonical ys \<and> set ys = set xs \<union> set cs"
  using assms
proof (induction cs arbitrary: xs)
  case (Cons c cs)
  then have c: "to_upper c = c" "c \<in> set (getOCICapabilitiesList lib)" using host_caps_upper [of c lib] by simp_all
  then show ?case
    using Cons.IH [OF add_cap_canonical(1) [OF Cons.prems(1), of c]] Cons.prems
    by (auto simp: add_process_cap_caps_of add_cap_canonical)
qed auto

lemma drop_process_caps_caps_of:
  assumes "canonical xs" and "set cs \<subseteq> set (getOCICapabilitiesList lib)"
  shows "\<exists>ys. drop_process_caps lib inh cs (caps_of inh xs) = Inr (caps_of inh ys) \<and> canonical ys \<and> set ys = set xs - set cs"
  using assms
proof (induction cs arbitrary: xs)
  case (Cons c cs)
  then have c: "to_upper c = c" "c \<in> cap_name ` set (cl_names lib)"
    using host_caps_upper [of c lib] by (auto simp: getOCICapabilitiesList_def dest: in_set_takeD)
  then show ?case
    using Cons.IH [OF drop_cap_canonical(1) [OF Cons.prems(1), of c]] Cons.prems
    by (auto simp: drop_process_cap_caps_of drop_cap_canonical)
qed auto

lemma add_requested_caps_of:
  assumes "canonical xs"
  shows "if named_caps cs \<subseteq> set (getOCICapabilitiesList lib)
    then \<exists>ys. add_requested lib inh cs (caps_of inh xs) = Inr (caps_of inh ys) \<and> canonical ys \<and> set ys = set xs \<union> named_caps cs
    else \<exists>e. add_requested lib inh cs (caps_of inh xs) = Inl e"
  using assms
proof (induction cs arbitrary: xs)
  case (Cons c cs)
  show ?case
    using Cons.IH [OF Cons.prems] Cons.IH [OF add_cap_canonical(1) [OF Cons.prems, of "toCAPPrefixed c"]] Cons.prems
    by (auto simp: inStringSlice_host add_process_cap_caps_of add_cap_canonical)
qed auto

lemma drop_requested_caps_of:
  assumes "canonical xs"
  shows "if named_caps cs \<subseteq> cap_name ` set (cl_names lib)
    then \<exists>ys. drop_requested lib inh cs (caps_of inh xs) = Inr (caps_of inh ys) \<and> canonical ys \<and> set ys = set xs - named_caps cs
    else \<exists>e. drop_requested lib inh cs (caps_of inh xs) = Inl e"
  using assms
proof (induction cs arbitrary: xs)
  case (Cons c cs)
  show ?case
  proof (cases "equal_fold c ''ALL''")
    case True
    then show ?thesis using Cons.IH [OF Cons.prems] by simp
  next
    case False
    show ?thesis
    proof (cases "to_upper (toCAPPrefixed c) \<in> cap_name ` set (cl_names lib)")
      case True
      then show ?thesis
        using False Cons.IH [OF drop_cap_canonical(1) [OF Cons.prems, of "toCAPPrefixed c"]]
        by (auto simp: drop_process_cap_caps_of drop_cap_canonical Cons.prems Diff_insert2 [symmetric])
    next
      case no: False
      then obtain cs' e where "drop_process_cap lib inh (toCAPPrefixed c) (caps_of inh xs) = (cs', Some e)"
        using drop_process_cap_caps_of(2) by blast
      then show ?thesis using False no by simp
    qed
  qed
qed auto

text \<open>The capabilities a request asks for, and those it starts from: all of the host's when it
  adds \<^verbatim>\<open>ALL\<close> and does not drop \<^verbatim>\<open>ALL\<close>, and the defaults when it does
  neither.\<close>

definition requested_caps :: "cap_library \<Rightarrow> Capability \<Rightarrow> string list \<Rightarrow> string set" where
  "requested_caps lib cp defaults =
     (if inStringSlice (AddCapabilities cp) ''ALL''
      then if inStringSlice (DropCapabilities cp) ''ALL'' then {} else set (getOCICapabilitiesList lib)
      else if inStringSlice (DropCapabilities cp) ''ALL'' then {} else named_caps defaults) \<union> named_caps (AddCapabilities cp)"

lemma SpecSetupCapabilities_caps:
  assumes "named_caps (AddCapabilities cp) \<subseteq> set (getOCICapabilitiesList lib)"
    and "named_caps defaults \<subseteq> set (getOCICapabilitiesList lib)"
    and "named_caps (DropCapabilities cp) \<subseteq> cap_name ` set (cl_names lib)"
  shows "\<exists>xs. SpecSetupCapabilities lib (Some cp) defaults inh g = Inr (g\<lparr>g_Caps := caps_of inh xs\<rparr>) \<and> canonical xs \<and>
      set xs = requested_caps lib cp defaults - named_caps (DropCapabilities cp)"
proof -
  let ?host = "getOCICapabilitiesList lib"
  let ?addAll = "inStringSlice (AddCapabilities cp) ''ALL''" and ?dropAll = "inStringSlice (DropCapabilities cp) ''ALL''"
  have none: "no_caps = caps_of inh []" "canonical []"
    by (simp_all add: no_caps_def caps_of_def canonical_def)
  obtain ys where ys: "(if ?addAll then add_process_caps lib inh ?host no_caps else Inr no_caps) = Inr (caps_of inh ys)"
      "canonical ys" "set ys = (if ?addAll then set ?host else {})"
    using add_process_caps_caps_of [OF none(2), of ?host lib inh] none by (cases ?addAll) auto
  obtain zs where zs: "(if ?dropAll then drop_process_caps lib inh ?host (caps_of inh ys) else Inr (caps_of inh ys)) = Inr (caps_of inh zs)"
      "canonical zs" "set zs = (if ?dropAll then set ys - set ?host else set ys)"
    using drop_process_caps_caps_of [OF ys(2), of ?host lib inh] ys(2) by (cases ?dropAll) auto
  define add where "add = (if \<not> (?addAll \<or> ?dropAll) then AddCapabilities cp @ defaults else AddCapabilities cp)"
  have "named_caps add \<subseteq> set ?host"
    using assms(1,2) by (simp add: add_def)
  then obtain us where us: "add_requested lib inh add (caps_of inh zs) = Inr (caps_of inh us)" "canonical us"
      "set us = set zs \<union> named_caps add"
    using add_requested_caps_of [OF zs(2), of add lib inh] by auto
  obtain vs where vs: "drop_requested lib inh (DropCapabilities cp) (caps_of inh us) = Inr (caps_of inh vs)" "canonical vs"
      "set vs = set us - named_caps (DropCapabilities cp)"
    using drop_requested_caps_of [OF us(2), of "DropCapabilities cp" lib inh] assms(3) by auto
  have "SpecSetupCapabilities lib (Some cp) defaults inh g = Inr (g\<lparr>g_Caps := caps_of inh vs\<rparr>)"
    unfolding SpecSetupCapabilities_def Let_def option.case ys(1) sum.case zs(1) add_def [symmetric] us(1) vs(1) ..
  moreover have "set us = requested_caps lib cp defaults"
    by (auto simp: us(3) zs(3) ys(3) add_def requested_caps_def)
  ultimately show ?thesis using vs(2,3) by blast
qed

text \<open>C37: A container that is not privileged gets exactly the capabilities its request asks for: those
  it starts from (all of the host's when the request adds ALL, none when it drops ALL, and
  otherwise the configured defaults) with the added ones and without the dropped ones, whatever the
  spelling of their names. The bounding, effective and permitted sets are equal and without
  duplicates, the inheritable set is empty unless the configuration asks for it, the ambient
  set is always empty, and nothing else of the specification changes.\<close>

theorem capabilities_as_requested:
  assumes "named_caps (AddCapabilities cp) \<subseteq> set (getOCICapabilitiesList lib)"
    and "named_caps defaults \<subseteq> set (getOCICapabilitiesList lib)"
    and "named_caps (DropCapabilities cp) \<subseteq> cap_name ` set (cl_names lib)"
  shows "\<exists>g'. SpecSetupCapabilities lib (Some cp) defaults inh g = Inr g' \<and> g' = g\<lparr>g_Caps := g_Caps g'\<rparr> \<and>
      set (Bounding (g_Caps g')) = requested_caps lib cp defaults - named_caps (DropCapabilities cp) \<and>
      distinct (Bounding (g_Caps g')) \<and> Effective (g_Caps g') = Bounding (g_Caps g') \<and> Permitted (g_Caps g') = Bounding (g_Caps g') \<and>
      Inheritable (g_Caps g') = (if inh then Bounding (g_Caps g') else []) \<and> Ambient (g_Caps g') = []"
proof -
  obtain xs where xs: "SpecSetupCapabilities lib (Some cp) defaults inh g = Inr (g\<lparr>g_Caps := caps_of inh xs\<rparr>)" "canonical xs"
      "set xs = requested_caps lib cp defaults - named_caps (DropCapabilities cp)"
    using SpecSetupCapabilities_caps [OF assms, of inh g] by blast
  then show ?thesis
    by (intro exI [of _ "g\<lparr>g_Caps := caps_of inh xs\<rparr>"]) (simp add: caps_of_def canonical_def)
qed

definition sample_caps :: cap_library where
  "sample_caps = \<lparr>cl_names = [''chown'', ''kill'', ''net_raw'', ''sys_admin''], cl_last = 3\<rparr>"

definition empty_SpecGen :: SpecGen where
  "empty_SpecGen = \<lparr>g_Args = [], g_Caps = no_caps, g_Annotations = Map.empty, g_Mounts = [], g_Namespaces = [],
     g_NoNewPrivs = False, g_MaskedPaths = [], g_ReadonlyPaths = [], g_SelinuxLabel = '''', g_ApparmorProfile = '''',
     g_Seccomp = None, g_OOMScoreAdj = None,
     g_CPU = \<lparr>cpu_Cpus = '''', cpu_Mems = '''', cpu_Period = None, cpu_Quota = None, cpu_Shares = None\<rparr>,
     g_Memory = \<lparr>mem_Limit = None, mem_Swap = None\<rparr>, g_Hugepages = [], g_Unified = Map.empty\<rparr>"

theorem capabilities_as_requested_witness:
  "\<exists>g'. SpecSetupCapabilities sample_caps (Some \<lparr>AddCapabilities = [''net_raw''], DropCapabilities = [''cap_Kill'']\<rparr>)
       [''CHOWN'', ''KILL''] False empty_SpecGen = Inr g' \<and> set (Bounding (g_Caps g')) = {''CAP_CHOWN'', ''CAP_NET_RAW''} \<and>
     Inheritable (g_Caps g') = []"
proof -
  let ?cp = "\<lparr>AddCapabilities = [''net_raw''], DropCapabilities = [''cap_Kill'']\<rparr>"
  have pref: "to_upper (toCAPPrefixed ''net_raw'') = ''CAP_NET_RAW''" "to_upper (toCAPPrefixed ''cap_Kill'') = ''CAP_KILL''"
    "to_upper (toCAPPrefixed ''CHOWN'') = ''CAP_CHOWN''" "to_upper (toCAPPrefixed ''KILL'') = ''CAP_KILL''"
    "equal_fold ''net_raw'' ''ALL'' = False" "equal_fold ''cap_Kill'' ''ALL'' = False"
    "equal_fold ''CHOWN'' ''ALL'' = False" "equal_fold ''KILL'' ''ALL'' = False"
    "inStringSlice [''net_raw''] ''ALL'' = False" "inStringSlice [''cap_Kill''] ''ALL'' = False"
    by (simp_all add: toCAPPrefixed_def has_prefix_def equal_fold_def inStringSlice_def case_eval)
  have names: "named_caps [''net_raw''] = {''CAP_NET_RAW''}" "named_caps [''cap_Kill''] = {''CAP_KILL''}"
    "named_caps [''CHOWN'', ''KILL''] = {''CAP_CHOWN'', ''CAP_KILL''}"
    by (simp_all only: named_caps_simps pref if_False)
  have host: "getOCICapabilitiesList sample_caps = [''CAP_CHOWN'', ''CAP_KILL'', ''CAP_NET_RAW'', ''CAP_SYS_ADMIN'']"
    "cap_name ` set (cl_names sample_caps) = {''CAP_CHOWN'', ''CAP_KILL'', ''CAP_NET_RAW'', ''CAP_SYS_ADMIN''}"
    by (simp_all add: getOCICapabilitiesList_def cap_name_def sample_caps_def case_eval)
  have sub: "{''CAP_NET_RAW''} \<subseteq> set (getOCICapabilitiesList sample_caps)"
    "{''CAP_CHOWN'', ''CAP_KILL''} \<subseteq> set (getOCICapabilitiesList sample_caps)"
    "{''CAP_KILL''} \<subseteq> cap_name ` set (cl_names sample_caps)"
    by (simp_all add: host)
  have "requested_caps sample_caps ?cp [''CHOWN'', ''KILL''] = {''CAP_CHOWN'', ''CAP_KILL''} \<union> {''CAP_NET_RAW''}"
    by (simp only: requested_caps_def Capability.simps pref names if_False)
  moreover have "{''CAP_CHOWN'', ''CAP_KILL''} \<union> {''CAP_NET_RAW''} - {''CAP_KILL''} = {''CAP_CHOWN'', ''CAP_NET_RAW''}"
    by auto
  ultimately show ?thesis
    using capabilities_as_requested [of ?cp sample_caps "[''CHOWN'', ''KILL'']" False empty_SpecGen]
    unfolding Capability.simps names if_False by (metis sub)
qed

section \<open>Resources and process of the specification\<close>

text \<open>C38: The memory limits of a container are consistent: the request is refused exactly when its
  non-zero memory limit is below the runtime's minimum or its swap limit is positive and below
  the memory limit; once accepted, the specification carries the memory limit, and a swap limit is
  either at least the memory limit or negative (unlimited), equal to the memory limit when the
  request names none, and absent on a node without swap accounting.\<close>

theorem memory_limits_consistent:
  assumes "mem_Swap (g_Memory g) = None" and "mem_Limit (g_Memory g) = None"
  shows "let (g', err) = SpecSetLinuxContainerResources nf r minMemory g; limit = MemoryLimitInBytes r; swap = MemorySwapLimitInBytes r
    in (err = None \<longleftrightarrow> limit = 0 \<or> minMemory \<le> limit \<and> \<not> (0 < swap \<and> swap < limit)) \<and>
       (err = None \<longrightarrow> mem_Limit (g_Memory g') = (if limit = 0 then None else Some limit) \<and>
          mem_Swap (g_Memory g') = (if limit = 0 \<or> \<not> CgroupHasMemorySwap nf then None else Some (if swap = 0 then limit else swap)) \<and>
          (\<forall>s. mem_Swap (g_Memory g') = Some s \<longrightarrow> limit \<le> s \<or> s < 0))"
  using assms by (auto simp: SpecSetLinuxContainerResources_def VerifyMemoryIsEnough_def Let_def)

theorem memory_limits_consistent_witness:
  "let r = zero_resources\<lparr>MemoryLimitInBytes := 536870912\<rparr>;
       (g', err) = SpecSetLinuxContainerResources \<lparr>CgroupHasMemorySwap = True, CgroupHasHugetlb = False, CgroupIsV2 = True\<rparr> r 12582912 empty_SpecGen
   in err = None \<and> mem_Swap (g_Memory g') = Some 536870912"
  using memory_limits_consistent [of empty_SpecGen "\<lparr>CgroupHasMemorySwap = True, CgroupHasHugetlb = False, CgroupIsV2 = True\<rparr>"
      "zero_resources\<lparr>MemoryLimitInBytes := 536870912\<rparr>" 12582912]
  by (simp add: empty_SpecGen_def zero_resources_def split_beta Let_def)

text \<open>The process a request and an image describe: the request's command, or the image's
  entry point when the request has none (nil, not empty); then the request's arguments, or the
  image's when the request has neither a command nor arguments.\<close>

definition process_args :: "image_config option \<Rightarrow> string list option \<Rightarrow> string list \<Rightarrow> string list" where
  "process_args img cmd args =
     (let has_cmd = (cmd \<noteq> None \<and> cmd \<noteq> Some []);
          (ep, def_args) = (case img of None \<Rightarrow> ([], []) | Some i \<Rightarrow> (img_Entrypoint i, img_Cmd i))
      in (case cmd of None \<Rightarrow> ep | Some c \<Rightarrow> c) @ (if args = [] \<and> \<not> has_cmd then def_args else args))"

text \<open>The process of a container is the request's command (or the image's entry point when the
  request has no command at all) followed by the request's arguments (or the image's when the
  request has neither command nor arguments); creation fails exactly when that is empty, and
  after it succeeds the entry point test for systemd cannot panic.\<close>

theorem process_args_resolved:
  "SpecSetProcessArgs img cf g =
     (let args = process_args img (cc_Command cf) (cc_Args cf)
      in if args = [] then Inl ''no command specified'' else Inr (g\<lparr>g_Args := args\<rparr>)) \<and>
   (case SpecSetProcessArgs img cf g of Inl _ \<Rightarrow> True | Inr g' \<Rightarrow> returned (WillRunSystemd g'))"
  by (auto simp: SpecSetProcessArgs_def process_args_def WillRunSystemd_def Let_def split: option.splits list.splits)

end
