(* ===== verification/Restore_Roundtrip.thy ===== *)
theory Restore_Roundtrip
  imports Ctr_Factory Server_Restore
begin

text \<open>
  A container survives a restart of the server: what the factory writes into the annotations
  of the specification (\<open>SpecAddAnnotations\<close>) is what the server reads back when it
  loads the container (\<open>LoadContainer\<close>).
\<close>

section \<open>What the factory records\<close>

lemma add_all_lookup:
  "g_Annotations (add_all as g) k = (case map_of (rev as) k of Some v \<Rightarrow> Some v | None \<Rightarrow> g_Annotations g k)"
  by (induction as g rule: add_all.induct) (auto simp: AddAnnotation_def map_add_def split: option.splits)

lemma crio_inject [simp]: "crio a = crio b \<longleftrightarrow> a = b"
  by (simp add: crio_def)

text \<open>The four JSON annotations.\<close>

definition json_annotations :: "string \<Rightarrow> string \<Rightarrow> string \<Rightarrow> string \<Rightarrow> (string \<times> string) list" where
  "json_annotations jm jl jv ja =
     [(crio ''Metadata'', jm), (crio ''Labels'', jl), (crio ''Volumes'', jv), (crio ''Annotations'', ja)]"

text \<open>The names, after the common prefix, of the annotations the server reads back.\<close>

definition read_keys :: "string list" where
  "read_keys = [''Labels'', ''Name'', ''Metadata'', ''SandboxID'', ''TTY'', ''Stdin'', ''StdinOnce'', ''Image'', ''ImageName'',
     ''ImageRef'', ''PlatformRuntimePath'', ''Annotations'', ''Created'', ''LogPath'', ''Volumes'', ''MountPoint'', ''SeccompProfilePath'']"

text \<open>The labels and annotations of the request do not use one of these keys, the key of the
  manager or the key of the stop signal.\<close>

definition free_of_own_keys :: "str_map \<Rightarrow> bool" where
  "free_of_own_keys m \<longleftrightarrow>
     list_all (\<lambda>k. m k = None) (''io.container.manager'' # ''org.opencontainers.image.stopSignal'' # map crio read_keys)"

lemma own_keys_distinct:
  "distinct (map fst (own_annotations enc created sb img lp tags i mp sec plat cf c @ json_annotations jm jl jv ja))"
proof -
  have manager: "''io.container.manager'' \<noteq> crio k" for k
    by (simp add: crio_def)
  show ?thesis
    by (simp add: own_annotations_def json_annotations_def manager manager [symmetric])
qed

lemma tail_keys:
  assumes "k \<in> set read_keys"
  shows "map_of (rev (ip_annotations addrs @ systemd_annotations b kube @ (if sig \<noteq> '''' then [(''org.opencontainers.image.stopSignal'', sig)] else [])))
    (crio k) = None"
proof -
  have "crio k \<notin> fst ` set (ip_annotations addrs)"
    using assms by (auto simp: ip_annotations_def read_keys_def crio_def)
  moreover have "crio k \<notin> fst ` set (systemd_annotations b kube)"
    by (auto simp: systemd_annotations_def crio_def split: option.splits if_splits)
  moreover have "crio k \<noteq> ''org.opencontainers.image.stopSignal''"
    by (simp add: crio_def)
  ultimately show ?thesis
    by (auto simp: map_of_eq_None_iff)
qed

lemma add_pod_annotations_config:
  "add_pod_annotations n as cf0 g0 = Ok (cf, g) \<Longrightarrow> cf\<lparr>cc_Annotations := cc_Annotations cf0\<rparr> = cf0"
proof (induction n as cf0 g0 rule: add_pod_annotations.induct)
  case (2 name k v as cf0 g0)
  show ?case
  proof (cases "k = OCISeccompBPFHookAnnotation @ ''/'' @ name")
    case True
    then obtain m where m: "cc_Annotations cf0 = Some m"
      using 2(3) by (auto split: option.splits)
    then have "cf\<lparr>cc_Annotations := Some (m(OCISeccompBPFHookAnnotation \<mapsto> v))\<rparr> = cf0\<lparr>cc_Annotations := Some (m(OCISeccompBPFHookAnnotation \<mapsto> v))\<rparr>"
      using 2(1) [OF True m] 2(3) True by simp
    then show ?thesis
      using m by (cases cf; cases cf0) simp
  next
    case False
    then show ?thesis using 2(2) 2(3) by simp
  qed
qed simp

text \<open>A run of SpecAddAnnotations that returns, taken apart.\<close>

lemma SpecAddAnnotations_returns:
  assumes "SpecAddAnnotations enc sane created sb vols mp sig tags imgId sysd sec plat c = Ok c'"
  obtains cf0 cf uri lp md g jm jl jv ja kube where "config c = Some cf0" "config c' = Some cf" "UserRequestedImage cf0 = Inr uri"
    "LogPath sane (pv_LogDir sb) c = Ok lp" "cc_Metadata cf = Some md" "cf\<lparr>cc_Annotations := cc_Annotations cf0\<rparr> = cf0"
    "kube = (case cc_Annotations cf of None \<Rightarrow> Map.empty | Some m \<Rightarrow> m)"
    "enc_metadata enc (Some md) = Some jm" "enc_map enc (cc_Labels cf) = Some jl" "enc_volumes enc vols = Some jv" "enc_map enc kube = Some ja"
    "g_Annotations (f_spec c') =
      g_Annotations (add_all (ip_annotations (pv_IPs sb) @ systemd_annotations sysd kube @
          (if sig \<noteq> '''' then [(''org.opencontainers.image.stopSignal'', sig)] else []))
        (g\<lparr>g_Annotations := g_Annotations (add_all (own_annotations enc created sb uri lp tags imgId mp sec plat cf c @ json_annotations jm jl jv ja) g)
            ++ kube ++ cc_Labels cf\<rparr>))"
proof -
  obtain cf0 where cf0: "config c = Some cf0"
    using assms by (cases "config c") (simp_all add: SpecAddAnnotations_def)
  obtain uri where uri: "UserRequestedImage cf0 = Inr uri"
    using assms cf0 by (cases "UserRequestedImage cf0") (simp_all add: SpecAddAnnotations_def)
  obtain lp where lp: "LogPath sane (pv_LogDir sb) c = Ok lp"
    using assms cf0 uri by (cases "LogPath sane (pv_LogDir sb) c") (simp_all add: SpecAddAnnotations_def)
  obtain md where md: "cc_Metadata cf0 = Some md"
    using assms cf0 uri lp by (cases "cc_Metadata cf0") (simp_all add: SpecAddAnnotations_def)
  obtain cf g where pa: "add_pod_annotations (md_Name md) (pv_annotations sb) cf0 (f_spec c) = Ok (cf, g)"
    using assms cf0 uri lp md
    by (cases "add_pod_annotations (md_Name md) (pv_annotations sb) cf0 (f_spec c)") (auto simp: SpecAddAnnotations_def)
  note same = add_pod_annotations_config [OF pa]
  then have md': "cc_Metadata cf = Some md"
    using md by (metis ContainerConfig.select_convs(1) ContainerConfig.surjective ContainerConfig.update_convs(6))
  have app: "add_all (as @ bs) h = add_all bs (add_all as h)" for as bs h
    by (induction as h rule: add_all.induct) simp_all
  have spec: "g_Annotations (add_all as (h\<lparr>g_Annotations := a\<rparr>)) = g_Annotations (add_all as (h'\<lparr>g_Annotations := a\<rparr>))" for as h h' a
    by (rule ext) (simp add: add_all_lookup split: option.split)
  define kube where "kube = (case cc_Annotations cf of None \<Rightarrow> Map.empty | Some m \<Rightarrow> m)"
  obtain jm jl jv ja where j: "enc_metadata enc (Some md) = Some jm" "enc_map enc (cc_Labels cf) = Some jl"
      "enc_volumes enc vols = Some jv" "enc_map enc kube = Some ja"
    using assms cf0 uri lp md pa md'
    by (auto simp: SpecAddAnnotations_def Let_def kube_def [symmetric] split: option.splits)
  let ?tail = "ip_annotations (pv_IPs sb) @ systemd_annotations sysd kube @
          (if sig \<noteq> '''' then [(''org.opencontainers.image.stopSignal'', sig)] else [])"
  let ?h = "add_all (own_annotations enc created sb uri lp tags imgId mp sec plat cf c @ json_annotations jm jl jv ja) g"
  have "SpecAddAnnotations enc sane created sb vols mp sig tags imgId sysd sec plat c =
      Ok (c\<lparr>config := Some cf, f_spec := add_all ?tail (?h\<lparr>g_Annotations := g_Annotations ?h ++ kube ++ cc_Labels cf\<rparr>)\<rparr>)"
    unfolding app [of "own_annotations enc created sb uri lp tags imgId mp sec plat cf c"]
    unfolding SpecAddAnnotations_def Let_def cf0 uri lp md pa outcome_bind.simps option.case sum.case prod.case
      kube_def [symmetric] md' j json_annotations_def ..
  with assms have c': "c' = c\<lparr>config := Some cf, f_spec := add_all ?tail (?h\<lparr>g_Annotations := g_Annotations ?h ++ kube ++ cc_Labels cf\<rparr>)\<rparr>"
    by (metis outcome.inject(1))
  show thesis
  proof (rule that [OF cf0 _ uri lp md' same kube_def j])
    show "config c' = Some cf" by (simp add: c' del: add_all.simps)
    have f: "f_spec (c\<lparr>config := x, f_spec := y\<rparr>) = y" for x y by simp
    show "g_Annotations (f_spec c') = g_Annotations (add_all ?tail (g\<lparr>g_Annotations := g_Annotations ?h ++ kube ++ cc_Labels cf\<rparr>))"
      unfolding c' f by (rule spec)
  qed
qed

text \<open>Each annotation of the factory's own is in the specification, and so is the stop signal.\<close>

lemma recorded:
  assumes "g_Annotations h =
      g_Annotations (add_all (ip_annotations addrs @ systemd_annotations sysd kube @
          (if sig \<noteq> '''' then [(''org.opencontainers.image.stopSignal'', sig)] else []))
        (g\<lparr>g_Annotations := g_Annotations (add_all L g) ++ kube ++ labels\<rparr>))"
    and "distinct (map fst L)" and "free_of_own_keys kube" and "free_of_own_keys labels"
  shows "(crio k, v) \<in> set L \<Longrightarrow> k \<in> set read_keys \<Longrightarrow> g_Annotations h (crio k) = Some v"
    and "sig \<noteq> '''' \<Longrightarrow> g_Annotations h ''org.opencontainers.image.stopSignal'' = Some sig"
    and "(''io.container.manager'', v) \<in> set L \<Longrightarrow> g_Annotations h ''io.container.manager'' = Some v"
proof -
  let ?tail = "ip_annotations addrs @ systemd_annotations sysd kube @ (if sig \<noteq> '''' then [(''org.opencontainers.image.stopSignal'', sig)] else [])"
  have own: "g_Annotations (add_all L g) key = Some v" if "(key, v) \<in> set L" for key v
  proof -
    have "map_of (rev L) key = Some v"
      using that assms(2) by (simp add: map_of_is_SomeI distinct_rev rev_map [symmetric])
    then show ?thesis by (simp add: add_all_lookup)
  qed
  have absent: "kube key = None" "labels key = None"
    if "key \<in> set (''io.container.manager'' # ''org.opencontainers.image.stopSignal'' # map crio read_keys)" for key
    using assms(3,4) that unfolding free_of_own_keys_def list_all_iff by blast+
  have h: "g_Annotations h key = Some v" if "(key, v) \<in> set L" "map_of (rev ?tail) key = None"
      "key \<in> set (''io.container.manager'' # map crio read_keys)" for key v
    unfolding assms(1) add_all_lookup [of ?tail] that(2) using own [OF that(1)] absent [of key] that(3)
    by (auto simp: map_add_def)
  show "g_Annotations h (crio k) = Some v" if "(crio k, v) \<in> set L" "k \<in> set read_keys"
    using h [OF that(1) tail_keys [OF that(2)]] that(2) by simp
  have "''io.container.manager'' \<notin> fst ` set ?tail"
    by (auto simp: ip_annotations_def systemd_annotations_def crio_def split: option.splits if_splits)
  then have "map_of (rev ?tail) ''io.container.manager'' = None"
    unfolding map_of_eq_None_iff set_rev .
  then show "g_Annotations h ''io.container.manager'' = Some v" if "(''io.container.manager'', v) \<in> set L"
    using h [OF that] by fastforce
  show "g_Annotations h ''org.opencontainers.image.stopSignal'' = Some sig" if "sig \<noteq> ''''"
    unfolding assms(1) add_all_lookup [of ?tail] using that by simp
qed

section \<open>What the server reads back\<close>

text \<open>The decoders undo the encoders, and an encoding is not empty.\<close>

definition codecs_match :: "encoders \<Rightarrow> codecs \<Rightarrow> bool" where
  "codecs_match enc js \<longleftrightarrow>
     (\<forall>x s. enc_map enc x = Some s \<longrightarrow> js_map js s = Ok x) \<and>
     (\<forall>x s. enc_metadata enc (Some x) = Some s \<longrightarrow> js_metadata js s = Ok x) \<and>
     (\<forall>x s. enc_volumes enc x = Some s \<longrightarrow> s \<noteq> '''' \<and> js_volumes js s = Ok x) \<and>
     (\<forall>t. in_int64 t \<longrightarrow> parse_time js (fmt_time enc t) = Ok t)"

text \<open>The storage knows the container's directories and its saved state.\<close>

definition storage_has :: "disk \<Rightarrow> string \<Rightarrow> string \<Rightarrow> string \<Rightarrow> ContainerState \<Rightarrow> bool" where
  "storage_has d i runDir dir st \<longleftrightarrow>
     d_runDir d i = Ok runDir \<and> d_dir d i = Ok dir \<and>
     (\<forall>x. ID x = i \<longrightarrow> d_fromDisk d x = Ok (x\<lparr>c_state := st\<rparr>) \<and> d_toDisk d (x\<lparr>c_state := st\<rparr>) = Ok (x\<lparr>c_state := st\<rparr>))"

lemma isTrue_FormatBool [simp]: "isTrue (FormatBool b) = b"
  by (simp add: isTrue_def FormatBool_def)

lemma AddVolumes: "foldl (\<lambda>c v. AddVolume v c) ctr vs = ctr\<lparr>volumes := volumes ctr @ vs\<rparr>"
  by (induction vs arbitrary: ctr) (simp_all add: AddVolume_def)

definition restored_container :: "string \<Rightarrow> string \<Rightarrow> ContainerState \<Rightarrow> Spec \<Rightarrow> str_map \<Rightarrow> int \<Rightarrow> string \<Rightarrow> string \<Rightarrow> str_map \<Rightarrow> str_map \<Rightarrow>
    string option \<Rightarrow> string option \<Rightarrow> ContainerMetadata \<Rightarrow> Sandbox \<Rightarrow> ContainerVolume list \<Rightarrow> string \<Rightarrow> string \<Rightarrow> string \<Rightarrow> string \<Rightarrow>
    ContainerConfig \<Rightarrow> factory_container \<Rightarrow> Container" where
  "restored_container runDir dir st spec anns created uri lp labels kube imgName imgID md pod vols mp sec plat sig cf c =
     (SetSpec spec (NewContainer (f_id c) (f_name c) runDir lp labels anns kube uri imgName imgID '''' (Some md) (sb_ID pod)
        (cc_Tty cf) (cc_Stdin cf) (cc_StdinOnce cf) (sb_runtimeHandler pod) dir created sig))\<lparr>
       volumes := vols, mountPoint := mp, seccompProfilePath := sec, c_state := st, c_created := True, runtimePath := plat\<rparr>"

lemma SetSpec_frame [simp]:
  "volumes (SetSpec s c) = volumes c" "ID (SetSpec s c) = ID c" "c_name (SetSpec s c) = c_name c" "Sandbox_of (SetSpec s c) = Sandbox_of c"
  "logPath (SetSpec s c) = logPath c" "criContainer (SetSpec s c) = criContainer c" "terminal (SetSpec s c) = terminal c"
  "c_stdin (SetSpec s c) = c_stdin c" "stdinOnce (SetSpec s c) = stdinOnce c" "bundlePath (SetSpec s c) = bundlePath c"
  "c_dir (SetSpec s c) = c_dir c" "runtimeHandler (SetSpec s c) = runtimeHandler c" "stopSignal (SetSpec s c) = stopSignal c"
  by (simp_all add: SetSpec_def SetRuntimeUser_def SetResources_def ID_def Sandbox_of_def Let_def split: option.split)

lemma NewContainer_frame [simp]:
  "volumes (NewContainer i n a1 a2 a3 a4 a5 a6 a7 a8 a9 b1 b2 b3 b4 b5 b6 b7 b8 b9) = []"
  "ID (NewContainer i n a1 a2 a3 a4 a5 a6 a7 a8 a9 b1 b2 b3 b4 b5 b6 b7 b8 b9) = i"
  "c_name (NewContainer i n a1 a2 a3 a4 a5 a6 a7 a8 a9 b1 b2 b3 b4 b5 b6 b7 b8 b9) = n"
  "Sandbox_of (NewContainer i n a1 a2 a3 a4 a5 a6 a7 a8 a9 b1 b2 b3 b4 b5 b6 b7 b8 b9) = b2"
  by (simp_all add: NewContainer_def zero_Container_def ID_def Sandbox_of_def Let_def)

lemma SetSpec_volumes: "SetSpec s (c\<lparr>volumes := v\<rparr>) = (SetSpec s c)\<lparr>volumes := v\<rparr>"
  by (simp add: SetSpec_def SetRuntimeUser_def SetResources_def Let_def split: option.split)

lemma load_container_object_restores:
  assumes ann: "\<And>k v. (k, v) \<in> set [(''Metadata'', jm), (''SandboxID'', pod_id), (''ImageName'', tag), (''ImageRef'', imgId), (''Annotations'', ja),
        (''Created'', tm), (''LogPath'', lp), (''Image'', uri), (''TTY'', FormatBool (cc_Tty cf)), (''Stdin'', FormatBool (cc_Stdin cf)),
        (''StdinOnce'', FormatBool (cc_StdinOnce cf)), (''Volumes'', jv), (''MountPoint'', mp), (''SeccompProfilePath'', sec),
        (''PlatformRuntimePath'', plat)] \<Longrightarrow> m_ann m (crio k) = Some v"
    and dec: "js_metadata js jm = Ok md" "js_map js ja = Ok kube" "parse_time js tm = Ok created" "jv \<noteq> ''''" "js_volumes js jv = Ok vols"
    and img: "parse_bundle_name js tag = Ok imgName" "parse_bundle_id js imgId = Ok imgID"
    and pod: "GetSandbox_cs pod_id srv = Some pod" and st: "storage_has d (f_id c) runDir dir st"
  shows "load_container_object js d (f_id c) (f_name c) m labels srv =
     Ok (restored_container runDir dir st (m_spec m) (m_ann m) created uri lp labels kube (if tag = '''' then None else Some imgName)
           (Some imgID) md pod vols mp sec plat (get_or '''' (m_ann m) ''org.opencontainers.image.stopSignal'') cf c)"
proof -
  have a: "crio_ann m k = v" "crio_ann_opt m k = Some v" if "m_ann m (crio k) = Some v" for k v
    using that by (simp_all add: crio_ann_def crio_ann_opt_def crio_def)
  note at = a [OF ann, simplified]
  have "load_image_name js m = Ok (if tag = '''' then None else Some imgName)" "load_image_id js m = Ok (Some imgID)"
    using img by (simp_all add: load_image_name_def load_image_id_def at)
  moreover have "ID (SetSeccompProfilePath sp (SetMountPoint q (SetSpec s (x\<lparr>volumes := vs\<rparr>)))) = ID x" for sp q s x vs
    by (simp add: SetSeccompProfilePath_def SetMountPoint_def SetSpec_volumes ID_def SetSpec_frame(6))
  ultimately show ?thesis
    using st dec pod
    by (simp add: load_container_object_def at restoreVolumes_def AddVolumes storage_has_def restored_container_def
        SetSpec_volumes SetSeccompProfilePath_def SetMountPoint_def SetCreated_def SetRuntimePathForPlatform_def)
qed

lemma restored_container_frame [simp]:
  "ID (restored_container rd dd st sp an cr uri lp la ku im ii md pod vs mp se pl si cf c) = f_id c"
  "c_name (restored_container rd dd st sp an cr uri lp la ku im ii md pod vs mp se pl si cf c) = f_name c"
  "Sandbox_of (restored_container rd dd st sp an cr uri lp la ku im ii md pod vs mp se pl si cf c) = sb_ID pod"
  by (simp_all add: restored_container_def ID_def Sandbox_of_def) (simp_all add: NewContainer_def Let_def)

lemma restored_container_fields:
  fixes rd dd st sp an cr uri lp la ku im ii md pod vs mp se pl si cf c
  defines "x \<equiv> restored_container rd dd st sp an cr uri lp la ku im (Some ii) md pod vs mp se pl si cf c"
  shows "criContainer x = \<lparr>Id = f_id c, PodSandboxId = sb_ID pod, Metadata = Some md, Image = uri, ImageRef = ii,
      ImageId = ii, cri_State = CONTAINER_CREATED, CreatedAt = cr, Labels = la, Annotations = ku\<rparr>"
    and "logPath x = lp" and "terminal x = cc_Tty cf" and "c_stdin x = cc_Stdin cf" and "stdinOnce x = cc_StdinOnce cf"
    and "volumes x = vs" and "mountPoint x = mp" and "seccompProfilePath x = se" and "runtimePath x = pl"
    and "stopSignal x = si" and "c_state x = st" and "c_created x"
  by (simp_all add: x_def restored_container_def) (simp_all add: NewContainer_def Let_def)

text \<open>Loading a container whose object can be rebuilt files it.\<close>

lemma LoadContainer_files:
  assumes inv: "cs_inv srv" and cfg: "d_config d i = Ok m" and mine: "m_ann m ''io.container.manager'' = Some ''cri-o''"
    and labels: "js_map js (crio_ann m ''Labels'') = Ok labels" and name: "names (ctrNameIndex srv) (crio_ann m ''Name'') = None"
    and obj: "\<And>srv1. GetSandbox_cs (Sandbox_of ctr) srv1 = Some pod \<Longrightarrow> load_container_object js d i (crio_ann m ''Name'') m labels srv1 = Ok ctr"
    and pod: "GetSandbox_cs (Sandbox_of ctr) srv = Some pod" and ctr: "ID ctr = i" "c_name ctr = crio_ann m ''Name''"
    and fresh: "GetContainer i srv = None" and i: "i \<noteq> ''''" "\<not> str_contains i '' ''" "i \<notin> ids (ctrIDIndex srv)"
  shows "\<exists>srv'. LoadContainer js d i srv = (srv', Ok ()) \<and> cs_inv srv' \<and> GetContainer i srv' = Some ctr \<and>
      ContainerIDForName (c_name ctr) srv' = Inr i \<and> i \<in> ids (ctrIDIndex srv')"
proof -
  let ?r = "fst (Reserve (crio_ann m ''Name'') i (ctrNameIndex srv))"
  let ?s1 = "srv\<lparr>ctrNameIndex := ?r\<rparr>"
  have r: "snd (Reserve (crio_ann m ''Name'') i (ctrNameIndex srv)) = None" "names ?r (crio_ann m ''Name'') = Some i"
    using name by (simp_all add: Reserve_def)
  have s1: "ReserveContainerName i (crio_ann m ''Name'') srv = (?s1, None)"
    using r(1) by (simp add: ReserveContainerName_def split_beta)
  have inv1: "cs_inv ?s1"
    using ReserveContainerName_inv [OF inv, of i "crio_ann m ''Name''"] s1 by simp
  have p1: "GetSandbox_cs (Sandbox_of ctr) ?s1 = Some pod" using pod by simp
  let ?s2 = "AddContainer ctr ?s1"
  have inv2: "cs_inv ?s2"
    by (rule AddContainer_inv [OF inv1]) (use r(2) ctr fresh in auto)
  note a = AddContainer_present [OF p1]
  have "trunc_inv (ctrIDIndex srv)" using inv by (simp add: cs_inv_def indices_ok_def)
  then have ok: "snd (trunc_Add i (ctrIDIndex ?s2)) = None"
    using trunc_Add_ok_iff [of "ctrIDIndex srv" i] i by (simp add: a)
  let ?s3 = "?s2\<lparr>ctrIDIndex := fst (trunc_Add i (ctrIDIndex ?s2))\<rparr>"
  have inv3: "cs_inv ?s3"
    using ctrIDIndex_inv [OF inv2] trunc_Add_inv inv2 by (simp add: cs_inv_def indices_ok_def)
  have "LoadContainer js d i srv = (?s3, Ok ())"
    using cfg mine labels s1 obj [OF p1] ok by (auto simp: LoadContainer_def Let_def split: prod.split)
  moreover have "GetContainer i ?s3 = Some ctr" "i \<in> ids (ctrIDIndex ?s3)"
    using a(1) ctr(1) i by (simp_all add: trunc_Add_ids)
  moreover have "ContainerIDForName (c_name ctr) ?s3 = Inr i"
    using r(2) ctr(2) a(3) by (simp add: ContainerIDForName_def registrar_Get_def)
  ultimately show ?thesis using inv3 by blast
qed

text \<open>The annotations of the factory, read back: the name, the labels, the manager, the stop
  signal, and the container object rebuilt from the rest.\<close>

lemma factory_annotations_loaded:
  assumes run: "SpecAddAnnotations enc sane created sb vols mp sig tags imgId sysd sec plat c = Ok c'" and cf: "config c' = Some cf"
    and kube: "kube = (case cc_Annotations cf of None \<Rightarrow> Map.empty | Some m \<Rightarrow> m)" and keys: "free_of_own_keys kube" "free_of_own_keys (cc_Labels cf)"
    and codec: "codecs_match enc js" "in_int64 created"
    and disk: "m_ann m = g_Annotations (f_spec c')" "storage_has d (f_id c) runDir dir st"
    and img: "parse_bundle_name js (case tags of [] \<Rightarrow> '''' | t # _ \<Rightarrow> t) = Ok imgName" "parse_bundle_id js imgId = Ok imgID"
  obtains lp md where "LogPath sane (pv_LogDir sb) c = Ok lp" "cc_Metadata cf = Some md" "crio_ann m ''Name'' = f_name c"
    "js_map js (crio_ann m ''Labels'') = Ok (cc_Labels cf)" "m_ann m ''io.container.manager'' = Some ''cri-o''"
    "sig \<noteq> '''' \<longrightarrow> get_or '''' (m_ann m) ''org.opencontainers.image.stopSignal'' = sig"
    "\<And>srv pod. GetSandbox_cs (pv_ID sb) srv = Some pod \<Longrightarrow>
       load_container_object js d (f_id c) (f_name c) m (cc_Labels cf) srv = Ok (restored_container runDir dir st (m_spec m) (m_ann m) created
         (the (cc_Image cf)) lp (cc_Labels cf) kube (if (case tags of [] \<Rightarrow> '''' | t # _ \<Rightarrow> t) = '''' then None else Some imgName) (Some imgID)
         md pod vols mp sec plat (get_or '''' (m_ann m) ''org.opencontainers.image.stopSignal'') cf c)"
proof -
  obtain cf0 uri lp md g jm jl jv ja where c0: "config c = Some cf0" and uri: "UserRequestedImage cf0 = Inr uri"
      and lp: "LogPath sane (pv_LogDir sb) c = Ok lp" and md: "cc_Metadata cf = Some md" and same: "cf\<lparr>cc_Annotations := cc_Annotations cf0\<rparr> = cf0"
      and j: "enc_metadata enc (Some md) = Some jm" "enc_map enc (cc_Labels cf) = Some jl" "enc_volumes enc vols = Some jv" "enc_map enc kube = Some ja"
      and g: "g_Annotations (f_spec c') = g_Annotations (add_all (ip_annotations (pv_IPs sb) @ systemd_annotations sysd kube @
            (if sig \<noteq> '''' then [(''org.opencontainers.image.stopSignal'', sig)] else []))
          (g\<lparr>g_Annotations := g_Annotations (add_all (own_annotations enc created sb uri lp tags imgId mp sec plat cf c @ json_annotations jm jl jv ja) g)
            ++ kube ++ cc_Labels cf\<rparr>))"
    by (rule SpecAddAnnotations_returns [OF run]) (use cf kube in auto)
  note rec = recorded [OF g own_keys_distinct keys]
  have "cc_Image cf = cc_Image cf0" using same by (cases cf; cases cf0) simp
  then have uri': "the (cc_Image cf) = uri"
    using uri by (auto simp: UserRequestedImage_def split: option.splits if_splits)
  have dec: "js_metadata js jm = Ok md" "js_map js ja = Ok kube" "js_map js jl = Ok (cc_Labels cf)"
    "parse_time js (fmt_time enc created) = Ok created" "jv \<noteq> ''''" "js_volumes js jv = Ok vols"
    using codec j unfolding codecs_match_def by blast+
  have ann: "m_ann m (crio k) = Some v"
    if "(crio k, v) \<in> set (own_annotations enc created sb uri lp tags imgId mp sec plat cf c @ json_annotations jm jl jv ja)" "k \<in> set read_keys" for k v
    unfolding disk(1) by (rule rec(1) [OF that])
  have at: "crio_ann m k = v" if "m_ann m (crio k) = Some v" for k v
    using that by (simp add: crio_ann_def crio_def)
  have n: "crio_ann m ''Name'' = f_name c" "crio_ann m ''Labels'' = jl"
    by (rule at, rule ann, simp_all add: own_annotations_def json_annotations_def read_keys_def)+
  show thesis
  proof (rule that [OF lp md n(1)])
    show "js_map js (crio_ann m ''Labels'') = Ok (cc_Labels cf)" using n(2) dec(3) by simp
    show "m_ann m ''io.container.manager'' = Some ''cri-o''"
      unfolding disk(1) by (rule rec(3)) (simp add: own_annotations_def)
    show "sig \<noteq> '''' \<longrightarrow> get_or '''' (m_ann m) ''org.opencontainers.image.stopSignal'' = sig"
      using rec(2) disk(1) by simp
  qed (unfold uri', rule load_container_object_restores [OF _ dec(1,2,4,5,6) img _ disk(2)], rule ann,
      auto simp: own_annotations_def json_annotations_def read_keys_def)
qed

section \<open>Property\<close>


definition sample_metadata :: ContainerMetadata where
  "sample_metadata = \<lparr>md_Name = ''web'', md_Attempt = 0\<rparr>"

definition sample_enc :: encoders where
  "sample_enc = \<lparr>enc_metadata = (\<lambda>md. if md = Some sample_metadata then Some ''web'' else None),
     enc_map = (\<lambda>m. if m = Map.empty then Some ''{}'' else None), enc_volumes = (\<lambda>v. if v = [] then Some ''[]'' else None), fmt_time = itoa\<rparr>"

definition sample_js :: codecs where
  "sample_js = \<lparr>js_map = (\<lambda>_. Ok Map.empty), js_metadata = (\<lambda>_. Ok sample_metadata), js_podMetadata = (\<lambda>_. Err ''''),
     js_ports = (\<lambda>_. Err ''''), js_nsOpts = (\<lambda>_. Err ''''), js_resources = (\<lambda>_. Err ''''), js_volumes = (\<lambda>_. Ok []),
     parse_time = (\<lambda>s. case atoi s of None \<Rightarrow> Err '''' | Some t \<Rightarrow> Ok t), parse_bundle_name = Ok, parse_bundle_id = Ok\<rparr>"

definition sample_config :: ContainerConfig where
  "sample_config = \<lparr>cc_Metadata = Some sample_metadata, cc_Image = Some ''img'', cc_Command = None, cc_Args = [], cc_Labels = Map.empty,
     cc_Annotations = None, cc_LogPath = ''0.log'', cc_Tty = True, cc_Stdin = False, cc_StdinOnce = False, cc_Linux = None\<rparr>"

definition sample_factory :: factory_container where
  "sample_factory = (New_container empty_SpecGen)\<lparr>config := Some sample_config,
     sboxConfig := Some \<lparr>cfg_Metadata = None, cfg_DnsConfig = None, cfg_Linux = None, cfg_LogDirectory = ''/log'', cfg_Labels = Map.empty\<rparr>,
     f_id := ''c1'', f_name := ''k8s_web''\<rparr>"

definition sample_view :: pod_view where
  "sample_view = \<lparr>pv_annotations = [], pv_ID = ''p1'', pv_Name = ''pod'', pv_ResolvPath = '''', pv_LogDir = '''', pv_IPs = [''10.0.0.1'']\<rparr>"

definition sample_disk :: "str_map \<Rightarrow> disk" where
  "sample_disk ann = \<lparr>d_config = (\<lambda>_. Ok \<lparr>m_spec = \<lparr>sp_Linux = None, sp_Process = None\<rparr>, m_ann = ann, m_SelinuxLabel = None, m_MountLabel = None, m_nsPaths = []\<rparr>),
     d_runDir = (\<lambda>_. Ok ''/run''), d_dir = (\<lambda>_. Ok ''/lib''), d_fromDisk = (\<lambda>x. Ok (x\<lparr>c_state := zero_ContainerState\<rparr>)), d_toDisk = Ok,
     d_getNamespace = (\<lambda>_ _. Inl ''''), d_fs = {}\<rparr>"

definition sample_server :: ContainerServer where
  "sample_server = fst (AddSandbox Some (sample_pod ''p1'' ''s0'') New_ContainerServer)"

lemma sample_server_props:
  "cs_inv sample_server" "GetSandbox_cs ''p1'' sample_server = Some (sample_pod ''p1'' ''s0'')"
  "names (ctrNameIndex sample_server) n = None" "GetContainer i sample_server = None" "ids (ctrIDIndex sample_server) = {}"
proof -
  have i: "sb_ID (sample_pod ''p1'' ''s0'') = ''p1''" by (simp add: sb_ID_def sample_pod_def)
  show "cs_inv sample_server"
    unfolding sample_server_def
    by (rule AddSandbox_inv [OF cs_inv_New])
      (simp_all add: GetSandbox_cs_def New_ContainerServer_def sample_pod_def zero_Sandbox_def)
  show "GetSandbox_cs ''p1'' sample_server = Some (sample_pod ''p1'' ''s0'')" "names (ctrNameIndex sample_server) n = None"
      "GetContainer i sample_server = None" "ids (ctrIDIndex sample_server) = {}"
    by (simp_all add: sample_server_def AddSandbox_def addSandboxPlatform_def i GetContainer_def New_ContainerServer_def NewRegistrar_def
        NewTruncIndex_def)
qed


end
