(* ===== verification/Server_Lifecycle.thy ===== *)
theory Server_Lifecycle
  imports Container_Server Resource_Store Ctr_Factory
begin

text \<open>
  The requests that create, stop and remove containers and pods (package \<^verbatim>\<open>server\<close>:
  \<^verbatim>\<open>container_create.go\<close>, \<^verbatim>\<open>container_remove.go\<close>,
  \<^verbatim>\<open>container_stop.go\<close>, \<^verbatim>\<open>sandbox_stop_linux.go\<close>,
  \<^verbatim>\<open>sandbox_remove.go\<close>, \<^verbatim>\<open>utils.go\<close> and the helpers of
  \<^verbatim>\<open>server.go\<close>), over the container server and the resource store.

  A request runs to its end before the next one starts; the only part that runs beside them
  is the clean-up loop of the resource store. What lies outside the server (storage, the
  runtime processes, the network, NRI and the hooks of the runtime handlers) is a world
  \<open>'e\<close> with the operations of the record \<open>services\<close>, each of which may fail.
  Creating the container object (\<^verbatim>\<open>createSandboxContainer\<close>) is one of them: it makes
  the storage of the container and its specification, and touches of the server only the
  stage shown in the resource store.
\<close>

section \<open>State\<close>

record 'e srv =
  cs :: ContainerServer
  world :: 'e

datatype storage_error = ErrContainerUnknown | StorageError string

record 'e services =
  sv_createSandboxContainer :: "factory_container \<Rightarrow> Sandbox \<Rightarrow> 'e \<Rightarrow> 'e \<times> string list \<times> (string + Container)"
  sv_storageDelete :: "string \<Rightarrow> 'e \<Rightarrow> 'e \<times> storage_error option"
  sv_runtimeCreate :: "Container \<Rightarrow> 'e \<Rightarrow> 'e \<times> Container \<times> string option"
  sv_runtimeDelete :: "Container \<Rightarrow> 'e \<Rightarrow> 'e \<times> string option"
  sv_runtimeStop :: "Container \<Rightarrow> int \<Rightarrow> 'e \<Rightarrow> 'e \<times> Container \<times> string option"
  sv_preStop :: "Container \<Rightarrow> Sandbox \<Rightarrow> 'e \<Rightarrow> 'e \<times> string option"
  sv_postStop :: "Container \<Rightarrow> Sandbox \<Rightarrow> 'e \<Rightarrow> 'e"
  sv_stateToDisk :: "Container \<Rightarrow> 'e \<Rightarrow> 'e"
  sv_nriStop :: "Container \<Rightarrow> 'e \<Rightarrow> 'e \<times> string option"
  sv_nriRemove :: "Container \<Rightarrow> 'e \<Rightarrow> 'e"
  sv_removeExitFile :: "string \<Rightarrow> 'e \<Rightarrow> 'e \<times> string option"
  sv_cleanupConmonCgroup :: "Container \<Rightarrow> 'e \<Rightarrow> 'e"
  sv_postCreate :: "Container \<Rightarrow> 'e \<Rightarrow> 'e"
  sv_unmountShm :: "Sandbox \<Rightarrow> 'e \<Rightarrow> 'e \<times> string option"
  sv_removeSandboxCgroup :: "Sandbox \<Rightarrow> 'e \<Rightarrow> 'e \<times> string option"
  sv_tearDownNetwork :: "Sandbox \<Rightarrow> 'e \<Rightarrow> 'e \<times> string option"
  sv_networkStoppedFile :: "Sandbox \<Rightarrow> 'e \<Rightarrow> 'e \<times> string option"
  sv_removeNamespaces :: "Sandbox \<Rightarrow> 'e \<Rightarrow> 'e \<times> string option"
  sv_nriStopPod :: "Sandbox \<Rightarrow> 'e \<Rightarrow> 'e \<times> string option"
  sv_unlinkLogs :: "Sandbox \<Rightarrow> 'e \<Rightarrow> 'e"
  sv_isContainerUnknown :: "string \<Rightarrow> bool"
  sv_setStoppedFile :: "Sandbox \<Rightarrow> 'e \<Rightarrow> 'e"
  sv_level :: "string \<Rightarrow> string option"


section \<open>Helpers\<close>

definition defaultStopTimeout :: int where
  "defaultStopTimeout = 10"

text \<open>The argument is the time until the deadline in nanoseconds, if there is one. Both
  divisions truncate towards zero.\<close>

definition stopTimeoutFromContext :: "int option \<Rightarrow> int" where
  "stopTimeoutFromContext deadline =
     (case deadline of None \<Rightarrow> defaultStopTimeout | Some t \<Rightarrow> quot_trunc (quot_trunc t 1000000) 1000)"

definition getPodSandboxFromRequest :: "string \<Rightarrow> ContainerServer \<Rightarrow> lookup_error + Sandbox" where
  "getPodSandboxFromRequest podSandboxID c =
     (if podSandboxID = '''' then Inl LEmpty
      else case trunc_Get podSandboxID (podIDIndex c) of
             Inl e \<Rightarrow> Inl (LIndex e)
           | Inr i \<Rightarrow> (case GetSandbox_cs i c of
                        None \<Rightarrow> Inl (LNotFound i)
                      | Some sb \<Rightarrow> if sb_created sb then Inr sb else Inl (LNotCreated i)))"

text \<open>A change of the pod object that the server files under the identifier, and the call of
  SetCreated on the container object of the resource store.\<close>

definition change_pod :: "string \<Rightarrow> (Sandbox \<Rightarrow> Sandbox) \<Rightarrow> ContainerServer \<Rightarrow> ContainerServer" where
  "change_pod i f c = (case GetSandbox_cs i c of None \<Rightarrow> c | Some sb \<Rightarrow> put_sandbox i (f sb) c)"

definition mark_created :: "string \<Rightarrow> ContainerServer \<Rightarrow> ContainerServer" where
  "mark_created i c = (case GetContainer i c of None \<Rightarrow> c | Some ctr \<Rightarrow> changed (SetCreated ctr) c)"

text \<open>How the wait of a request for a resource another request is creating ends. Nothing is
  changed after it.\<close>

datatype wait_end = CtxDone | WaitedTooLong | WatcherFired

definition getResourceOrWait :: "wait_end \<Rightarrow> string \<Rightarrow> 'w ResourceStore \<Rightarrow> 'w ResourceStore \<times> (string + string)" where
  "getResourceOrWait we name rc =
     (let (rc1, cachedID) = rs_Get name rc
      in if cachedID \<noteq> '''' then (rc1, Inr cachedID)
         else let (rc2, _, st) = WatcherForResource name rc1
              in (rc2, Inl (''kubelet may be retrying requests that are timing out in CRI-O due to system load. Currently at stage '' @ st @ '': '' @
                   (case we of
                      CtxDone \<Rightarrow> ''context done''
                    | WaitedTooLong \<Rightarrow> ''waited too long for request to timeout or '' @ name @ '' to be created''
                    | WatcherFired \<Rightarrow> ''the requested '' @ name @ '' is now ready and will be provided to the kubelet on next retry''))))"

section \<open>Creating a container\<close>

record create_request =
  rq_Config :: "ContainerConfig option"
  rq_SandboxConfig :: "PodSandboxConfig option"
  rq_PodSandboxId :: string

text \<open>The clean-up functions registered during a creation, in the order of the code.\<close>

definition undo_name :: "string \<Rightarrow> 'e srv cleanupFunc" where
  "undo_name name s = (s\<lparr>cs := ReleaseContainerName name (cs s)\<rparr>, None)"

definition undo_storage :: "'e services \<Rightarrow> string \<Rightarrow> 'e srv cleanupFunc" where
  "undo_storage svc i s =
     (let (e, err) = sv_storageDelete svc i (world s)
      in (s\<lparr>world := e\<rparr>, case err of None \<Rightarrow> None | Some _ \<Rightarrow> Some ''failed to cleanup container storage''))"

definition undo_container :: "Container \<Rightarrow> 'e srv cleanupFunc" where
  "undo_container ctr s = (s\<lparr>cs := RemoveContainer ctr (cs s)\<rparr>, None)"

text \<open>Every error of the index's Delete says that there is no such identifier, which the
  function ignores.\<close>

definition undo_index :: "string \<Rightarrow> 'e srv cleanupFunc" where
  "undo_index i s =
     (let (ix, err) = trunc_Delete i (ctrIDIndex (cs s))
      in (s\<lparr>cs := (cs s)\<lparr>ctrIDIndex := ix\<rparr>\<rparr>,
          case err of None \<Rightarrow> None | Some (ErrNoSuchId _) \<Rightarrow> None | Some _ \<Rightarrow> Some ''index''))"

definition undo_runtime :: "'e services \<Rightarrow> Container \<Rightarrow> 'e srv cleanupFunc" where
  "undo_runtime svc ctr s =
     (let (e, err) = sv_runtimeDelete svc ctr (world s)
      in (s\<lparr>world := e\<rparr>, case err of None \<Rightarrow> None | Some _ \<Rightarrow> Some ''failed to delete container in runtime''))"

definition create_cleaner :: "'e services \<Rightarrow> string \<Rightarrow> string \<Rightarrow> Container \<Rightarrow> nat \<Rightarrow> 'e srv ResourceCleaner" where
  "create_cleaner svc i name ctr n =
     foldl (\<lambda>cl f. cleaner_Add f cl) NewResourceCleaner
       (take n [undo_name name, undo_storage svc i, undo_container ctr, undo_index i, undo_runtime svc ctr])"

definition SetStages :: "string \<Rightarrow> string list \<Rightarrow> 'w ResourceStore \<Rightarrow> 'w ResourceStore" where
  "SetStages name sts rc = foldl (\<lambda>rc st. SetStageForResource name st rc) rc sts"

text \<open>The end of a creation. \<open>expired\<close>: the context of the request is done by then, and the
  container is left in the resource store for the next attempt.\<close>

definition finish_creation :: "'e services \<Rightarrow> bool \<Rightarrow> string \<Rightarrow> string \<Rightarrow> Container \<Rightarrow> 'e srv \<Rightarrow> 'e srv ResourceStore \<Rightarrow>
    'e srv \<times> 'e srv ResourceStore \<times> string reply" where
  "finish_creation svc expired name i ctr s rc =
     (if expired
      then (case rs_Put name (Some i) (Some (create_cleaner svc i name ctr 5)) rc of
              Inl (PutExists _) \<Rightarrow> (s, rc, Fail ''context done'')
            | Inl PutBlocks \<Rightarrow> (s, rc, Hang)
            | Inr rc1 \<Rightarrow> (s, rc1, Fail ''context done''))
      else (let ctr1 = SetCreated ctr
            in (s\<lparr>world := sv_postCreate svc ctr1 (world s), cs := changed ctr1 (cs s)\<rparr>, rs_Delete name rc, Reply i)))"

text \<open>From the reserved name on.\<close>

definition create_reserved :: "'e services \<Rightarrow> bool \<Rightarrow> factory_container \<Rightarrow> Sandbox \<Rightarrow> 'e srv \<Rightarrow> 'e srv ResourceStore \<Rightarrow>
    'e srv \<times> 'e srv ResourceStore \<times> string reply" where
  "create_reserved svc expired ctr sb s rc =
     (let name = f_name ctr; i = f_id ctr;
          rc1 = SetStageForResource name ''container creating'' rc;
          fail = (\<lambda>n c0 s rc e. (fst (Cleanup (create_cleaner svc i name c0 n) s), rc, Fail e))
      in case sv_createSandboxContainer svc ctr sb (world s) of
           (e1, sts, Inl err) \<Rightarrow> fail 1 zero_Container (s\<lparr>world := e1\<rparr>) (SetStages name sts rc1) err
         | (e1, sts, Inr newContainer) \<Rightarrow>
             (let s1 = s\<lparr>world := e1, cs := AddContainer newContainer (cs s)\<rparr>;
                  rc2 = SetStages name sts rc1
              in case trunc_Add i (ctrIDIndex (cs s1)) of
                   (ix, Some _) \<Rightarrow> fail 3 newContainer (s1\<lparr>cs := (cs s1)\<lparr>ctrIDIndex := ix\<rparr>\<rparr>) rc2 ''index''
                 | (ix, None) \<Rightarrow>
                     (let s2 = s1\<lparr>cs := (cs s1)\<lparr>ctrIDIndex := ix\<rparr>\<rparr>;
                          rc3 = SetStageForResource name ''container runtime creation'' rc2
                      in case sv_runtimeCreate svc newContainer (world s2) of
                           (e2, ctr2, Some err) \<Rightarrow> fail 4 newContainer (s2\<lparr>world := e2, cs := changed ctr2 (cs s2)\<rparr>) rc3 err
                         | (e2, ctr2, None) \<Rightarrow>
                             finish_creation svc expired name i ctr2 (s2\<lparr>world := sv_stateToDisk svc ctr2 e2, cs := changed ctr2 (cs s2)\<rparr>) rc3)))"

definition CreateContainer :: "'e services \<Rightarrow> SpecGen \<Rightarrow> string \<Rightarrow> bool \<Rightarrow> wait_end \<Rightarrow> create_request \<Rightarrow> 'e srv \<Rightarrow> 'e srv ResourceStore \<Rightarrow>
    'e srv \<times> 'e srv ResourceStore \<times> string reply" where
  "CreateContainer svc g random expired we req s rc =
     (case (rq_Config req, rq_SandboxConfig req) of
        (None, _) \<Rightarrow> (s, rc, Fail ''config is nil'')
      | (Some cf, sc) \<Rightarrow>
          if cc_Image cf = None then (s, rc, Fail ''config image is nil'')
          else if sc = None then (s, rc, Fail ''sandbox config is nil'')
          else if Option.bind sc cfg_Metadata = None then (s, rc, Fail ''sandbox config metadata is nil'')
          else case getPodSandboxFromRequest (rq_PodSandboxId req) (cs s) of
                 Inl e \<Rightarrow> (s, rc, Fail (if e = LEmpty then ''PodSandboxId should not be empty'' else ''specified sandbox not found''))
               | Inr sb \<Rightarrow>
                   if stopped sb then (s, rc, Fail ''CreateContainer failed as the sandbox was stopped'')
                   else case factory_SetConfig (Some cf) sc (New_container g) of
                          Inl e \<Rightarrow> (s, rc, Fail e)
                        | Inr ctr0 \<Rightarrow>
                            (case SetNameAndID random '''' ctr0 of
                               Err e \<Rightarrow> (s, rc, Fail e) | Panic \<Rightarrow> (s, rc, Crash)
                             | Ok ctr \<Rightarrow>
                                 (case ReserveContainerName (f_id ctr) (f_name ctr) (cs s) of
                                    (c1, None) \<Rightarrow> create_reserved svc expired ctr sb (s\<lparr>cs := c1\<rparr>) rc
                                  | (c1, Some _) \<Rightarrow>
                                      (case ContainerIDForName (f_name ctr) c1 of
                                         Inl _ \<Rightarrow> (s\<lparr>cs := c1\<rparr>, rc, Fail ''failed to get ID of container with reserved name'')
                                       | Inr reservedID \<Rightarrow>
                                           if (case GetContainer reservedID c1 of None \<Rightarrow> False | Some r \<Rightarrow> c_created r)
                                           then (s\<lparr>cs := c1\<rparr>, rc, Reply reservedID)
                                           else (case getResourceOrWait we (f_name ctr) rc of
                                                   (rc1, Inr cachedID) \<Rightarrow> (s\<lparr>cs := mark_created cachedID c1\<rparr>, rc1, Reply cachedID)
                                                 | (rc1, Inl e) \<Rightarrow> (s\<lparr>cs := c1\<rparr>, rc1, Fail e))))))"

section \<open>Stopping and removing containers\<close>

definition stopContainer :: "'e services \<Rightarrow> Container \<Rightarrow> int \<Rightarrow> 'e srv \<Rightarrow> 'e srv \<times> unit reply" where
  "stopContainer svc ctr timeout s =
     (case GetSandbox_cs (Sandbox_of ctr) (cs s) of
        None \<Rightarrow> (s, Crash)
      | Some sb \<Rightarrow>
          (case sv_preStop svc ctr sb (world s) of
             (e1, Some err) \<Rightarrow> (s\<lparr>world := e1\<rparr>, Fail err)
           | (e1, None) \<Rightarrow>
               (case sv_runtimeStop svc ctr timeout e1 of
                  (e2, ctr', Some err) \<Rightarrow> (s\<lparr>world := e2, cs := changed ctr' (cs s)\<rparr>, Fail err)
                | (e2, ctr', None) \<Rightarrow>
                    (case sv_nriStop svc ctr' (sv_postStop svc ctr' sb (sv_stateToDisk svc ctr' e2)) of
                       (e3, Some err) \<Rightarrow> (s\<lparr>world := e3, cs := changed ctr' (cs s)\<rparr>, Fail err)
                     | (e3, None) \<Rightarrow> (s\<lparr>world := e3, cs := changed ctr' (cs s)\<rparr>, Reply ())))))"

definition StopContainer :: "'e services \<Rightarrow> string \<Rightarrow> int \<Rightarrow> 'e srv \<Rightarrow> 'e srv \<times> unit reply" where
  "StopContainer svc cid timeout s =
     (case GetContainerFromShortID cid (cs s) of
        Inl e \<Rightarrow> if e = LIndex ErrNotExist then (s, Reply ()) else (s, Fail ''could not find container'')
      | Inr ctr \<Rightarrow> stopContainer svc ctr timeout s)"

text \<open>The pod is a pointer that may be nil. The container is given by the object at the call;
  stopping may have changed it, but not what the removal uses.\<close>

definition remove_from_runtime :: "'e services \<Rightarrow> Container \<Rightarrow> 'e \<Rightarrow> 'e \<times> string option" where
  "remove_from_runtime svc ctr e0 =
     (case sv_runtimeDelete svc ctr (sv_nriRemove svc ctr e0) of
        (e1, Some err) \<Rightarrow> (e1, Some err)
      | (e1, None) \<Rightarrow>
          (case sv_removeExitFile svc (ID ctr) e1 of
             (e2, Some err) \<Rightarrow> (e2, Some err)
           | (e2, None) \<Rightarrow>
               (case sv_storageDelete svc (ID ctr) (sv_cleanupConmonCgroup svc ctr e2) of
                  (e3, Some (StorageError err)) \<Rightarrow> (e3, Some err) | (e3, _) \<Rightarrow> (e3, None))))"

definition forget_container :: "Container \<Rightarrow> ContainerServer \<Rightarrow> ContainerServer \<times> unit reply" where
  "forget_container ctr c =
     (let c1 = RemoveContainer ctr (ReleaseContainerName (c_name ctr) c)
      in case trunc_Delete (ID ctr) (ctrIDIndex c1) of
           (ix, Some _) \<Rightarrow> (c1\<lparr>ctrIDIndex := ix\<rparr>, Fail ''index'')
         | (ix, None) \<Rightarrow> (c1\<lparr>ctrIDIndex := ix\<rparr>, Reply ()))"

definition removeContainerInPod :: "'e services \<Rightarrow> int option \<Rightarrow> Sandbox option \<Rightarrow> Container \<Rightarrow> 'e srv \<Rightarrow> 'e srv \<times> unit reply" where
  "removeContainerInPod svc deadline pod ctr s =
     (case pod of None \<Rightarrow> (s, Crash)
      | Some sb \<Rightarrow>
          (case (if \<not> stopped sb then stopContainer svc ctr (stopTimeoutFromContext deadline) s else (s, Reply ())) of
             (s1, Reply _) \<Rightarrow>
               (case remove_from_runtime svc ctr (world s1) of
                  (e, Some err) \<Rightarrow> (s1\<lparr>world := e\<rparr>, Fail err)
                | (e, None) \<Rightarrow>
                    (case forget_container ctr (cs s1) of
                       (c, Reply _) \<Rightarrow> (s1\<lparr>world := e, cs := change_pod (sb_ID sb) (sb_RemoveContainer ctr) c\<rparr>, Reply ())
                     | (c, r) \<Rightarrow> (s1\<lparr>world := e, cs := c\<rparr>, r)))
           | (s1, r) \<Rightarrow> (s1, r)))"

definition RemoveContainer_rpc :: "'e services \<Rightarrow> int option \<Rightarrow> string \<Rightarrow> 'e srv \<Rightarrow> 'e srv \<times> unit reply" where
  "RemoveContainer_rpc svc deadline cid s =
     (case GetContainerFromShortID cid (cs s) of
        Inl e \<Rightarrow> if e = LIndex ErrNotExist then (s, Reply ()) else (s, Fail ''could not find container'')
      | Inr ctr \<Rightarrow> removeContainerInPod svc deadline (GetSandbox_cs (Sandbox_of ctr) (cs s)) ctr s)"

section \<open>Stopping and removing pods\<close>

definition networkStop :: "'e services \<Rightarrow> Sandbox \<Rightarrow> 'e srv \<Rightarrow> 'e srv \<times> unit reply" where
  "networkStop svc sb s =
     (if hostNetwork sb \<or> networkStopped sb then (s, Reply ())
      else case sv_tearDownNetwork svc sb (world s) of
             (e1, Some err) \<Rightarrow> (s\<lparr>world := e1\<rparr>, Fail err)
           | (e1, None) \<Rightarrow>
               (let c = change_pod (sb_ID sb) (\<lambda>sb. sb\<lparr>networkStopped := True\<rparr>) (cs s)
                in case sv_networkStoppedFile svc sb e1 of
                     (e2, Some err) \<Rightarrow> (s\<lparr>world := e2, cs := c\<rparr>, Fail err)
                   | (e2, None) \<Rightarrow> (s\<lparr>world := e2, cs := c\<rparr>, Reply ())))"

text \<open>The stops of a pod's containers run in parallel and are all waited for; here they run one
  after the other. One error fails the whole.\<close>

fun stop_all :: "'e services \<Rightarrow> int \<Rightarrow> Container list \<Rightarrow> 'e srv \<Rightarrow> 'e srv \<times> unit reply" where
  "stop_all svc t [] s = (s, Reply ())"
| "stop_all svc t (ctr # cts) s =
     (case stopContainer svc ctr t s of
        (s1, Crash) \<Rightarrow> (s1, Crash)
      | (s1, r) \<Rightarrow> (case stop_all svc t cts s1 of (s2, Reply _) \<Rightarrow> (s2, r) | (s2, r2) \<Rightarrow> (s2, r2)))"

text \<open>The error of an infra container that storage does not know is ignored.\<close>

definition stopPodSandbox :: "'e services \<Rightarrow> int option \<Rightarrow> Sandbox \<Rightarrow> 'e srv \<Rightarrow> 'e srv \<times> unit reply" where
  "stopPodSandbox svc deadline sb s =
     (let t = stopTimeoutFromContext deadline
      in case networkStop svc sb (s\<lparr>world := sv_unlinkLogs svc sb (world s)\<rparr>) of
           (s1, Reply _) \<Rightarrow>
             if stopped sb then (s1, Reply ())
             else (case stop_all svc t (filter (\<lambda>c. Status (c_state c) \<noteq> ContainerStateStopped)
                         (store_List container_CreatedAt (sb_containers sb))) s1 of
                     (s2, Reply _) \<Rightarrow>
                       (case infraContainer sb of None \<Rightarrow> (s2, Crash)
                        | Some infra \<Rightarrow>
                            (case (case stopContainer svc infra t s2 of
                                     (s3, Fail err) \<Rightarrow> (s3, if sv_isContainerUnknown svc err then Reply () else Fail err)
                                   | r \<Rightarrow> r) of
                               (s3, Reply _) \<Rightarrow>
                                 (case sv_removeNamespaces svc sb (world s3) of
                                    (e4, Some err) \<Rightarrow> (s3\<lparr>world := e4\<rparr>, Fail err)
                                  | (e4, None) \<Rightarrow>
                                      (case sv_unmountShm svc sb e4 of
                                         (e5, Some err) \<Rightarrow> (s3\<lparr>world := e5\<rparr>, Fail err)
                                       | (e5, None) \<Rightarrow>
                                           (case sv_nriStopPod svc sb e5 of
                                              (e6, Some err) \<Rightarrow> (s3\<lparr>world := e6\<rparr>, Fail err)
                                            | (e6, None) \<Rightarrow>
                                                (s3\<lparr>world := sv_setStoppedFile svc sb e6,
                                                    cs := change_pod (sb_ID sb) (\<lambda>sb. sb\<lparr>stopped := True\<rparr>) (cs s3)\<rparr>, Reply ()))))
                             | (s3, r) \<Rightarrow> (s3, r)))
                   | (s2, r) \<Rightarrow> (s2, r))
         | (s1, r) \<Rightarrow> (s1, r))"

definition StopPodSandbox :: "'e services \<Rightarrow> int option \<Rightarrow> string \<Rightarrow> 'e srv \<Rightarrow> 'e srv \<times> unit reply" where
  "StopPodSandbox svc deadline podID s =
     (case getPodSandboxFromRequest podID (cs s) of
        Inl LEmpty \<Rightarrow> (s, Fail ''PodSandboxId should not be empty'')
      | Inl (LNotCreated _) \<Rightarrow> (s, Fail ''StopPodSandbox failed as the sandbox is not created'')
      | Inl _ \<Rightarrow> (s, Reply ())
      | Inr sb \<Rightarrow> stopPodSandbox svc deadline sb s)"

fun remove_all :: "'e services \<Rightarrow> int option \<Rightarrow> Sandbox \<Rightarrow> Container list \<Rightarrow> 'e srv \<Rightarrow> 'e srv \<times> unit reply" where
  "remove_all svc d sb [] s = (s, Reply ())"
| "remove_all svc d sb (ctr # cts) s =
     (case removeContainerInPod svc d (Some sb) ctr s of
        (s1, Reply _) \<Rightarrow> remove_all svc d sb cts s1 | (s1, r) \<Rightarrow> (s1, r))"

text \<open>After the containers: the pod's own resources, then what the server holds of it. Removing
  a nil infra container panics.\<close>

definition forget_pod :: "'e services \<Rightarrow> Sandbox \<Rightarrow> ContainerServer \<Rightarrow> ContainerServer \<times> unit reply" where
  "forget_pod svc sb c =
     (let c1 = fst (RemoveSandbox (sv_level svc) (sb_ID sb) (ReleasePodName (sb_name sb) c))
      in case trunc_Delete (sb_ID sb) (podIDIndex c1) of
           (px, Some _) \<Rightarrow> (c1\<lparr>podIDIndex := px\<rparr>, Fail ''index'')
         | (px, None) \<Rightarrow> (c1\<lparr>podIDIndex := px\<rparr>, Reply ()))"

definition removePodSandbox :: "'e services \<Rightarrow> int option \<Rightarrow> Sandbox \<Rightarrow> 'e srv \<Rightarrow> 'e srv \<times> unit reply" where
  "removePodSandbox svc d sb s =
     (case remove_all svc d sb (store_List container_CreatedAt (sb_containers sb)) s of
        (s1, Reply _) \<Rightarrow>
          (case sv_unmountShm svc sb (world s1) of
             (e, Some err) \<Rightarrow> (s1\<lparr>world := e\<rparr>, Fail err)
           | (e, None) \<Rightarrow>
               (case infraContainer sb of None \<Rightarrow> (s1\<lparr>world := e\<rparr>, Crash)
                | Some infra \<Rightarrow>
                    (case removeContainerInPod svc d (Some sb) infra (s1\<lparr>world := e, cs := RemoveInfraContainer_cs infra (cs s1)\<rparr>) of
                       (s2, Reply _) \<Rightarrow>
                         (case (if spoofed infra then sv_removeSandboxCgroup svc sb (world s2) else (world s2, None)) of
                            (e2, Some err) \<Rightarrow> (s2\<lparr>world := e2\<rparr>, Fail err)
                          | (e2, None) \<Rightarrow>
                              (case networkStop svc sb (s2\<lparr>world := e2\<rparr>) of
                                 (s3, Reply _) \<Rightarrow>
                                   (case sv_removeNamespaces svc sb (world s3) of
                                      (e3, Some err) \<Rightarrow> (s3\<lparr>world := e3\<rparr>, Fail err)
                                    | (e3, None) \<Rightarrow>
                                        (let (c, r) = forget_pod svc sb (cs s3) in (s3\<lparr>world := e3, cs := c\<rparr>, r)))
                               | (s3, r) \<Rightarrow> (s3, r)))
                     | (s2, r) \<Rightarrow> (s2, r))))
      | (s1, r) \<Rightarrow> (s1, r))"

definition RemovePodSandbox :: "'e services \<Rightarrow> int option \<Rightarrow> string \<Rightarrow> 'e srv \<Rightarrow> 'e srv \<times> unit reply" where
  "RemovePodSandbox svc d podID s =
     (case getPodSandboxFromRequest podID (cs s) of
        Inl LEmpty \<Rightarrow> (s, Fail ''PodSandboxId should not be empty'')
      | Inl (LNotCreated _) \<Rightarrow> (s, Fail ''sandbox is not yet created'')
      | Inl _ \<Rightarrow> (s, Reply ())
      | Inr sb \<Rightarrow> removePodSandbox svc d sb s)"

section \<open>What a removal changes\<close>

text \<open>The operations of the runtime keep the identity of the container object they are given.\<close>

definition same_identity :: "Container \<Rightarrow> Container \<Rightarrow> bool" where
  "same_identity x y \<longleftrightarrow> ID x = ID y \<and> c_name x = c_name y \<and> Sandbox_of x = Sandbox_of y"

definition services_ok :: "'e services \<Rightarrow> bool" where
  "services_ok svc \<longleftrightarrow>
     (\<forall>f sb e e' sts ctr. sv_createSandboxContainer svc f sb e = (e', sts, Inr ctr) \<longrightarrow>
        ID ctr = f_id f \<and> c_name ctr = f_name f \<and> Sandbox_of ctr = sb_ID sb \<and> \<not> c_created ctr) \<and>
     (\<forall>ctr e. same_identity (fst (snd (sv_runtimeCreate svc ctr e))) ctr \<and>
        c_created (fst (snd (sv_runtimeCreate svc ctr e))) = c_created ctr) \<and>
     (\<forall>ctr t e. same_identity (fst (snd (sv_runtimeStop svc ctr t e))) ctr \<and>
        c_created (fst (snd (sv_runtimeStop svc ctr t e))) = c_created ctr)"

lemma services_okD:
  assumes "services_ok svc"
  shows "sv_createSandboxContainer svc f sb e = (e', sts, Inr ctr) \<Longrightarrow> ID ctr = f_id f \<and> c_name ctr = f_name f \<and> Sandbox_of ctr = sb_ID sb \<and> \<not> c_created ctr"
    and "sv_runtimeCreate svc ctr e = (e', ctr', r) \<Longrightarrow> same_identity ctr' ctr \<and> c_created ctr' = c_created ctr"
    and "sv_runtimeStop svc ctr t e = (e', ctr', r') \<Longrightarrow> same_identity ctr' ctr \<and> c_created ctr' = c_created ctr"
  using assms unfolding services_ok_def by (blast, (metis fst_conv snd_conv)+)

text \<open>The server after the containers of a set have been removed: their names are free, their
  identifiers not indexed, and their pods no longer list them; nothing else has changed.\<close>

definition pod_without :: "Container set \<Rightarrow> string \<Rightarrow> Sandbox option \<Rightarrow> Sandbox option \<Rightarrow> bool" where
  "pod_without xs p old new \<longleftrightarrow>
     (case old of None \<Rightarrow> new = None
      | Some sb \<Rightarrow> \<exists>st. new = Some (sb\<lparr>sb_containers := st\<rparr>) \<and>
          (\<forall>n. store_Get n st = (if n \<in> c_name ` {x \<in> xs. Sandbox_of x = p} then None else store_Get n (sb_containers sb)))) \<and>
     ({x \<in> xs. Sandbox_of x = p} = {} \<longrightarrow> new = old)"

definition removed :: "ContainerServer \<Rightarrow> ContainerServer \<Rightarrow> Container set \<Rightarrow> bool" where
  "removed c c' xs \<longleftrightarrow>
     (\<forall>i. GetContainer i c' = (if i \<in> ID ` xs then None else GetContainer i c)) \<and>
     (\<forall>n. names (ctrNameIndex c') n = (if n \<in> c_name ` xs then None else names (ctrNameIndex c) n)) \<and>
     ids (ctrIDIndex c') = ids (ctrIDIndex c) - ID ` xs \<and>
     podNameIndex c' = podNameIndex c \<and> podIDIndex c' = podIDIndex c \<and> infraContainers c' = infraContainers c \<and>
     (\<forall>p. pod_without xs p (GetSandbox_cs p c) (GetSandbox_cs p c'))"

lemma pod_without_refl: "pod_without {} p sb sb"
  by (cases sb) (auto simp: pod_without_def intro: exI [of _ "sb_containers (the sb)"])

lemma pod_without_SomeE:
  assumes "pod_without xs p (Some sb) new"
  obtains st where "new = Some (sb\<lparr>sb_containers := st\<rparr>)"
    "\<And>n. store_Get n st = (if n \<in> c_name ` {x \<in> xs. Sandbox_of x = p} then None else store_Get n (sb_containers sb))"
  using assms unfolding pod_without_def option.case by blast

lemma pod_without_trans:
  assumes "pod_without xs p a b" and "pod_without ys p b d"
  shows "pod_without (xs \<union> ys) p a d"
proof (cases a)
  case None
  then show ?thesis using assms by (simp add: pod_without_def)
next
  case (Some sb)
  obtain st where b: "b = Some (sb\<lparr>sb_containers := st\<rparr>)"
      and st: "\<And>n. store_Get n st = (if n \<in> c_name ` {x \<in> xs. Sandbox_of x = p} then None else store_Get n (sb_containers sb))"
    using pod_without_SomeE [OF assms(1) [unfolded Some]] by blast
  obtain st' where d: "d = Some (sb\<lparr>sb_containers := st'\<rparr>)"
      and s0: "\<And>n. store_Get n st' = (if n \<in> c_name ` {x \<in> ys. Sandbox_of x = p} then None else store_Get n (sb_containers (sb\<lparr>sb_containers := st\<rparr>)))"
    using pod_without_SomeE [OF assms(2) [unfolded b]] by (simp, blast)
  have st': "store_Get n st' = (if n \<in> c_name ` {x \<in> ys. Sandbox_of x = p} then None else store_Get n st)" for n
    using s0 [of n] by simp
  have u: "{x \<in> xs \<union> ys. Sandbox_of x = p} = {x \<in> xs. Sandbox_of x = p} \<union> {x \<in> ys. Sandbox_of x = p}"
    by blast
  have "store_Get n st' = (if n \<in> c_name ` {x \<in> xs \<union> ys. Sandbox_of x = p} then None else store_Get n (sb_containers sb))" for n
    unfolding u image_Un st' st by simp
  moreover have "{x \<in> xs \<union> ys. Sandbox_of x = p} = {} \<longrightarrow> d = a"
    using assms unfolding u pod_without_def by simp
  ultimately show ?thesis
    unfolding pod_without_def [of "xs \<union> ys"] Some d option.case by blast
qed

lemma pod_without_elsewhere: "\<forall>x \<in> xs. Sandbox_of x \<noteq> p \<Longrightarrow> pod_without xs p sb sb'  \<longleftrightarrow> sb' = sb"
  by (cases sb) (auto simp: pod_without_def intro: exI [of _ "sb_containers (the sb)"])

lemma pod_without_remove: "pod_without {x} (Sandbox_of x) (Some sb) (Some (sb_RemoveContainer x sb))"
proof -
  have "{y \<in> {x}. Sandbox_of y = Sandbox_of x} = {x}" by blast
  then show ?thesis
    unfolding pod_without_def option.case
    by (auto simp: sb_RemoveContainer_def intro!: exI [of _ "store_Delete (c_name x) (sb_containers sb)"])
qed

lemma removed_refl: "removed c c {}"
  by (simp add: removed_def pod_without_refl)

lemma removed_trans: "removed c c1 xs \<Longrightarrow> removed c1 c2 ys \<Longrightarrow> removed c c2 (xs \<union> ys)"
  unfolding removed_def by (auto simp: image_Un intro: pod_without_trans)

lemma removedD:
  assumes "removed c c' xs"
  shows "GetContainer i c' = (if i \<in> ID ` xs then None else GetContainer i c)"
    and "names (ctrNameIndex c') n = (if n \<in> c_name ` xs then None else names (ctrNameIndex c) n)"
    and "ids (ctrIDIndex c') = ids (ctrIDIndex c) - ID ` xs"
    and "podNameIndex c' = podNameIndex c" "podIDIndex c' = podIDIndex c" "infraContainers c' = infraContainers c"
    and "pod_without xs p (GetSandbox_cs p c) (GetSandbox_cs p c')"
  using assms unfolding removed_def by blast+


subsection \<open>One container\<close>

text \<open>What the server must hold of a container (an application's or a pod's own) for the removal
  to find all of it. The name of a pod's own container is reserved with an identifier that no
  container has, so that the entry of the name is only asked not to belong to another one.\<close>

definition recorded :: "ContainerServer \<Rightarrow> Container \<Rightarrow> bool" where
  "recorded c x \<longleftrightarrow> (\<exists>k. names (ctrNameIndex c) (c_name x) = Some k \<and> (k = ID x \<or> GetContainer k c = None)) \<and>
     ID x \<in> ids (ctrIDIndex c) \<and>
     (case GetContainer (ID x) c of None \<Rightarrow> True | Some old \<Rightarrow> same_identity old x) \<and>
     GetSandbox_cs (Sandbox_of x) c \<noteq> None"

lemma recordedD:
  assumes "recorded c x"
  shows "\<exists>k. names (ctrNameIndex c) (c_name x) = Some k \<and> (k = ID x \<or> GetContainer k c = None)" and "ID x \<in> ids (ctrIDIndex c)"
    and "GetContainer (ID x) c = Some old \<Longrightarrow> c_name old = c_name x \<and> Sandbox_of old = Sandbox_of x"
    and "\<exists>sb. GetSandbox_cs (Sandbox_of x) c = Some sb"
  using assms by (auto simp: recorded_def same_identity_def)

lemma recorded_name:
  assumes "cs_inv c" and "recorded c x" and "GetContainer i c = Some y" and "c_name y = c_name x"
  shows "i = ID x"
  using recordedD(1) [OF assms(2)] cs_inv_names [OF assms(1,3)] assms(3,4) by auto

lemma recorded_filed:
  assumes inv: "cs_inv c" and x: "GetContainer i c = Some x" and "i \<in> ids (ctrIDIndex c)"
  shows "recorded c x"
proof -
  note f = containers_filedD [of c i x, OF _ x]
  show ?thesis
    using f inv x assms(3) by (auto simp: recorded_def same_identity_def cs_inv_def)
qed

lemma trunc_inv_of: "cs_inv c \<Longrightarrow> trunc_inv (ctrIDIndex c)" "cs_inv c \<Longrightarrow> trunc_inv (podIDIndex c)"
  by (simp_all add: cs_inv_def indices_ok_def)

lemma forget_container_ok:
  assumes inv: "cs_inv c" and rec: "recorded c x"
  obtains c' where "forget_container x c = (c', Reply ())" and "cs_inv c'" and "removed c c' {x}"
proof -
  obtain sb where sb: "GetSandbox_cs (Sandbox_of x) c = Some sb" using recordedD(4) [OF rec] ..
  let ?n = "ReleaseContainerName (c_name x) c"
  let ?c1 = "RemoveContainer x ?n" and ?r = "RemoveContainer x c"
  let ?c2 = "?c1\<lparr>ctrIDIndex := fst (trunc_Delete (ID x) (ctrIDIndex ?c1))\<rparr>"
  have sbn: "GetSandbox_cs (Sandbox_of x) ?n = Some sb" using sb by (simp add: ReleaseContainerName_def)
  note a = RemoveContainer_present [OF sbn] and b = RemoveContainer_present [OF sb]
  have swap: "?c1 = ReleaseContainerName (c_name x) ?r"
    using sb by (simp add: RemoveContainer_def ReleaseContainerName_def put_sandbox_def Let_def)
  have r: "cs_inv ?r" by (rule RemoveContainer_inv [OF inv recorded_name [OF inv rec] recordedD(3) [OF rec]])
  have "c_name y \<noteq> c_name x" if "GetContainer i ?r = Some y" for i y
    using that recorded_name [OF inv rec, of i y] b(1) [of i] by (auto split: if_splits)
  then have 1: "cs_inv ?c1" unfolding swap using ReleaseContainerName_inv [OF r] by blast
  have ix: "ctrIDIndex ?c1 = ctrIDIndex c" using a(4) by (simp add: ReleaseContainerName_def)
  have "forget_container x c = (?c2, Reply ())"
    using trunc_Delete_ok_iff [OF trunc_inv_of(1) [OF 1], of "ID x"] recordedD(2) [OF rec] ix
    by (cases "trunc_Delete (ID x) (ctrIDIndex ?c1)") (simp add: forget_container_def Let_def)
  moreover have "cs_inv ?c2"
    by (rule ctrIDIndex_inv [OF 1 trunc_Delete_inv [OF trunc_inv_of(1) [OF 1]]])
  moreover have "pod_without {x} p (GetSandbox_cs p c) (GetSandbox_cs p ?c2)" for p
    using a(2) [of p] sb by (cases "p = Sandbox_of x") (simp_all add: pod_without_remove pod_without_elsewhere ReleaseContainerName_def)
  then have "removed c ?c2 {x}"
    using a(1) a(3-) by (simp add: removed_def trunc_Delete_ids trunc_inv_of [OF 1] ReleaseContainerName_def Release_names trunc_inv_of [OF inv])
  ultimately show thesis by (rule that)
qed


text \<open>A change of the object that keeps its identity.\<close>

lemma changed_cases:
  assumes inv: "cs_inv c" and rec: "recorded c x" and id: "same_identity x' x"
  shows "changed x' c = (if GetContainer (ID x) c = None then c else AddContainer x' c)"
    and "cs_inv (changed x' c)"
proof -
  have i: "ID x' = ID x" "c_name x' = c_name x" "Sandbox_of x' = Sandbox_of x"
    using id by (simp_all add: same_identity_def)
  have "changed x' c = (if GetContainer (ID x) c = None then c else AddContainer x' c) \<and> cs_inv (changed x' c)"
  proof (cases "GetContainer (ID x) c")
    case None
    then show ?thesis using changed_not_filed [OF inv, of x'] inv i by simp
  next
    case (Some old)
    then show ?thesis using changed_filed [OF inv, of x' old] recordedD(3) [OF rec Some] i by simp
  qed
  then show "changed x' c = (if GetContainer (ID x) c = None then c else AddContainer x' c)" "cs_inv (changed x' c)"
    by blast+
qed

lemma changed_frame:
  assumes inv: "cs_inv c" and rec: "recorded c x" and id: "same_identity x' x"
  shows "GetContainer i (changed x' c) = (if i = ID x \<and> GetContainer i c \<noteq> None then Some x' else GetContainer i c)"
    and "ctrNameIndex (changed x' c) = ctrNameIndex c" "ctrIDIndex (changed x' c) = ctrIDIndex c"
    and "podNameIndex (changed x' c) = podNameIndex c" "podIDIndex (changed x' c) = podIDIndex c"
    and "infraContainers (changed x' c) = infraContainers c"
    and "GetSandbox_cs p (changed x' c) = (if p = Sandbox_of x \<and> GetContainer (ID x) c \<noteq> None
      then map_option (sb_AddContainer x') (GetSandbox_cs p c) else GetSandbox_cs p c)"
proof -
  have i: "ID x' = ID x" "c_name x' = c_name x" "Sandbox_of x' = Sandbox_of x"
    using id by (simp_all add: same_identity_def)
  obtain sb where sb: "GetSandbox_cs (Sandbox_of x') c = Some sb" using recordedD(4) [OF rec] i by auto
  note a = changed_cases(1) [OF inv rec id] AddContainer_present [OF sb]
  show "GetContainer i (changed x' c) = (if i = ID x \<and> GetContainer i c \<noteq> None then Some x' else GetContainer i c)"
    "ctrNameIndex (changed x' c) = ctrNameIndex c" "ctrIDIndex (changed x' c) = ctrIDIndex c"
    "podNameIndex (changed x' c) = podNameIndex c" "podIDIndex (changed x' c) = podIDIndex c"
    "infraContainers (changed x' c) = infraContainers c"
    using a i(1) by auto
  show "GetSandbox_cs p (changed x' c) = (if p = Sandbox_of x \<and> GetContainer (ID x) c \<noteq> None
      then map_option (sb_AddContainer x') (GetSandbox_cs p c) else GetSandbox_cs p c)"
    using a i sb by auto
qed

lemma recorded_changed:
  assumes inv: "cs_inv c" and rec: "recorded c x" and id: "same_identity x' x" and y: "recorded c y"
  shows "recorded (changed x' c) y"
proof -
  note f = changed_frame [OF inv rec id]
  have "same_identity x' y" if "ID y = ID x" "GetContainer (ID x) c \<noteq> None"
    using that recordedD(3) [OF y] recordedD(3) [OF rec] id by (auto simp: same_identity_def)
  then have "case GetContainer (ID y) (changed x' c) of None \<Rightarrow> True | Some old \<Rightarrow> same_identity old y"
    using y f(1) [of "ID y"] by (auto simp: recorded_def split: option.splits)
  moreover obtain k where "names (ctrNameIndex c) (c_name y) = Some k" "k = ID y \<or> GetContainer k c = None"
    using recordedD(1) [OF y] by blast
  then have "\<exists>k. names (ctrNameIndex (changed x' c)) (c_name y) = Some k \<and> (k = ID y \<or> GetContainer k (changed x' c) = None)"
    using f(1) [of k] f(2) by auto
  moreover have "GetSandbox_cs (Sandbox_of y) (changed x' c) \<noteq> None"
    using recordedD(4) [OF y] f(7) [of "Sandbox_of y"] by auto
  ultimately show ?thesis using recordedD(2) [OF y] f(3) by (simp add: recorded_def)
qed

lemma removed_changed:
  assumes inv: "cs_inv c" and rec: "recorded c x" and id: "same_identity x' x" and "removed (changed x' c) c' {x}"
  shows "removed c c' {x}"
proof -
  note f = changed_frame [OF inv rec id] and r = removedD [OF assms(4)]
  have n: "c_name x' = c_name x" using id by (simp add: same_identity_def)
  have "pod_without {x} p (GetSandbox_cs p c) (GetSandbox_cs p c')" for p
  proof (cases "p = Sandbox_of x \<and> GetContainer (ID x) c \<noteq> None")
    case True
    then obtain sb where sb: "GetSandbox_cs p c = Some sb" using recordedD(4) [OF rec] by auto
    have "pod_without {x} p (Some (sb_AddContainer x' sb)) (GetSandbox_cs p c')"
      using r(7) [of p] f(7) [of p] True sb by simp
    then obtain st where "GetSandbox_cs p c' = Some (sb_AddContainer x' sb\<lparr>sb_containers := st\<rparr>)"
      and st: "\<And>m. store_Get m st = (if m \<in> c_name ` {y \<in> {x}. Sandbox_of y = p} then None else store_Get m (sb_containers (sb_AddContainer x' sb)))"
      by (rule pod_without_SomeE) blast
    moreover have s: "{y \<in> {x}. Sandbox_of y = p} = {x}" using True by blast
    have "store_Get m st = (if m \<in> c_name ` {y \<in> {x}. Sandbox_of y = p} then None else store_Get m (sb_containers sb))" for m
      unfolding st s by (simp add: sb_AddContainer_def n)
    ultimately show ?thesis
      unfolding pod_without_def sb option.case s by (auto simp: sb_AddContainer_def)
  next
    case False
    then show ?thesis using r(7) [of p] f(7) [of p] by auto
  qed
  then show ?thesis
    using r(1-6) f by (auto simp: removed_def)
qed


text \<open>What stopping a container does to the server: nothing, or a change of its object.\<close>

definition touched :: "Container \<Rightarrow> ContainerServer \<Rightarrow> ContainerServer \<Rightarrow> bool" where
  "touched x c c' \<longleftrightarrow> c' = c \<or> (\<exists>x'. same_identity x' x \<and> c_created x' = c_created x \<and> c' = changed x' c)"

lemma stopContainer_touched:
  assumes "services_ok svc" and "stopContainer svc x t s = (s', r)"
  shows "touched x (cs s) (cs s')"
proof -
  have "\<exists>x'. same_identity x' x \<and> c_created x' = c_created x \<and> changed x1 (cs s) = changed x' (cs s)"
    if "sv_runtimeStop svc x t e1 = (e2, x1, z)" for e1 e2 x1 z
    using services_okD(3) [OF assms(1) that] by blast
  then show ?thesis
    using assms(2) unfolding stopContainer_def touched_def
    by (fastforce split: option.splits prod.splits)
qed

lemma touched_ok:
  assumes "touched x c c'" and "cs_inv c" and "recorded c x"
  shows "cs_inv c'" and "recorded c y \<Longrightarrow> recorded c' y" and "removed c' c2 {x} \<Longrightarrow> removed c c2 {x}"
  using assms changed_cases(2) recorded_changed removed_changed unfolding touched_def by blast+

lemma change_pod_same:
  assumes "\<And>sb. GetSandbox_cs p c = Some sb \<Longrightarrow> f sb = sb"
  shows "change_pod p f c = c"
  using assms store_Add_same [of p "sandboxes c"]
  by (auto simp: change_pod_def put_sandbox_def GetSandbox_cs_def split: option.split)

lemma removed_not_listed:
  assumes "removed c c' {x}" and "GetSandbox_cs (Sandbox_of x) c' = Some sb"
  shows "sb_RemoveContainer x sb = sb"
proof -
  have "{y \<in> {x}. Sandbox_of y = Sandbox_of x} = {x}" by blast
  then have "store_Get (c_name x) (sb_containers sb) = None"
    using removedD(7) [OF assms(1), of "Sandbox_of x"] assms(2)
    by (cases "GetSandbox_cs (Sandbox_of x) c") (auto simp: pod_without_def)
  then show ?thesis by (simp add: sb_RemoveContainer_def store_Delete_absent)
qed

lemma removeContainerInPod_step:
  assumes svc: "services_ok svc" and inv: "cs_inv (cs s)" and rec: "recorded (cs s) x" and sb: "sb_ID sb = Sandbox_of x"
    and eq: "removeContainerInPod svc d (Some sb) x s = (s', r)"
  shows "cs_inv (cs s')" and "if r = Reply () then removed (cs s) (cs s') {x} else touched x (cs s) (cs s')"
proof -
  obtain s1 r1 where s1: "(if \<not> stopped sb then stopContainer svc x (stopTimeoutFromContext d) s else (s, Reply ())) = (s1, r1)"
    by fastforce
  have t: "touched x (cs s) (cs s1)"
    using s1 stopContainer_touched [OF svc] by (auto simp: touched_def split: if_splits)
  note k = touched_ok [OF t inv rec]
  obtain c' where c': "forget_container x (cs s1) = (c', Reply ())" "cs_inv c'" "removed (cs s1) c' {x}"
    using forget_container_ok [OF k(1) k(2) [OF rec]] .
  have same: "change_pod (sb_ID sb) (sb_RemoveContainer x) c' = c'"
    using removed_not_listed [OF c'(3)] by (intro change_pod_same) (simp add: sb)
  have "cs_inv (cs s') \<and> (if r = Reply () then removed (cs s) (cs s') {x} else touched x (cs s) (cs s'))"
    using eq c' t k(1) k(3) [OF c'(3)] unfolding removeContainerInPod_def option.case s1
    by (auto simp: same split: reply.splits prod.splits option.splits)
  then show "cs_inv (cs s')" "if r = Reply () then removed (cs s) (cs s') {x} else touched x (cs s) (cs s')"
    by blast+
qed


lemma GetContainerFromShortID_ok:
  assumes "cs_inv c" and "GetContainerFromShortID cid c = Inr x"
  shows "cid \<noteq> ''''" and "{k \<in> ids (ctrIDIndex c). has_prefix k cid} = {ID x}" and "GetContainer (ID x) c = Some x" and "recorded c x"
proof -
  obtain i where i: "cid \<noteq> ''''" "trunc_Get cid (ctrIDIndex c) = Inr i" "GetContainer i c = Some x"
    using assms(2) by (auto simp: GetContainerFromShortID_def split: if_splits sum.splits option.splits)
  have "i \<in> ids (ctrIDIndex c)" "{k \<in> ids (ctrIDIndex c). has_prefix k cid} = {i}"
    using tix.get_member [OF trunc_inv_of(1) [OF assms(1)] i(1,2)] trunc_Get_ok_iff [OF trunc_inv_of(1) [OF assms(1)] i(1)] i(2) by auto
  moreover have "ID x = i" using containers_filedD(1) [OF _ i(3)] assms(1) by (simp add: cs_inv_def)
  ultimately show "cid \<noteq> ''''" "{k \<in> ids (ctrIDIndex c). has_prefix k cid} = {ID x}" "GetContainer (ID x) c = Some x" "recorded c x"
    using i recorded_filed [OF assms(1) i(3)] by simp_all
qed

lemma GetContainerFromShortID_gone:
  assumes inv: "cs_inv c'" and p: "cid \<noteq> ''''" "{k \<in> ids (ctrIDIndex c). has_prefix k cid} = {ID x}" and r: "removed c c' {x}"
  shows "GetContainerFromShortID cid c' = Inl (LIndex ErrNotExist)"
proof -
  have "{k \<in> ids (ctrIDIndex c'). has_prefix k cid} = {}"
    using p(2) removedD(3) [OF r] by auto
  then show ?thesis
    using trunc_Get_None_iff [OF trunc_inv_of(1) [OF inv], of cid] p(1) by (simp add: GetContainerFromShortID_def)
qed

lemma touched_same_lookup:
  assumes inv: "cs_inv c" and x: "GetContainerFromShortID cid c = Inr x" and t: "touched x c c'"
  shows "\<exists>x'. same_identity x' x \<and> GetContainerFromShortID cid c' = Inr x'"
proof -
  note g = GetContainerFromShortID_ok [OF inv x]
  have i: "same_identity x x" by (simp add: same_identity_def)
  consider "c' = c" | x' where "same_identity x' x" "c_created x' = c_created x" "c' = changed x' c"
    using t by (auto simp: touched_def)
  then show ?thesis
  proof cases
    case 1
    then show ?thesis using x i by blast
  next
    case 2
    note f = changed_frame [OF inv g(4) 2(1)]
    have "trunc_Get cid (ctrIDIndex c) = Inr (ID x)"
      using trunc_Get_ok_iff [OF trunc_inv_of(1) [OF inv] g(1)] g(2) by blast
    then have "GetContainerFromShortID cid c' = Inr x'"
      using x g(1,3) 2 f by (simp add: GetContainerFromShortID_def split: if_splits)
    with 2 show ?thesis by blast
  qed
qed

subsection \<open>All containers of a pod\<close>

lemma recorded_removed:
  assumes "removed c c' xs" and "recorded c y" and "ID y \<notin> ID ` xs" and "c_name y \<notin> c_name ` xs"
  shows "recorded c' y"
proof -
  note r = removedD [OF assms(1)]
  have "GetSandbox_cs (Sandbox_of y) c' \<noteq> None"
    using r(7) [of "Sandbox_of y"] recordedD(4) [OF assms(2)] by (auto simp: pod_without_def)
  moreover obtain k where "names (ctrNameIndex c) (c_name y) = Some k" "k = ID y \<or> GetContainer k c = None"
    using recordedD(1) [OF assms(2)] by blast
  then have "\<exists>k. names (ctrNameIndex c') (c_name y) = Some k \<and> (k = ID y \<or> GetContainer k c' = None)"
    using r(1) [of k] r(2) [of "c_name y"] assms(4) by auto
  ultimately show ?thesis
    using assms(2,3) r(1) [of "ID y"] r(3) by (simp add: recorded_def)
qed

lemma remove_all_removed:
  assumes svc: "services_ok svc" and "cs_inv (cs s)" and "\<forall>y \<in> set ys. recorded (cs s) y \<and> sb_ID sb = Sandbox_of y"
    and "distinct (map ID ys)" and "distinct (map c_name ys)" and "remove_all svc d sb ys s = (s', Reply ())"
  shows "cs_inv (cs s') \<and> removed (cs s) (cs s') (set ys)"
  using assms(2-)
proof (induction ys arbitrary: s)
  case Nil
  then show ?case by (simp add: removed_refl)
next
  case (Cons x ys)
  obtain s1 r where s1: "removeContainerInPod svc d (Some sb) x s = (s1, r)" by fastforce
  with Cons.prems have r: "r = Reply ()" "remove_all svc d sb ys s1 = (s', Reply ())"
    by (auto split: reply.splits)
  have x: "recorded (cs s) x" "sb_ID sb = Sandbox_of x" using Cons.prems by simp_all
  note k = removeContainerInPod_step [OF svc Cons.prems(1) x s1]
  have k2: "removed (cs s) (cs s1) {x}" using k(2) r by simp
  have "recorded (cs s1) y \<and> sb_ID sb = Sandbox_of y" if "y \<in> set ys" for y
  proof -
    have "ID y \<noteq> ID x" "c_name y \<noteq> c_name x" using Cons.prems(3,4) that by (metis distinct.simps(2) image_eqI list.set_map list.simps(9))+
    moreover have "recorded (cs s) y" "sb_ID sb = Sandbox_of y" using bspec [OF Cons.prems(2), of y] that by simp_all
    ultimately show ?thesis using recorded_removed [OF k2, of y] by simp
  qed
  then have "cs_inv (cs s') \<and> removed (cs s1) (cs s') (set ys)"
    using Cons.IH [OF k(1) _ _ _ r(2)] Cons.prems by simp
  then show ?case
    using removed_trans [OF k2] by auto
qed

lemma pod_containers:
  assumes inv: "cs_inv c" and sb: "GetSandbox_cs p c = Some sb"
  defines "xs \<equiv> store_List container_CreatedAt (sb_containers sb)"
  shows "x \<in> set xs \<longleftrightarrow> (\<exists>n. sb_GetContainer n sb = Some x)"
    and "x \<in> set xs \<Longrightarrow> Sandbox_of x = p \<and> GetContainer (ID x) c = Some x \<and> sb_GetContainer (c_name x) sb = Some x"
    and "distinct (map ID xs)" and "distinct (map c_name xs)"
proof -
  note p = pods_filedD [OF _ sb]
  have pf: "pods_filed c" using inv by (simp add: cs_inv_def)
  show iff: "x \<in> set xs \<longleftrightarrow> (\<exists>n. sb_GetContainer n sb = Some x)" for x
    using mst.listed_iff [OF p(2) [OF pf]] by (simp add: xs_def sb_GetContainer_def)
  show in_pod: "Sandbox_of x = p \<and> GetContainer (ID x) c = Some x \<and> sb_GetContainer (c_name x) sb = Some x" if "x \<in> set xs" for x
    using that p(3) [OF pf] unfolding iff by blast
  have e: "(k, v) \<in> set (ents (sb_containers sb)) \<Longrightarrow> c_name v = k" for k v
    using p(2,3) [OF pf] by (simp add: store_wf_def sb_GetContainer_def store_Get_def)
  have "map c_name (store_all (sb_containers sb)) = map fst (ents (sb_containers sb))"
    using e by (auto simp: store_all_def)
  then have "distinct (map c_name (store_all (sb_containers sb)))"
    using p(2) [OF pf] by (simp add: store_wf_def)
  moreover have "mset (map c_name xs) = mset (map c_name (store_all (sb_containers sb)))"
    by (simp add: xs_def store_List_def)
  ultimately show n: "distinct (map c_name xs)"
    using mset_eq_imp_distinct_iff by blast
  show "distinct (map ID xs)"
    unfolding distinct_map
  proof
    show "distinct xs" using n by (simp add: distinct_map)
    show "inj_on ID (set xs)" using in_pod by (metis inj_onI option.inject)
  qed
qed

subsection \<open>The pod\<close>

lemma GetSandbox_change_pod [simp]:
  "GetSandbox_cs q (change_pod p f c) = (if q = p then map_option f (GetSandbox_cs q c) else GetSandbox_cs q c)"
  "GetContainer i (change_pod p f c) = GetContainer i c" "ctrNameIndex (change_pod p f c) = ctrNameIndex c"
  "ctrIDIndex (change_pod p f c) = ctrIDIndex c" "podNameIndex (change_pod p f c) = podNameIndex c"
  "podIDIndex (change_pod p f c) = podIDIndex c" "infraContainers (change_pod p f c) = infraContainers c"
  by (simp_all add: change_pod_def GetContainer_def split: option.split)

lemma change_pod_inv:
  assumes inv: "cs_inv c" and f: "\<And>sb. sb_ID (f sb) = sb_ID sb \<and> sb_containers (f sb) = sb_containers sb"
  shows "cs_inv (change_pod p f c)"
proof -
  have g: "sb_GetContainer n (f sb) = sb_GetContainer n sb" for n sb
    using f by (simp add: sb_GetContainer_def)
  have "indices_ok (change_pod p f c)"
    using inv by (simp add: indices_ok_def cs_inv_def change_pod_def put_sandbox_def store_Add_wf split: option.split)
  moreover have "containers_filed (change_pod p f c)"
    using inv g unfolding cs_inv_def containers_filed_def by fastforce
  moreover have "pods_filed (change_pod p f c)"
    using inv f g unfolding cs_inv_def pods_filed_def by auto
  ultimately show ?thesis by (simp add: cs_inv_def)
qed

lemma networkStop_cs:
  assumes "networkStop svc sb s = (s', r)"
  shows "cs s' = cs s \<or> cs s' = change_pod (sb_ID sb) (\<lambda>sb. sb\<lparr>networkStopped := True\<rparr>) (cs s)"
  using assms by (auto simp: networkStop_def Let_def split: if_splits prod.splits option.splits)

lemma networkStop_inv: "networkStop svc sb s = (s', r) \<Longrightarrow> cs_inv (cs s) \<Longrightarrow> cs_inv (cs s')"
  using networkStop_cs [of svc sb s s' r] change_pod_inv [of "cs s" "\<lambda>sb. sb\<lparr>networkStopped := True\<rparr>" "sb_ID sb"]
  by (auto simp: sb_ID_def)

text \<open>The pod is out of every index and store; nothing else has changed.\<close>

definition pod_forgotten :: "Sandbox \<Rightarrow> ContainerServer \<Rightarrow> ContainerServer \<Rightarrow> bool" where
  "pod_forgotten sb c c' \<longleftrightarrow>
     (\<forall>p. GetSandbox_cs p c' = (if p = sb_ID sb then None else GetSandbox_cs p c)) \<and>
     (\<forall>i. GetContainer i c' = GetContainer i c) \<and> ctrNameIndex c' = ctrNameIndex c \<and> ctrIDIndex c' = ctrIDIndex c \<and>
     infraContainers c' = infraContainers c \<and> names (podNameIndex c') = (names (podNameIndex c))(sb_name sb := None) \<and>
     ids (podIDIndex c') = ids (podIDIndex c) - {sb_ID sb}"

lemma RemoveSandbox_frame:
  assumes "GetSandbox_cs i c = Some sb" and "level_of (processLabel sb) = Some l"
  shows "GetSandbox_cs p (fst (RemoveSandbox level_of i c)) = (if p = i then None else GetSandbox_cs p c)"
    and "GetContainer j (fst (RemoveSandbox level_of i c)) = GetContainer j c"
    and "ctrNameIndex (fst (RemoveSandbox level_of i c)) = ctrNameIndex c" "ctrIDIndex (fst (RemoveSandbox level_of i c)) = ctrIDIndex c"
    and "podNameIndex (fst (RemoveSandbox level_of i c)) = podNameIndex c" "podIDIndex (fst (RemoveSandbox level_of i c)) = podIDIndex c"
    and "infraContainers (fst (RemoveSandbox level_of i c)) = infraContainers c"
  using assms by (simp_all add: RemoveSandbox_def removeSandboxPlatform_def GetSandbox_cs_def GetContainer_def split: option.split)

lemma forget_pod_ok:
  assumes inv: "cs_inv c" and sb': "GetSandbox_cs (sb_ID sb) c = Some sb'" and none: "\<And>n. sb_GetContainer n sb' = None"
    and level: "sv_level svc (processLabel sb') \<noteq> None" and eq: "forget_pod svc sb c = (c', Reply ())"
  shows "cs_inv c'" and "pod_forgotten sb c c'"
proof -
  let ?n = "ReleasePodName (sb_name sb) c"
  have n: "?n = c\<lparr>podNameIndex := Release (sb_name sb) (podNameIndex c)\<rparr>" by (simp add: ReleasePodName_def)
  have ninv: "cs_inv ?n"
    unfolding n by (rule podNameIndex_inv [OF inv]) (use inv in \<open>simp add: cs_inv_def indices_ok_def Release_inv\<close>)
  have s: "GetSandbox_cs (sb_ID sb) ?n = Some sb'" using sb' by (simp add: n)
  obtain l where l: "sv_level svc (processLabel sb') = Some l" using level by blast
  let ?c1 = "fst (RemoveSandbox (sv_level svc) (sb_ID sb) ?n)"
  note f = RemoveSandbox_frame [of "sb_ID sb" ?n sb' "sv_level svc" l, OF s l]
  have 1: "cs_inv ?c1"
    by (rule RemoveSandbox_inv [OF ninv]) (use s none in auto)
  have c': "c' = ?c1\<lparr>podIDIndex := fst (trunc_Delete (sb_ID sb) (podIDIndex ?c1))\<rparr>"
    using eq by (auto simp: forget_pod_def Let_def split: prod.splits option.splits)
  show "cs_inv c'"
    unfolding c' by (rule podIDIndex_inv [OF 1 trunc_Delete_inv [OF trunc_inv_of(2) [OF 1]]])
  show "pod_forgotten sb c c'"
    unfolding pod_forgotten_def c' using f by (simp add: n trunc_Delete_ids trunc_inv_of [OF inv] Release_names)
qed

lemma removePodSandbox_steps:
  assumes "removePodSandbox svc d sb s = (s', Reply ())"
  obtains s1 e s2 infra e2 s3 where
    "remove_all svc d sb (store_List container_CreatedAt (sb_containers sb)) s = (s1, Reply ())" "infraContainer sb = Some infra"
    "removeContainerInPod svc d (Some sb) infra (s1\<lparr>world := e, cs := RemoveInfraContainer_cs infra (cs s1)\<rparr>) = (s2, Reply ())"
    "networkStop svc sb (s2\<lparr>world := e2\<rparr>) = (s3, Reply ())" "forget_pod svc sb (cs s3) = (cs s', Reply ())"
proof -
  have c: "cs (t\<lparr>world := e, cs := x\<rparr>) = x" for t :: "'a srv" and e x by simp
  show thesis
    using assms unfolding removePodSandbox_def
    by (simp split: prod.splits reply.splits option.splits) (rule that, assumption+, use c in metis)
qed

text \<open>Every container of the pod, and its own, is recorded.\<close>

definition pod_complete :: "Sandbox \<Rightarrow> ContainerServer \<Rightarrow> bool" where
  "pod_complete sb c \<longleftrightarrow>
     (\<forall>x \<in> set (store_List container_CreatedAt (sb_containers sb)). ID x \<in> ids (ctrIDIndex c)) \<and>
     (case infraContainer sb of None \<Rightarrow> False
      | Some infra \<Rightarrow> recorded c infra \<and> Sandbox_of infra = sb_ID sb \<and> GetContainer (ID infra) c = None)"

definition pod_members :: "Sandbox \<Rightarrow> Container set" where
  "pod_members sb = set (store_List container_CreatedAt (sb_containers sb)) \<union> set_option (infraContainer sb)"

lemma removed_infra: "removed c c' xs \<Longrightarrow> removed (c\<lparr>infraContainers := f\<rparr>) (c'\<lparr>infraContainers := f\<rparr>) xs"
  by (simp add: removed_def)

lemma removePodSandbox_members:
  assumes svc: "services_ok svc" and inv: "cs_inv (cs s)" and sb: "GetSandbox_cs (sb_ID sb) (cs s) = Some sb"
    and complete: "pod_complete sb (cs s)" and infra: "infraContainer sb = Some infra"
    and all: "remove_all svc d sb (store_List container_CreatedAt (sb_containers sb)) s = (s1, Reply ())"
    and own: "removeContainerInPod svc d (Some sb) infra (s1\<lparr>world := e, cs := RemoveInfraContainer_cs infra (cs s1)\<rparr>) = (s2, Reply ())"
  shows "cs_inv (cs s2)" and "removed (RemoveInfraContainer_cs infra (cs s)) (cs s2) (pod_members sb)"
proof -
  let ?xs = "store_List container_CreatedAt (sb_containers sb)"
  note m = pod_containers [OF inv sb]
  have i: "recorded (cs s) infra" "sb_ID sb = Sandbox_of infra" "GetContainer (ID infra) (cs s) = None"
    using complete infra by (simp_all add: pod_complete_def)
  have "recorded (cs s) x \<and> sb_ID sb = Sandbox_of x" if "x \<in> set ?xs" for x
    using m(2) [OF that] recorded_filed [OF inv, of "ID x" x] complete that by (simp add: pod_complete_def)
  then have 1: "cs_inv (cs s1)" "removed (cs s) (cs s1) (set ?xs)"
    using remove_all_removed [OF svc inv _ m(3,4) all] by blast+
  have "ID infra \<notin> ID ` set ?xs" "c_name infra \<notin> c_name ` set ?xs"
    using m(2) i(3) recorded_name [OF inv i(1)] by force+
  then have r: "recorded (cs s1) infra"
    using recorded_removed [OF 1(2) i(1)] by blast
  let ?s = "s1\<lparr>world := e, cs := RemoveInfraContainer_cs infra (cs s1)\<rparr>"
  have "cs_inv (cs ?s)"
    using infraContainers_inv [OF 1(1), of "store_Delete (ID infra) (infraContainers (cs s1))"] 1(1)
    by (simp add: RemoveInfraContainer_cs_def cs_inv_def indices_ok_def store_Delete_wf)
  moreover have "recorded (cs ?s) infra"
    using r by (simp add: recorded_def RemoveInfraContainer_cs_def)
  ultimately have 2: "cs_inv (cs s2)" "removed (RemoveInfraContainer_cs infra (cs s1)) (cs s2) {infra}"
    using removeContainerInPod_step [OF svc _ _ i(2) own] by auto
  show "cs_inv (cs s2)" by fact
  have "removed (RemoveInfraContainer_cs infra (cs s)) (RemoveInfraContainer_cs infra (cs s1)) (set ?xs)"
    using removed_infra [OF 1(2)] removedD(6) [OF 1(2)] by (simp add: RemoveInfraContainer_cs_def)
  from removed_trans [OF this 2(2)]
  show "removed (RemoveInfraContainer_cs infra (cs s)) (cs s2) (pod_members sb)"
    by (simp add: pod_members_def infra)
qed

lemma getPodSandboxFromRequest_ok:
  assumes "cs_inv c" and "getPodSandboxFromRequest podID c = Inr sb"
  shows "podID \<noteq> ''''" and "{k \<in> ids (podIDIndex c). has_prefix k podID} = {sb_ID sb}"
    and "GetSandbox_cs (sb_ID sb) c = Some sb" and "sb_created sb"
proof -
  obtain i where i: "podID \<noteq> ''''" "trunc_Get podID (podIDIndex c) = Inr i" "GetSandbox_cs i c = Some sb" "sb_created sb"
    using assms(2) by (auto simp: getPodSandboxFromRequest_def split: if_splits sum.splits option.splits)
  moreover have "sb_ID sb = i" using pods_filedD(1) [OF _ i(3)] assms(1) by (simp add: cs_inv_def)
  ultimately show "podID \<noteq> ''''" "{k \<in> ids (podIDIndex c). has_prefix k podID} = {sb_ID sb}"
    "GetSandbox_cs (sb_ID sb) c = Some sb" "sb_created sb"
    using trunc_Get_ok_iff [OF trunc_inv_of(2) [OF assms(1)] i(1)] by auto
qed

lemma RemovePodSandbox_gone:
  assumes inv: "cs_inv (cs s)" and "podID \<noteq> ''''" and "{k \<in> ids (podIDIndex (cs s)). has_prefix k podID} = {}"
  shows "RemovePodSandbox svc d podID s = (s, Reply ())"
  using trunc_Get_None_iff [OF trunc_inv_of(2) [OF inv], of podID] assms(2,3)
  by (simp add: RemovePodSandbox_def getPodSandboxFromRequest_def)

text \<open>The server when a pod and a set of containers are gone.\<close>

definition pod_gone :: "Sandbox \<Rightarrow> Container set \<Rightarrow> ContainerServer \<Rightarrow> ContainerServer \<Rightarrow> bool" where
  "pod_gone sb xs c c' \<longleftrightarrow>
     (\<forall>p. GetSandbox_cs p c' = (if p = sb_ID sb then None else GetSandbox_cs p c)) \<and>
     (\<forall>i. GetContainer i c' = (if i \<in> ID ` xs then None else GetContainer i c)) \<and>
     (\<forall>n. names (ctrNameIndex c') n = (if n \<in> c_name ` xs then None else names (ctrNameIndex c) n)) \<and>
     ids (ctrIDIndex c') = ids (ctrIDIndex c) - ID ` xs \<and>
     names (podNameIndex c') = (names (podNameIndex c))(sb_name sb := None) \<and>
     ids (podIDIndex c') = ids (podIDIndex c) - {sb_ID sb}"

lemma removePodSandbox_gone:
  assumes svc: "services_ok svc" and inv: "cs_inv (cs s)" and sb: "GetSandbox_cs (sb_ID sb) (cs s) = Some sb"
    and complete: "pod_complete sb (cs s)" and level: "sv_level svc (processLabel sb) \<noteq> None"
    and eq: "removePodSandbox svc d sb s = (s', Reply ())"
  shows "cs_inv (cs s')" and "pod_gone sb (pod_members sb) (cs s) (cs s')"
proof -
  obtain s1 e s2 infra e2 s3 where st:
    "remove_all svc d sb (store_List container_CreatedAt (sb_containers sb)) s = (s1, Reply ())" "infraContainer sb = Some infra"
    "removeContainerInPod svc d (Some sb) infra (s1\<lparr>world := e, cs := RemoveInfraContainer_cs infra (cs s1)\<rparr>) = (s2, Reply ())"
    "networkStop svc sb (s2\<lparr>world := e2\<rparr>) = (s3, Reply ())" "forget_pod svc sb (cs s3) = (cs s', Reply ())"
    using removePodSandbox_steps [OF eq] .
  note m = removePodSandbox_members [OF svc inv sb complete st(2,1,3)]
  note r = removedD [OF m(2), unfolded RemoveInfraContainer_cs_def]
  have own: "Sandbox_of x = sb_ID sb" if "x \<in> pod_members sb" for x
    using that pod_containers(2) [OF inv sb] complete by (auto simp: pod_members_def pod_complete_def)
  have "pod_without (pod_members sb) (sb_ID sb) (Some sb) (GetSandbox_cs (sb_ID sb) (cs s2))"
    using r(7) [of "sb_ID sb"] sb by simp
  then obtain cst where cst: "GetSandbox_cs (sb_ID sb) (cs s2) = Some (sb\<lparr>sb_containers := cst\<rparr>)"
    "\<And>n. store_Get n cst = (if n \<in> c_name ` {x \<in> pod_members sb. Sandbox_of x = sb_ID sb} then None else store_Get n (sb_containers sb))"
    by (rule pod_without_SomeE) blast
  have none: "store_Get n cst = None" for n
  proof (cases "sb_GetContainer n sb")
    case (Some x)
    then have "x \<in> pod_members sb" "c_name x = n"
      using pod_containers(1) [OF inv sb] pods_filedD(3) [OF _ sb Some] inv by (auto simp: pod_members_def cs_inv_def)
    then have "n \<in> c_name ` {x \<in> pod_members sb. Sandbox_of x = sb_ID sb}" using own by blast
    then show ?thesis using cst(2) [of n] by simp
  qed (use cst(2) [of n] in \<open>simp add: sb_GetContainer_def\<close>)
  have other: "GetSandbox_cs p (cs s2) = GetSandbox_cs p (cs s)" if "p \<noteq> sb_ID sb" for p
    using r(7) [of p] own that pod_without_elsewhere [of "pod_members sb" p] by simp
  note k = networkStop_cs [OF st(4)]
  obtain sb' where sb': "GetSandbox_cs (sb_ID sb) (cs s3) = Some sb'" "processLabel sb' = processLabel sb" "sb_containers sb' = cst"
    using k cst(1) by auto
  have i3: "cs_inv (cs s3)" using networkStop_inv [OF st(4)] m(1) by simp
  have "sb_GetContainer n sb' = None" for n using sb'(3) none by (simp add: sb_GetContainer_def)
  note f = forget_pod_ok [OF i3 sb'(1) this _ st(5)]
  show "cs_inv (cs s')" using f(1) level sb'(2) by simp
  have "pod_forgotten sb (cs s3) (cs s')" using f(2) level sb'(2) by simp
  then show "pod_gone sb (pod_members sb) (cs s) (cs s')"
    using k r(1-5) other unfolding pod_gone_def pod_forgotten_def by auto
qed

section \<open>What a creation changes\<close>

lemma retry_ok: "snd (fn w) = None \<Longrightarrow> retry fn w = (fst (fn w), None)"
proof -
  assume "snd (fn w) = None"
  moreover have "[0..<20] = 0 # [1..<(20::nat)]" by (simp add: upt_conv_Cons)
  ultimately show ?thesis
    unfolding retry_def ExponentialBackoff_retry defaultRetryTimes_def by (simp add: attempt_def)
qed

lemma retry_cs:
  assumes "\<And>v. cs (fst (fn v)) = cs v"
  shows "cs (fst (retry fn w)) = cs w"
proof -
  have "cs (attempt fn n w) = cs w" for n
    unfolding attempt_def by (induction n) (simp_all add: assms)
  then show ?thesis
    unfolding retry_def ExponentialBackoff_retry by (simp split: option.split)
qed

lemma undo_index_ok: "undo_index i s = (s\<lparr>cs := (cs s)\<lparr>ctrIDIndex := fst (trunc_Delete i (ctrIDIndex (cs s)))\<rparr>\<rparr>, None)"
  by (auto simp: undo_index_def trunc_Delete_def Let_def split: prod.splits)

lemma create_cleaner_funcs:
  "funcs (create_cleaner svc i name x (Suc 0)) = [retry (undo_name name)]"
  "funcs (create_cleaner svc i name x 3) = map retry [undo_container x, undo_storage svc i, undo_name name]"
  "funcs (create_cleaner svc i name x 4) = map retry [undo_index i, undo_container x, undo_storage svc i, undo_name name]"
  by (simp_all add: create_cleaner_def cleaner_Add_def NewResourceCleaner_def numeral_eq_Suc)

lemma create_cleaner_undoes:
  assumes "\<And>w. snd (retry (undo_storage svc i) w) = None"
  shows "cs (fst (Cleanup (create_cleaner svc i name x 1) s)) = ReleaseContainerName name (cs s)"
    and "cs (fst (Cleanup (create_cleaner svc i name x 3) s)) = ReleaseContainerName name (RemoveContainer x (cs s))"
    and "cs (fst (Cleanup (create_cleaner svc i name x 4) s)) =
      ReleaseContainerName name (RemoveContainer x ((cs s)\<lparr>ctrIDIndex := fst (trunc_Delete i (ctrIDIndex (cs s)))\<rparr>))"
proof -
  have st: "retry (undo_storage svc i) w = (fst (retry (undo_storage svc i) w), None)" for w
    using assms [of w] by (metis prod.collapse)
  have k: "cs (fst (retry (undo_storage svc i) w)) = cs w" for w
    by (rule retry_cs) (simp add: undo_storage_def split_beta)
  have rn: "retry (undo_name name) w = (w\<lparr>cs := ReleaseContainerName name (cs w)\<rparr>, None)" for w
    by (simp add: retry_ok undo_name_def)
  have rc: "retry (undo_container x) w = (w\<lparr>cs := RemoveContainer x (cs w)\<rparr>, None)" for w
    by (simp add: retry_ok undo_container_def)
  have ri: "retry (undo_index i) w = (w\<lparr>cs := (cs w)\<lparr>ctrIDIndex := fst (trunc_Delete i (ctrIDIndex (cs w)))\<rparr>\<rparr>, None)" for w
    by (simp add: retry_ok undo_index_ok)
  show "cs (fst (Cleanup (create_cleaner svc i name x 1) s)) = ReleaseContainerName name (cs s)"
    by (simp add: Cleanup_def create_cleaner_funcs rn)
  show "cs (fst (Cleanup (create_cleaner svc i name x 3) s)) = ReleaseContainerName name (RemoveContainer x (cs s))"
    unfolding Cleanup_def create_cleaner_funcs by (simp add: rc, subst st, simp add: rn k)
  show "cs (fst (Cleanup (create_cleaner svc i name x 4) s)) =
      ReleaseContainerName name (RemoveContainer x ((cs s)\<lparr>ctrIDIndex := fst (trunc_Delete i (ctrIDIndex (cs s)))\<rparr>))"
    unfolding Cleanup_def create_cleaner_funcs by (simp add: ri rc, subst st, simp add: rn k)
qed

text \<open>The states of the server a creation goes through, from the server \<open>c\<close> in which the
  name is free and the identifier unknown.\<close>

definition reserved :: "string \<Rightarrow> string \<Rightarrow> ContainerServer \<Rightarrow> ContainerServer" where
  "reserved i name c = fst (ReserveContainerName i name c)"

definition filed :: "Container \<Rightarrow> ContainerServer \<Rightarrow> ContainerServer" where
  "filed x c = (AddContainer x (reserved (ID x) (c_name x) c))\<lparr>ctrIDIndex := fst (trunc_Add (ID x) (ctrIDIndex c))\<rparr>"

lemma AddContainer_index: "AddContainer x (c\<lparr>ctrIDIndex := ix\<rparr>) = (AddContainer x c)\<lparr>ctrIDIndex := ix\<rparr>"
  by (simp add: AddContainer_def GetSandbox_cs_def put_sandbox_def Let_def split: option.split)

lemma AddContainer_indices [simp]:
  "ctrIDIndex (AddContainer x c) = ctrIDIndex c" "ctrNameIndex (AddContainer x c) = ctrNameIndex c"
  "podIDIndex (AddContainer x c) = podIDIndex c"
  by (simp_all add: AddContainer_def Let_def split: option.split)

lemma reserved_facts:
  assumes inv: "cs_inv c" and name: "names (ctrNameIndex c) name = None" and i: "GetContainer i c = None"
    and sb: "GetSandbox_cs p c = Some sb"
  shows "cs_inv (reserved i name c)" and "names (ctrNameIndex (reserved i name c)) name = Some i"
    and "GetContainer j (reserved i name c) = GetContainer j c" and "GetSandbox_cs q (reserved i name c) = GetSandbox_cs q c"
    and "ctrIDIndex (reserved i name c) = ctrIDIndex c" and "podIDIndex (reserved i name c) = podIDIndex c"
    and "ReleaseContainerName name (reserved i name c) = c" and "sb_GetContainer name sb = None"
proof -
  have r: "registrar_inv (ctrNameIndex c)" using inv by (simp add: cs_inv_def indices_ok_def)
  show 1: "cs_inv (reserved i name c)" unfolding reserved_def by (rule ReserveContainerName_inv [OF inv])
  show 2: "names (ctrNameIndex (reserved i name c)) name = Some i"
    using name by (simp add: reserved_def ReserveContainerName_frame Reserve_def)
  show 3: "GetContainer j (reserved i name c) = GetContainer j c" "GetSandbox_cs q (reserved i name c) = GetSandbox_cs q c"
      "ctrIDIndex (reserved i name c) = ctrIDIndex c" "podIDIndex (reserved i name c) = podIDIndex c" for j q
    by (simp_all add: reserved_def ReserveContainerName_frame)
  show "ReleaseContainerName name (reserved i name c) = c"
    using Release_Reserve [OF r name] by (simp add: reserved_def ReserveContainerName_frame ReleaseContainerName_def)
  show "sb_GetContainer name sb = None"
    using no_container_named [OF 1 2, of p sb] i sb 3 by simp
qed

lemma filed_facts:
  assumes inv: "cs_inv c" and name: "names (ctrNameIndex c) (c_name x) = None" and i: "GetContainer (ID x) c = None"
    and sb: "GetSandbox_cs (Sandbox_of x) c = Some sb"
  shows "RemoveContainer x (AddContainer x (reserved (ID x) (c_name x) c)) = reserved (ID x) (c_name x) c"
    and "cs_inv (filed x c)" and "GetContainer (ID x) (filed x c) = Some x"
    and "names (ctrNameIndex (filed x c)) (c_name x) = Some (ID x)"
    and "same_identity y x \<Longrightarrow> changed y (filed x c) = filed y c"
    and "same_identity y x \<Longrightarrow> snd (trunc_Add (ID x) (ctrIDIndex c)) = None \<Longrightarrow>
      RemoveContainer x ((filed y c)\<lparr>ctrIDIndex := fst (trunc_Delete (ID x) (ctrIDIndex (filed y c)))\<rparr>) = reserved (ID x) (c_name x) c"
proof -
  let ?r = "reserved (ID x) (c_name x) c"
  note r = reserved_facts [OF inv name i sb]
  have sb1: "GetSandbox_cs (Sandbox_of x) ?r = Some sb" and none: "GetContainer (ID x) ?r = None" using sb i r(3,4) by simp_all
  have undo: "RemoveContainer x (AddContainer y ?r) = ?r" if "same_identity y x" for y
    using that by (intro RemoveContainer_AddContainer [of y ?r sb x]) (use none sb1 r(8) in \<open>simp_all add: same_identity_def\<close>)
  show "RemoveContainer x (AddContainer x ?r) = ?r" by (rule undo) (simp add: same_identity_def)
  have a: "cs_inv (AddContainer x ?r)" by (rule AddContainer_inv [OF r(1,2)]) (use none in simp)
  show f: "cs_inv (filed x c)"
    unfolding filed_def by (rule ctrIDIndex_inv [OF a trunc_Add_inv [OF trunc_inv_of(1) [OF inv]]])
  show g: "GetContainer (ID x) (filed x c) = Some x"
    using AddContainer_present(1) [OF sb1] by (simp add: filed_def)
  show "names (ctrNameIndex (filed x c)) (c_name x) = Some (ID x)"
    using r(2) by (simp add: filed_def)
  show "changed y (filed x c) = filed y c" if "same_identity y x" for y
  proof -
    have y: "ID x = ID y" "c_name x = c_name y" "Sandbox_of x = Sandbox_of y" using that by (simp_all add: same_identity_def)
    have "changed y (filed x c) = AddContainer y (filed x c)"
      using changed_filed(1) [OF f, of y x] g y by simp
    also have "\<dots> = filed y c"
      unfolding filed_def AddContainer_index using AddContainer_AddContainer [of y x] y by simp
    finally show ?thesis .
  qed
  show "RemoveContainer x ((filed y c)\<lparr>ctrIDIndex := fst (trunc_Delete (ID x) (ctrIDIndex (filed y c)))\<rparr>) = ?r"
    if "same_identity y x" "snd (trunc_Add (ID x) (ctrIDIndex c)) = None" for y
  proof -
    have y: "ID y = ID x" "c_name y = c_name x" using that by (simp_all add: same_identity_def)
    have "z\<lparr>ctrIDIndex := ctrIDIndex z\<rparr> = z" for z :: ContainerServer by simp
    from this [of "AddContainer y ?r"]
    have "(filed y c)\<lparr>ctrIDIndex := fst (trunc_Delete (ID x) (ctrIDIndex (filed y c)))\<rparr> = AddContainer y ?r"
      using trunc_Delete_Add [OF trunc_inv_of(1) [OF inv] that(2)] r(5) by (simp add: filed_def y)
    then show ?thesis using undo [OF that(1)] by simp
  qed
qed

lemma SetStages_simps [simp]:
  "SetStages name [] rc = rc" "SetStages name (st # sts) rc = SetStages name sts (SetStageForResource name st rc)"
  "SetStageForResource name st (SetStages name sts rc) = SetStages name (sts @ [st]) rc"
  by (simp_all add: SetStages_def)

text \<open>How a creation that found its name free ends: undone, or with the container filed.\<close>

lemma create_reserved_cases:
  assumes svc: "services_ok svc" and inv: "cs_inv c" and name: "names (ctrNameIndex c) (f_name f) = None"
    and i: "GetContainer (f_id f) c = None" and sb: "GetSandbox_cs (sb_ID sb) c = Some sb"
    and storage: "\<And>w. snd (retry (undo_storage svc (f_id f)) w) = None"
    and s: "cs s = reserved (f_id f) (f_name f) c"
  shows "(\<exists>s' sts e. create_reserved svc expired f sb s rc = (s', SetStages (f_name f) (''container creating'' # sts) rc, Fail e) \<and> cs s' = c) \<or>
    (\<exists>x s3 sts. ID x = f_id f \<and> c_name x = f_name f \<and> Sandbox_of x = sb_ID sb \<and> \<not> c_created x \<and>
       snd (trunc_Add (ID x) (ctrIDIndex c)) = None \<and> cs s3 = filed x c \<and>
       create_reserved svc expired f sb s rc =
         finish_creation svc expired (f_name f) (f_id f) x s3 (SetStages (f_name f) (''container creating'' # sts) rc))"
proof -
  obtain e1 sts v where v: "sv_createSandboxContainer svc f sb (world s) = (e1, sts, v)" by (metis prod_cases3)
  note undo = create_cleaner_undoes [OF storage] and r = reserved_facts [OF inv name i sb]
  show ?thesis
  proof (cases v)
    case (Inl err)
    then show ?thesis
      using v undo(1) [of "f_name f" zero_Container "s\<lparr>world := e1\<rparr>"] s r(7) by (auto simp: create_reserved_def Let_def)
  next
    case (Inr x)
    then have x: "ID x = f_id f" "c_name x = f_name f" "Sandbox_of x = sb_ID sb" "\<not> c_created x"
      using services_okD(1) [OF svc] v by auto
    note ff = filed_facts [of c x sb, unfolded x, OF inv name i sb]
    obtain ix b where ix: "trunc_Add (f_id f) (ctrIDIndex c) = (ix, b)" by fastforce
    let ?s1 = "s\<lparr>world := e1, cs := AddContainer x (cs s)\<rparr>"
    show ?thesis
    proof (cases b)
      case (Some err)
      then have "ix = ctrIDIndex c" using trunc_Add_failed [OF trunc_inv_of(1) [OF inv], of "f_id f"] ix by simp
      then have "(cs ?s1)\<lparr>ctrIDIndex := ix\<rparr> = cs ?s1" using s r(5) by simp
      then show ?thesis
        using v Inr ix Some s r(5,7) ff(1) undo(2) [of "f_name f" x "?s1"] by (auto simp: create_reserved_def Let_def)
    next
      case None
      let ?s2 = "?s1\<lparr>cs := (cs ?s1)\<lparr>ctrIDIndex := ix\<rparr>\<rparr>"
      have f2: "cs ?s2 = filed x c" using s ix x by (simp add: filed_def)
      obtain e2 y z where y: "sv_runtimeCreate svc x (world ?s2) = (e2, y, z)" by (metis prod_cases3)
      have y': "same_identity y x" "\<not> c_created y" using services_okD(2) [OF svc y] x by simp_all
      have f3: "changed y (cs ?s2) = filed y c" using ff(5) [OF y'(1)] f2 by simp
      show ?thesis
      proof (cases z)
        case (Some err)
        then show ?thesis
          using v Inr ix None y f3 s r(5,7) ff(6) [OF y'(1)] undo(3) [of "f_name f" x "?s2\<lparr>world := e2, cs := filed y c\<rparr>"]
          by (auto simp: create_reserved_def Let_def)
      next
        case None
        let ?s3 = "s\<lparr>world := sv_stateToDisk svc y e2, cs := filed y c\<rparr>"
        have "create_reserved svc expired f sb s rc = finish_creation svc expired (f_name f) (f_id f) y ?s3
            (SetStages (f_name f) (''container creating'' # sts @ [''container runtime creation'']) rc)"
          using v Inr ix \<open>b = None\<close> y f3 s r(5) None by (simp add: create_reserved_def Let_def)
        moreover have "ID y = f_id f" "c_name y = f_name f" "Sandbox_of y = sb_ID sb" "snd (trunc_Add (ID y) (ctrIDIndex c)) = None"
          using y'(1) x ix \<open>b = None\<close> by (simp_all add: same_identity_def)
        moreover have "cs ?s3 = filed y c" by simp
        ultimately show ?thesis using y'(2) by blast
      qed
    qed
  qed
qed

subsection \<open>The guards of a creation\<close>

text \<open>The container and the pod of a request that passes the checks, and the name it asks for.\<close>

definition prepare :: "SpecGen \<Rightarrow> string \<Rightarrow> create_request \<Rightarrow> ContainerServer \<Rightarrow> (factory_container \<times> Sandbox) option" where
  "prepare g random req c =
     (case (rq_Config req, rq_SandboxConfig req, getPodSandboxFromRequest (rq_PodSandboxId req) c) of
        (Some cf, Some sc, Inr sb) \<Rightarrow>
          (case (cc_Metadata cf, cfg_Metadata sc) of
             (Some md, Some pm) \<Rightarrow>
               if cc_Image cf \<noteq> None \<and> md_Name md \<noteq> '''' \<and> \<not> stopped sb
               then Some ((New_container g)\<lparr>config := Some cf, sboxConfig := Some sc, f_id := random, f_name := container_name md pm\<rparr>, sb)
               else None
           | _ \<Rightarrow> None)
      | _ \<Rightarrow> None)"

definition request_name :: "create_request \<Rightarrow> string" where
  "request_name req =
     (case (Option.bind (rq_Config req) cc_Metadata, Option.bind (rq_SandboxConfig req) cfg_Metadata) of
        (Some md, Some pm) \<Rightarrow> container_name md pm | _ \<Rightarrow> '''')"

lemma New_container_simps [simp]: "config (New_container g) = None" "sboxConfig (New_container g) = None"
  by (simp_all add: New_container_def)

lemma prepare_None: "prepare g random req (cs s) = None \<Longrightarrow> \<exists>e. CreateContainer svc g random expired we req s rc = (s, rc, Fail e)"
  by (auto simp: prepare_def CreateContainer_def factory_SetConfig_def split: option.splits sum.splits if_splits)

lemma prepare_Some:
  assumes "prepare g random req c = Some (f, sb)"
  shows "f_id f = random" "f_name f = request_name req" "getPodSandboxFromRequest (rq_PodSandboxId req) c = Inr sb" "\<not> stopped sb"
  using assms by (auto simp: prepare_def request_name_def split: option.splits sum.splits if_splits)

lemma CreateContainer_prepared:
  assumes "prepare g random req (cs s) = Some (f, sb)"
  shows "CreateContainer svc g random expired we req s rc =
    (case ReserveContainerName random (request_name req) (cs s) of
       (c1, None) \<Rightarrow> create_reserved svc expired f sb (s\<lparr>cs := c1\<rparr>) rc
     | (c1, Some _) \<Rightarrow>
         (case ContainerIDForName (request_name req) c1 of
            Inl _ \<Rightarrow> (s\<lparr>cs := c1\<rparr>, rc, Fail ''failed to get ID of container with reserved name'')
          | Inr reservedID \<Rightarrow>
              if (case GetContainer reservedID c1 of None \<Rightarrow> False | Some r \<Rightarrow> c_created r)
              then (s\<lparr>cs := c1\<rparr>, rc, Reply reservedID)
              else (case getResourceOrWait we (request_name req) rc of
                      (rc1, Inr cachedID) \<Rightarrow> (s\<lparr>cs := mark_created cachedID c1\<rparr>, rc1, Reply cachedID)
                    | (rc1, Inl e) \<Rightarrow> (s\<lparr>cs := c1\<rparr>, rc1, Fail e))))"
proof -
  obtain cf sc md pm where c: "rq_Config req = Some cf" "rq_SandboxConfig req = Some sc" "cc_Metadata cf = Some md" "cfg_Metadata sc = Some pm"
    "cc_Image cf \<noteq> None" "md_Name md \<noteq> ''''" "\<not> stopped sb" "getPodSandboxFromRequest (rq_PodSandboxId req) (cs s) = Inr sb"
    "f = (New_container g)\<lparr>config := Some cf, sboxConfig := Some sc, f_id := random, f_name := container_name md pm\<rparr>"
    using assms by (auto simp: prepare_def split: option.splits sum.splits if_splits)
  have n: "request_name req = container_name md pm" by (simp add: request_name_def c)
  have f: "f_id f = random" "f_name f = container_name md pm" by (simp_all add: c)
  have "factory_SetConfig (Some cf) (Some sc) (New_container g) = Inr ((New_container g)\<lparr>config := Some cf, sboxConfig := Some sc\<rparr>)"
    by (simp add: factory_SetConfig_def c)
  moreover have "SetNameAndID random '''' ((New_container g)\<lparr>config := Some cf, sboxConfig := Some sc\<rparr>) = Ok f"
    by (simp add: SetNameAndID_def c)
  ultimately show ?thesis
    unfolding CreateContainer_def n using c(1-8)
    by (simp only: prod.case option.case sum.case outcome.case if_False bind.bind_lunit simp_thms option.distinct f)
qed

text \<open>The two ways in which the name can be taken or free.\<close>

lemma ReserveContainerName_cases:
  assumes "names (ctrNameIndex c) n \<noteq> Some i"
  shows "ReserveContainerName i n c = (if names (ctrNameIndex c) n = None then (reserved i n c, None) else (c, Some ErrNameReserved))"
proof -
  have "c\<lparr>ctrNameIndex := ctrNameIndex c\<rparr> = c" by simp
  then show ?thesis
    using assms ReserveContainerName_frame [of i n c]
    by (cases "names (ctrNameIndex c) n") (auto simp: reserved_def Reserve_def ReserveContainerName_def)
qed

text \<open>A finished creation, on the server from which it started.\<close>

lemma finish_creation_now:
  assumes inv: "cs_inv c" and name: "names (ctrNameIndex c) (c_name x) = None" and i: "GetContainer (ID x) c = None"
    and sb: "GetSandbox_cs (Sandbox_of x) c = Some sb" and s: "cs s = filed x c"
  shows "\<exists>s' rc'. finish_creation svc False name j x s rc = (s', rc', Reply j) \<and> cs s' = filed (SetCreated x) c"
proof -
  have "same_identity (SetCreated x) x" by (simp add: same_identity_def SetCreated_def ID_def Sandbox_of_def)
  then show ?thesis
    using filed_facts(5) [OF inv name i sb] s by (simp add: finish_creation_def Let_def)
qed

lemma filed_recorded:
  assumes inv: "cs_inv c" and name: "names (ctrNameIndex c) (c_name x) = None" and i: "GetContainer (ID x) c = None"
    and sb: "GetSandbox_cs (Sandbox_of x) c = Some sb" and ix: "snd (trunc_Add (ID x) (ctrIDIndex c)) = None"
  shows "recorded (filed x c) x" and "j \<noteq> ID x \<Longrightarrow> GetContainer j (filed x c) = GetContainer j c"
proof -
  note f = filed_facts [OF inv name i sb] and r = reserved_facts [OF inv name i sb]
  have "GetSandbox_cs (Sandbox_of x) (reserved (ID x) (c_name x) c) = Some sb" using sb r(4) by simp
  note a = AddContainer_present [OF this]
  have "ID x \<in> ids (ctrIDIndex (filed x c))"
    using ix trunc_Add_ok_iff [OF trunc_inv_of(1) [OF inv], of "ID x"] by (simp add: filed_def trunc_Add_ids)
  then show "recorded (filed x c) x"
    using recorded_filed [OF f(2,3)] by simp
  show "GetContainer j (filed x c) = GetContainer j c" if "j \<noteq> ID x"
    using a(1) [of j] r(3) [of j] that by (simp add: filed_def)
qed

lemma SetCreated_identity [simp]:
  "ID (SetCreated x) = ID x" "c_name (SetCreated x) = c_name x" "Sandbox_of (SetCreated x) = Sandbox_of x" "c_created (SetCreated x)"
  by (simp_all add: SetCreated_def ID_def Sandbox_of_def)

text \<open>An identifier no container, name or resource currently stands for.\<close>

definition fresh_for :: "string \<Rightarrow> 'w ResourceStore \<Rightarrow> ContainerServer \<Rightarrow> bool" where
  "fresh_for i rc c \<longleftrightarrow> GetContainer i c = None \<and> (\<forall>n. names (ctrNameIndex c) n \<noteq> Some i) \<and>
     i \<notin> ids (ctrIDIndex c) \<and> (\<forall>n. snd (rs_Get n rc) \<noteq> i)"

text \<open>A request that passes the checks and finds its name free: undone, or filed and finished.\<close>

lemma CreateContainer_free:
  assumes svc: "services_ok svc" and inv: "cs_inv (cs s)" and fresh: "fresh_for random rc (cs s)"
    and storage: "\<forall>w. snd (retry (undo_storage svc random) w) = None"
    and prep: "prepare g random req (cs s) = Some (f, sb)" and free: "names (ctrNameIndex (cs s)) (request_name req) = None"
  obtains (undone) s' sts e where
      "CreateContainer svc g random expired we req s rc = (s', SetStages (request_name req) (''container creating'' # sts) rc, Fail e)" "cs s' = cs s"
    | (filed) x s3 sts where "ID x = random" "c_name x = request_name req" "Sandbox_of x = sb_ID sb" "\<not> c_created x"
      "snd (trunc_Add (ID x) (ctrIDIndex (cs s))) = None" "cs s3 = filed x (cs s)"
      "CreateContainer svc g random expired we req s rc =
         finish_creation svc expired (request_name req) random x s3 (SetStages (request_name req) (''container creating'' # sts) rc)"
proof -
  note p = prepare_Some [OF prep]
  have sb: "GetSandbox_cs (sb_ID sb) (cs s) = Some sb" by (rule getPodSandboxFromRequest_ok(3) [OF inv p(3)])
  let ?s = "s\<lparr>cs := reserved random (request_name req) (cs s)\<rparr>"
  have eq: "CreateContainer svc g random expired we req s rc = create_reserved svc expired f sb ?s rc"
    using CreateContainer_prepared [OF prep, of svc expired we rc] ReserveContainerName_cases [of "cs s" "request_name req" random] free
    by simp
  have "GetContainer random (cs s) = None" using fresh by (simp add: fresh_for_def)
  then show thesis
    using create_reserved_cases [OF svc inv, of f sb ?s expired rc] p(1,2) free sb storage undone filed eq by (simp, metis)
qed

subsection \<open>The resource store during a creation\<close>

lemma SetStages_placeholder:
  assumes "resources rc name = None"
  shows "\<exists>st. resources (SetStages name (s0 # sts) rc) name = Some (empty_Resource\<lparr>rname := name, stage := st\<rparr>)"
proof -
  have "\<exists>st. resources (SetStages name sts rc') name = Some (empty_Resource\<lparr>rname := name, stage := st\<rparr>)"
    if "resources rc' name = Some (empty_Resource\<lparr>rname := name, stage := st0\<rparr>)" for rc' :: "'a ResourceStore" and st0
    using that
  proof (induction sts arbitrary: rc' st0)
    case (Cons st sts)
    then show ?case by (simp add: SetStageForResource_def)
  qed auto
  from this [of "SetStageForResource name s0 rc" s0] show ?thesis
    using assms by (simp add: SetStageForResource_def empty_Resource_def)
qed

lemma rs_Put_placeholder:
  assumes "resources rc name = Some (empty_Resource\<lparr>rname := name, stage := st\<rparr>)"
  shows "\<exists>rc1. rs_Put name (Some i) cl rc = Inr rc1 \<and> rs_Get name rc1 = (rs_Delete name rc\<lparr>created_log := created_log rc @ [i]\<rparr>, i)"
proof -
  have "rs_Put name (Some i) cl rc = Inr (rc\<lparr>resources := (resources rc)(name \<mapsto>
      empty_Resource\<lparr>resource := Some i, cleaner := cl, rname := name, stage := st\<rparr>)\<rparr>)"
    using assms by (simp add: rs_Put_def wasPut_def empty_Resource_def)
  then show ?thesis by (auto simp: rs_Get_def rs_Delete_def map_delete_def)
qed

lemma prepare_again:
  assumes "prepare g r req c = Some (f, sb)" and "getPodSandboxFromRequest (rq_PodSandboxId req) c' = Inr sb'" and "\<not> stopped sb'"
  shows "\<exists>f'. prepare g r' req c' = Some (f', sb')"
  using assms by (auto simp: prepare_def split: option.splits sum.splits if_splits)

lemma getPodSandboxFromRequest_filed:
  assumes inv: "cs_inv c" and name: "names (ctrNameIndex c) (c_name x) = None" and i: "GetContainer (ID x) c = None"
    and sb: "getPodSandboxFromRequest p c = Inr sb" "Sandbox_of x = sb_ID sb"
  shows "getPodSandboxFromRequest p (filed x c) = Inr (sb_AddContainer x sb)"
proof -
  note g = getPodSandboxFromRequest_ok [OF inv sb(1)]
  have s: "GetSandbox_cs (Sandbox_of x) c = Some sb" using g(3) sb(2) by simp
  note r = reserved_facts [OF inv name i s]
  have "GetSandbox_cs (Sandbox_of x) (reserved (ID x) (c_name x) c) = Some sb" using s r(4) by simp
  from AddContainer_present(2) [OF this, of "sb_ID sb"]
  have "GetSandbox_cs (sb_ID sb) (filed x c) = Some (sb_AddContainer x sb)" using sb(2) by (simp add: filed_def)
  moreover have "trunc_Get p (podIDIndex (filed x c)) = Inr (sb_ID sb)"
    using r(6) trunc_Get_ok_iff [OF trunc_inv_of(2) [OF inv] g(1)] g(2) by (simp add: filed_def)
  ultimately show ?thesis
    using g(1,4) by (simp add: getPodSandboxFromRequest_def sb_AddContainer_def)
qed

text \<open>The next attempt of a request whose container waits in the resource store.\<close>

lemma CreateContainer_picks_up:
  assumes inv: "cs_inv c" and name: "names (ctrNameIndex c) (c_name x) = None" and i: "GetContainer (ID x) c = None"
    and sb: "GetSandbox_cs (Sandbox_of x) c = Some sb" and n: "c_name x = request_name req" and x: "\<not> c_created x"
    and p: "prepare g r req (cs s) = Some (f, sb')" and s: "cs s = filed x c" and r: "r \<noteq> ID x" and ne: "ID x \<noteq> ''''"
    and get: "rs_Get (request_name req) rc = (rc1, ID x)"
  shows "CreateContainer svc g r expired we req s rc = (s\<lparr>cs := filed (SetCreated x) c\<rparr>, rc1, Reply (ID x))"
proof -
  note f = filed_facts [OF inv name i sb]
  have taken: "names (ctrNameIndex (cs s)) (request_name req) = Some (ID x)" "GetContainer (ID x) (cs s) = Some x"
    using f(3,4) s n by simp_all
  have "same_identity (SetCreated x) x" by (simp add: same_identity_def)
  then have "mark_created (ID x) (cs s) = filed (SetCreated x) c" using taken(2) f(5) s by (simp add: mark_created_def)
  then show ?thesis
    unfolding CreateContainer_prepared [OF p]
    using ReserveContainerName_cases [of "cs s" "request_name req" r] taken r x get ne
    by (simp add: ContainerIDForName_def registrar_Get_def getResourceOrWait_def)
qed

text \<open>Rounds of the clean-up loop never take away an entry that holds no resource.\<close>

lemma mark_and_reap_placeholder:
  assumes "resources rc n = Some r" and "\<not> wasPut r"
  shows "resources (fst (mark_and_reap order rc)) n = Some r"
  using assms
proof (induction order rc rule: mark_and_reap.induct)
  case (2 name order rc)
  show ?case
  proof (cases "resources rc name")
    case (Some q)
    then show ?thesis
      using 2 by (cases "name = n") (auto simp: split_beta map_delete_def wasPut_def Let_def)
  qed (use 2 in simp)
qed simp

lemma rounds_placeholder:
  assumes "resources rc n = Some r" and "\<not> wasPut r"
  shows "resources (foldl (\<lambda>rc order. fst (mark_and_reap order rc)) rc orders) n = Some r"
  using assms by (induction orders arbitrary: rc) (simp_all add: mark_and_reap_placeholder)

section \<open>What stopping a pod changes\<close>

text \<open>The pods are all still there, as created as before, and none is started again.\<close>

definition pods_kept :: "ContainerServer \<Rightarrow> ContainerServer \<Rightarrow> bool" where
  "pods_kept c c' \<longleftrightarrow> podIDIndex c' = podIDIndex c \<and>
     (\<forall>p sb. GetSandbox_cs p c = Some sb \<longrightarrow>
        (\<exists>sb'. GetSandbox_cs p c' = Some sb' \<and> sb_created sb' = sb_created sb \<and> (stopped sb \<longrightarrow> stopped sb')))"

lemma pods_kept_refl [simp]: "pods_kept c c"
  by (simp add: pods_kept_def)

lemma pods_kept_trans: "pods_kept a b \<Longrightarrow> pods_kept b c \<Longrightarrow> pods_kept a c"
  unfolding pods_kept_def by metis

lemma pods_kept_changed: "pods_kept c (changed x c)"
  by (auto simp: pods_kept_def changed_def Let_def sb_AddContainer_def GetSandbox_cs_def put_sandbox_def split: option.split)

lemma pods_kept_change_pod:
  "(\<And>sb. sb_created (f sb) = sb_created sb \<and> (stopped sb \<longrightarrow> stopped (f sb))) \<Longrightarrow> pods_kept c (change_pod p f c)"
  by (auto simp: pods_kept_def)

lemma stopContainer_pods: "stopContainer svc x t s = (s', r) \<Longrightarrow> pods_kept (cs s) (cs s')"
  by (auto simp: stopContainer_def pods_kept_changed split: option.splits prod.splits)

lemma stop_all_pods: "stop_all svc t xs s = (s', r) \<Longrightarrow> pods_kept (cs s) (cs s')"
proof (induction xs arbitrary: s s' r)
  case (Cons x xs)
  obtain s1 r1 where s1: "stopContainer svc x t s = (s1, r1)" by fastforce
  obtain s2 r2 where s2: "stop_all svc t xs s1 = (s2, r2)" by fastforce
  have "s' = s1 \<or> s' = s2" using Cons.prems s1 s2 by (cases r1; cases r2) auto
  then show ?case using stopContainer_pods [OF s1] pods_kept_trans [OF _ Cons.IH [OF s2]] by blast
qed simp

lemma networkStop_pods: "networkStop svc sb s = (s', r) \<Longrightarrow> pods_kept (cs s) (cs s')"
  using networkStop_cs [of svc sb s s' r] pods_kept_change_pod [of "\<lambda>sb. sb\<lparr>networkStopped := True\<rparr>"] by auto

lemma stopPodSandbox_steps:
  assumes "stopPodSandbox svc d sb s = (s', Reply ())"
  obtains (already) s1 where "networkStop svc sb (s\<lparr>world := sv_unlinkLogs svc sb (world s)\<rparr>) = (s1, Reply ())" "stopped sb" "s' = s1"
    | (stopped) s1 s2 xs infra t s3 r where "networkStop svc sb (s\<lparr>world := sv_unlinkLogs svc sb (world s)\<rparr>) = (s1, Reply ())"
      "stop_all svc t xs s1 = (s2, Reply ())" "stopContainer svc infra t s2 = (s3, r)"
      "cs s' = change_pod (sb_ID sb) (\<lambda>sb. sb\<lparr>stopped := True\<rparr>) (cs s3)"
proof -
  obtain s1 r1 where n: "networkStop svc sb (s\<lparr>world := sv_unlinkLogs svc sb (world s)\<rparr>) = (s1, r1)" by fastforce
  then have r1: "r1 = Reply ()" using assms by (auto simp: stopPodSandbox_def Let_def split: reply.splits)
  show thesis
  proof (cases "stopped sb")
    case True
    then show thesis using already n r1 assms by (simp add: stopPodSandbox_def)
  next
    case False
    obtain s2 r2 where a: "stop_all svc (stopTimeoutFromContext d) (filter (\<lambda>c. Status (c_state c) \<noteq> ContainerStateStopped)
        (store_List container_CreatedAt (sb_containers sb))) s1 = (s2, r2)" by fastforce
    then have r2: "r2 = Reply ()" using assms False n r1 by (auto simp: stopPodSandbox_def Let_def split: reply.splits)
    obtain infra where i: "infraContainer sb = Some infra"
      using assms False n r1 a r2 by (auto simp: stopPodSandbox_def Let_def split: option.splits)
    obtain s3 r3 where c: "stopContainer svc infra (stopTimeoutFromContext d) s2 = (s3, r3)" by fastforce
    have "cs s' = change_pod (sb_ID sb) (\<lambda>sb. sb\<lparr>stopped := True\<rparr>) (cs s3)"
      using assms False n r1 a r2 i c
      by (cases r3) (auto simp: stopPodSandbox_def Let_def split: if_splits prod.splits option.splits)
    then show thesis using stopped n r1 a r2 c by blast
  qed
qed

lemma stopPodSandbox_stops:
  assumes sb: "GetSandbox_cs (sb_ID sb) (cs s) = Some sb" and eq: "stopPodSandbox svc d sb s = (s', Reply ())"
  shows "pods_kept (cs s) (cs s')" and "\<exists>sb'. GetSandbox_cs (sb_ID sb) (cs s') = Some sb' \<and> stopped sb'"
proof -
  have "pods_kept (cs s) (cs s') \<and> (\<exists>sb'. GetSandbox_cs (sb_ID sb) (cs s') = Some sb' \<and> stopped sb')"
    using eq
  proof (cases rule: stopPodSandbox_steps)
    case (already s1)
    then have "pods_kept (cs s) (cs s')" using networkStop_pods [OF already(1)] by simp
    then show ?thesis using sb already(2) unfolding pods_kept_def by blast
  next
    case (stopped s1 s2 xs infra t s3 r)
    have k: "pods_kept (cs s) (cs s3)"
      using pods_kept_trans [OF pods_kept_trans [OF networkStop_pods [OF stopped(1)] stop_all_pods [OF stopped(2)]]
          stopContainer_pods [OF stopped(3)]] by simp
    have "pods_kept (cs s3) (cs s')"
      unfolding stopped(4) by (rule pods_kept_change_pod) simp
    moreover obtain sb3 where "GetSandbox_cs (sb_ID sb) (cs s3) = Some sb3" using k sb unfolding pods_kept_def by blast
    ultimately show ?thesis using pods_kept_trans [OF k] stopped(4) by simp
  qed
  then show "pods_kept (cs s) (cs s')" "\<exists>sb'. GetSandbox_cs (sb_ID sb) (cs s') = Some sb' \<and> stopped sb'" by blast+
qed

section \<open>A server with one pod and one container\<close>

text \<open>Services on a world that counts the containers made; \<open>ok\<close>: the runtime can create
  containers.\<close>

definition sample_services :: "bool \<Rightarrow> nat services" where
  "sample_services ok = \<lparr>
     sv_createSandboxContainer = (\<lambda>f sb e. (Suc e, [''container storage creation''],
       Inr (zero_Container\<lparr>criContainer := (criContainer zero_Container)\<lparr>Id := f_id f, PodSandboxId := sb_ID sb\<rparr>, c_name := f_name f\<rparr>))),
     sv_storageDelete = (\<lambda>_ e. (e, None)), sv_runtimeCreate = (\<lambda>x e. (e, x, if ok then None else Some ''runtime'')),
     sv_runtimeDelete = (\<lambda>_ e. (e, None)), sv_runtimeStop = (\<lambda>x _ e. (e, x, None)), sv_preStop = (\<lambda>_ _ e. (e, None)),
     sv_postStop = (\<lambda>_ _ e. e), sv_stateToDisk = (\<lambda>_ e. e), sv_nriStop = (\<lambda>_ e. (e, None)), sv_nriRemove = (\<lambda>_ e. e),
     sv_removeExitFile = (\<lambda>_ e. (e, None)), sv_cleanupConmonCgroup = (\<lambda>_ e. e), sv_postCreate = (\<lambda>_ e. e),
     sv_unmountShm = (\<lambda>_ e. (e, None)), sv_removeSandboxCgroup = (\<lambda>_ e. (e, None)), sv_tearDownNetwork = (\<lambda>_ e. (e, None)),
     sv_networkStoppedFile = (\<lambda>_ e. (e, None)), sv_removeNamespaces = (\<lambda>_ e. (e, None)), sv_nriStopPod = (\<lambda>_ e. (e, None)),
     sv_unlinkLogs = (\<lambda>_ e. e), sv_isContainerUnknown = (\<lambda>_. False), sv_setStoppedFile = (\<lambda>_ e. e), sv_level = Some\<rparr>"

definition live_infra :: Container where
  "live_infra = NewSpoofedContainer ''p1'' ''pause'' Map.empty ''p1'' 0 ''''"

definition live_pod :: Sandbox where
  "live_pod = (sample_pod ''p1'' ''s0'')\<lparr>sb_name := ''pod'', sb_created := True, infraContainer := Some live_infra\<rparr>"

definition pod_server :: ContainerServer where
  "pod_server = (let c = fst (ReserveContainerName ''p1'' ''pause'' (fst (AddSandbox Some live_pod New_ContainerServer)))
     in c\<lparr>ctrIDIndex := fst (trunc_Add ''p1'' (ctrIDIndex c)), podIDIndex := fst (trunc_Add ''p1'' (podIDIndex c))\<rparr>)"

definition live_container :: Container where
  "live_container = zero_Container\<lparr>criContainer := (criContainer zero_Container)\<lparr>Id := ''c1'', PodSandboxId := ''p1''\<rparr>,
     c_name := ''n1'', c_created := True\<rparr>"

definition live_server :: ContainerServer where
  "live_server = filed live_container pod_server"

lemma sample_services_ok: "services_ok (sample_services ok)"
  by (auto simp: services_ok_def sample_services_def same_identity_def ID_def Sandbox_of_def zero_Container_def)

lemma sample_undo: "snd (retry (undo_storage (sample_services ok) i) w) = None"
  by (simp add: retry_ok undo_storage_def sample_services_def)

lemma pod_server_inv: "cs_inv pod_server"
proof -
  have "cs_inv (fst (AddSandbox Some live_pod New_ContainerServer))"
    by (rule AddSandbox_inv [OF cs_inv_New])
      (simp_all add: GetSandbox_cs_def New_ContainerServer_def live_pod_def sample_pod_def zero_Sandbox_def)
  from ReserveContainerName_inv [OF this, of "''p1''" "''pause''"] show ?thesis
    unfolding pod_server_def Let_def
    by (intro podIDIndex_inv ctrIDIndex_inv trunc_Add_inv) (simp_all add: cs_inv_def indices_ok_def)
qed

lemma pod_server_lookups:
  "names (ctrNameIndex pod_server) n = (if n = ''pause'' then Some ''p1'' else None)" "GetContainer i pod_server = None"
  "GetSandbox_cs ''p1'' pod_server = Some live_pod" "ids (ctrIDIndex pod_server) = {''p1''}" "ids (podIDIndex pod_server) = {''p1''}"
proof -
  have i: "sb_ID live_pod = ''p1''" by (simp add: sb_ID_def live_pod_def sample_pod_def)
  have s: "str_contains ''p1'' '' '' = False" by code_simp
  have f: "ctrNameIndex (fst (AddSandbox Some live_pod c)) = ctrNameIndex c" "ctrIDIndex (fst (AddSandbox Some live_pod c)) = ctrIDIndex c"
    "podIDIndex (fst (AddSandbox Some live_pod c)) = podIDIndex c" "GetContainer j (fst (AddSandbox Some live_pod c)) = GetContainer j c"
    "GetSandbox_cs ''p1'' (fst (AddSandbox Some live_pod c)) = Some live_pod" for c j
    by (simp_all add: AddSandbox_def addSandboxPlatform_def i GetContainer_def)
  show "names (ctrNameIndex pod_server) n = (if n = ''pause'' then Some ''p1'' else None)" "GetContainer i pod_server = None"
    "GetSandbox_cs ''p1'' pod_server = Some live_pod" "ids (ctrIDIndex pod_server) = {''p1''}" "ids (podIDIndex pod_server) = {''p1''}"
    by (simp_all add: pod_server_def Let_def ReserveContainerName_frame f trunc_Add_ids s)
      (simp_all add: New_ContainerServer_def NewRegistrar_def Reserve_def GetContainer_def NewTruncIndex_def has_prefix_def)
qed

lemma live_container_identity: "ID live_container = ''c1''" "c_name live_container = ''n1''" "Sandbox_of live_container = ''p1''" "c_created live_container"
  by (simp_all add: live_container_def ID_def Sandbox_of_def)

lemma live_server_facts:
  "cs_inv live_server" "GetContainer ''c1'' live_server = Some live_container" "recorded live_server live_container"
proof -
  have n: "names (ctrNameIndex pod_server) (c_name live_container) = None" "GetContainer (ID live_container) pod_server = None"
    "GetSandbox_cs (Sandbox_of live_container) pod_server = Some live_pod"
    by (simp_all add: pod_server_lookups live_container_identity)
  have "\<not> str_contains ''c1'' '' ''" by code_simp
  then have ix: "snd (trunc_Add (ID live_container) (ctrIDIndex pod_server)) = None"
    using trunc_Add_ok_iff [OF trunc_inv_of(1) [OF pod_server_inv]] by (simp add: pod_server_lookups live_container_identity)
  show "cs_inv live_server" "GetContainer ''c1'' live_server = Some live_container" "recorded live_server live_container"
    using filed_facts(2,3) [OF pod_server_inv n] filed_recorded(1) [OF pod_server_inv n ix]
    by (simp_all add: live_server_def live_container_identity)
qed

definition sample_request :: create_request where
  "sample_request = \<lparr>
     rq_Config = Some \<lparr>cc_Metadata = Some \<lparr>md_Name = ''web'', md_Attempt = 0\<rparr>, cc_Image = Some ''img'', cc_Command = None, cc_Args = [],
       cc_Labels = Map.empty, cc_Annotations = None, cc_LogPath = '''', cc_Tty = False, cc_Stdin = False, cc_StdinOnce = False, cc_Linux = None\<rparr>,
     rq_SandboxConfig = Some \<lparr>cfg_Metadata = Some \<lparr>pm_Name = ''pod'', pm_Uid = ''u'', pm_Namespace = ''ns'', pm_Attempt = 0\<rparr>,
       cfg_DnsConfig = None, cfg_Linux = None, cfg_LogDirectory = '''', cfg_Labels = Map.empty\<rparr>,
     rq_PodSandboxId = ''p1''\<rparr>"

abbreviation sample_state :: "ContainerServer \<Rightarrow> nat srv" where
  "sample_state c \<equiv> \<lparr>cs = c, world = 0\<rparr>"

lemma live_server_lookups:
  "GetContainerFromShortID ''c1'' live_server = Inr live_container"
  "getPodSandboxFromRequest ''p1'' live_server = Inr (sb_AddContainer live_container live_pod)"
  "getPodSandboxFromRequest ''p1'' pod_server = Inr live_pod"
proof -
  have s: "\<not> str_contains ''c1'' '' ''" by code_simp
  then have ids: "ids (ctrIDIndex live_server) = {''c1'', ''p1''}"
    by (simp add: live_server_def filed_def trunc_Add_ids pod_server_lookups live_container_identity)
  have "{k \<in> ids (ctrIDIndex live_server). has_prefix k ''c1''} = {''c1''}"
    unfolding ids by (auto simp: has_prefix_def)
  then have "trunc_Get ''c1'' (ctrIDIndex live_server) = Inr ''c1''"
    using trunc_Get_ok_iff [OF trunc_inv_of(1) [OF live_server_facts(1)]] by blast
  then show "GetContainerFromShortID ''c1'' live_server = Inr live_container"
    using live_server_facts(2) by (simp add: GetContainerFromShortID_def live_container_identity)
  have "{k \<in> ids (podIDIndex pod_server). has_prefix k ''p1''} = {''p1''}"
    unfolding pod_server_lookups by (auto simp: has_prefix_def)
  then have "trunc_Get ''p1'' (podIDIndex pod_server) = Inr ''p1''"
    using trunc_Get_ok_iff [OF trunc_inv_of(2) [OF pod_server_inv]] by blast
  then show p: "getPodSandboxFromRequest ''p1'' pod_server = Inr live_pod"
    by (simp add: getPodSandboxFromRequest_def pod_server_lookups) (simp add: live_pod_def)
  show "getPodSandboxFromRequest ''p1'' live_server = Inr (sb_AddContainer live_container live_pod)"
    unfolding live_server_def
    by (rule getPodSandboxFromRequest_filed [OF pod_server_inv _ _ p])
      (simp_all add: pod_server_lookups live_container_identity live_pod_def sample_pod_def sb_ID_def)
qed

section \<open>Properties\<close>

text \<open>C5: A request to remove a container that returns successfully has freed its name, taken its
  identifier out of the index and its object out of the store and its pod, and changed nothing
  else; repeating the same request then succeeds without any effect. When it fails the
  container is still there, under the same identifier, so that the request can be tried
  again. In both cases the stores and indices agree with each other.\<close>

theorem container_removed_completely:
  assumes "services_ok svc" and "cs_inv (cs s)" and "GetContainerFromShortID cid (cs s) = Inr x"
  shows "case RemoveContainer_rpc svc d cid s of (s', r) \<Rightarrow>
    cs_inv (cs s') \<and>
    (if r = Reply () then removed (cs s) (cs s') {x} \<and> RemoveContainer_rpc svc d cid s' = (s', Reply ())
     else \<exists>x'. same_identity x' x \<and> GetContainerFromShortID cid (cs s') = Inr x')"
proof -
  note g = GetContainerFromShortID_ok [OF assms(2,3)]
  obtain sb where sb: "GetSandbox_cs (Sandbox_of x) (cs s) = Some sb" using recordedD(4) [OF g(4)] ..
  then have i: "sb_ID sb = Sandbox_of x"
    using pods_filedD(1) [OF _ sb] assms(2) by (simp add: cs_inv_def)
  obtain s' r where e: "RemoveContainer_rpc svc d cid s = (s', r)" by fastforce
  then have "removeContainerInPod svc d (Some sb) x s = (s', r)"
    using assms(3) sb by (simp add: RemoveContainer_rpc_def)
  note k = removeContainerInPod_step [OF assms(1,2) g(4) i this]
  have "RemoveContainer_rpc svc d cid s' = (s', Reply ())" if "r = Reply ()"
    using GetContainerFromShortID_gone [OF k(1) g(1,2)] k(2) that by (simp add: RemoveContainer_rpc_def)
  then show ?thesis
    using e k touched_same_lookup [OF assms(2,3)] by (auto split: if_splits)
qed


theorem container_removed_completely_witness:
  "let (s', r) = RemoveContainer_rpc (sample_services True) None ''c1'' (sample_state live_server)
   in r = Reply () \<and> removed live_server (cs s') {live_container} \<and>
      RemoveContainer_rpc (sample_services True) None ''c1'' s' = (s', Reply ())"
proof -
  have "snd (RemoveContainer_rpc (sample_services True) None ''c1'' (sample_state live_server)) = Reply ()"
    by code_simp
  then show ?thesis
    using container_removed_completely [OF sample_services_ok, of "sample_state live_server" "''c1''" live_container True None]
    by (auto simp: live_server_facts live_server_lookups split: prod.splits)
qed



lemma live_pod_complete: "pod_complete (sb_AddContainer live_container live_pod) live_server"
proof -
  have "sb_containers live_pod = New_store" by (simp add: live_pod_def sample_pod_def zero_Sandbox_def)
  then have l: "store_List container_CreatedAt (sb_containers (sb_AddContainer live_container live_pod)) = [live_container]"
    by (simp add: sb_AddContainer_def store_List_def store_all_def store_Add_def New_store_def history_sort_def)
  have i: "ID live_infra = ''p1''" "c_name live_infra = ''pause''" "Sandbox_of live_infra = ''p1''"
    by (simp_all add: live_infra_def NewSpoofedContainer_def ID_def Sandbox_of_def)
  have n: "names (ctrNameIndex pod_server) (c_name live_container) = None" "GetContainer (ID live_container) pod_server = None"
    "GetSandbox_cs (Sandbox_of live_container) pod_server = Some live_pod"
    by (simp_all add: pod_server_lookups live_container_identity)
  have s: "\<not> str_contains ''c1'' '' ''" by code_simp
  have ix: "snd (trunc_Add (ID live_container) (ctrIDIndex pod_server)) = None"
    using trunc_Add_ok_iff [OF trunc_inv_of(1) [OF pod_server_inv]] s by (simp add: pod_server_lookups live_container_identity)
  have "GetContainer ''p1'' live_server = None"
    using filed_recorded(2) [OF pod_server_inv n ix, of "''p1''"] by (simp add: live_server_def pod_server_lookups live_container_identity)
  moreover have "names (ctrNameIndex live_server) ''pause'' = Some ''p1''"
    by (simp add: live_server_def filed_def reserved_def ReserveContainerName_frame live_container_identity reg.reserve_keeps pod_server_lookups)
  moreover have "ids (ctrIDIndex live_server) = {''c1'', ''p1''}"
    using s by (simp add: live_server_def filed_def trunc_Add_ids pod_server_lookups live_container_identity)
  moreover have "GetSandbox_cs ''p1'' live_server \<noteq> None"
    using recordedD(4) [OF live_server_facts(3)] by (simp add: live_container_identity)
  ultimately show ?thesis
    unfolding pod_complete_def l
    by (simp add: sb_AddContainer_def live_pod_def i recorded_def live_container_identity sample_pod_def sb_ID_def)
qed




lemma resources_New: "resources NewWithTimeout n = None"
  by (simp add: NewWithTimeout_def)

lemma pod_server_fresh: "fresh_for ''c2'' (NewWithTimeout :: nat srv ResourceStore) pod_server"
  by (simp add: fresh_for_def pod_server_lookups NewWithTimeout_def rs_Get_def)

abbreviation sample_creation :: "bool \<Rightarrow> bool \<Rightarrow> nat srv \<times> nat srv ResourceStore \<times> string reply" where
  "sample_creation ok expired \<equiv>
     CreateContainer (sample_services ok) empty_SpecGen ''c2'' expired CtxDone sample_request (sample_state pod_server) NewWithTimeout"


text \<open>C6: A creation whose context expires after the container was made is handed to the next
  attempt of the same request: that attempt returns the identifier of the first one, makes
  nothing a second time (the world outside the server is untouched), and leaves the container
  marked as created and the resource store without an entry for it.\<close>

theorem timed_out_creation_picked_up:
  assumes "services_ok svc" and "cs_inv (cs s)" and "fresh_for random rc (cs s)"
    and "\<forall>w. snd (retry (undo_storage svc random) w) = None" and "resources rc (request_name req) = None"
    and "CreateContainer svc g random True we req s rc = (s1, rc1, Fail e)" and "GetContainer random (cs s1) \<noteq> None"
    and "random' \<noteq> random"
  shows "\<exists>s2 rc2. CreateContainer svc g random' expired' we' req s1 rc1 = (s2, rc2, Reply random) \<and>
    world s2 = world s1 \<and> cs_inv (cs s2) \<and> resources rc2 (request_name req) = None \<and>
    (\<exists>x. GetContainer random (cs s2) = Some x \<and> c_created x \<and> recorded (cs s2) x)"
proof -
  let ?n = "request_name req"
  have gx: "GetContainer random (cs s) = None" and nr: "names (ctrNameIndex (cs s)) ?n \<noteq> Some random"
    using assms(3) unfolding fresh_for_def by blast+
  obtain f sb where prep: "prepare g random req (cs s) = Some (f, sb)"
    using prepare_None [of g random req s svc True we rc] assms(6,7) gx by fastforce
  note p = prepare_Some [OF prep] and sb = getPodSandboxFromRequest_ok(3) [OF assms(2) prepare_Some(3) [OF prep]]
  have free: "names (ctrNameIndex (cs s)) ?n = None"
    using CreateContainer_prepared [OF prep, of svc True we rc] ReserveContainerName_cases [OF nr] assms(6,7) gx
    by (auto split: if_splits sum.splits prod.splits)
  obtain x s3 sts where x: "ID x = random" "c_name x = ?n" "Sandbox_of x = sb_ID sb" "\<not> c_created x"
      "snd (trunc_Add (ID x) (ctrIDIndex (cs s))) = None" "cs s3 = filed x (cs s)"
    and eq: "(s1, rc1, Fail e) = finish_creation svc True ?n random x s3 (SetStages ?n (''container creating'' # sts) rc)"
    by (rule CreateContainer_free [OF assms(1-4) prep free, of True we]) (use assms(6,7) gx in auto)
  obtain st where "resources (SetStages ?n (''container creating'' # sts) rc) ?n = Some (empty_Resource\<lparr>rname := ?n, stage := st\<rparr>)"
    using SetStages_placeholder [OF assms(5)] by blast
  from rs_Put_placeholder [OF this, of random "Some (create_cleaner svc random ?n x 5)"]
  obtain rc2 where rc: "s1 = s3" "rs_Get ?n rc1 = (rc2, random)" "resources rc2 ?n = None"
    using eq by (auto simp: finish_creation_def rs_Delete_def map_delete_def)
  note a = x(1-3) and base = assms(2) free gx sb
  have pod: "getPodSandboxFromRequest (rq_PodSandboxId req) (cs s1) = Inr (sb_AddContainer x sb)"
    using getPodSandboxFromRequest_filed [of "cs s" x, unfolded a, OF base(1-3) p(3) refl] rc(1) x(6) by simp
  obtain f' where "prepare g random' req (cs s1) = Some (f', sb_AddContainer x sb)"
    using prepare_again [OF prep pod] p(4) by auto
  moreover have "random \<noteq> ''''" using x(1,5) trunc_Add_ok_iff [OF trunc_inv_of(1) [OF assms(2)]] by simp
  ultimately have "CreateContainer svc g random' expired' we' req s1 rc1 = (s1\<lparr>cs := filed (SetCreated x) (cs s)\<rparr>, rc2, Reply random)"
    using CreateContainer_picks_up [of "cs s" x, unfolded a, OF base refl x(4)] rc(1,2) x(6) assms(8) by blast
  moreover note filed_recorded(1) [of "cs s" "SetCreated x" sb, unfolded SetCreated_identity a, OF base x(5) [unfolded a]]
    filed_facts(2,3) [of "cs s" "SetCreated x" sb, unfolded SetCreated_identity a, OF base]
  ultimately show ?thesis using rc(3) by simp
qed


theorem timed_out_creation_picked_up_witness:
  "let (s1, rc1, r1) = sample_creation True True
   in r1 = Fail ''context done'' \<and>
      (\<exists>s2 rc2. CreateContainer (sample_services True) empty_SpecGen ''c3'' False CtxDone sample_request s1 rc1 = (s2, rc2, Reply ''c2'') \<and>
         world s2 = world s1)"
proof -
  obtain s1 rc1 r1 where e: "sample_creation True True = (s1, rc1, r1)" by (metis prod_cases3)
  have "snd (snd (sample_creation True True)) = Fail ''context done''" "GetContainer ''c2'' (cs (fst (sample_creation True True))) = None \<longleftrightarrow> False"
    by code_simp+
  then have r: "sample_creation True True = (s1, rc1, Fail ''context done'')" "GetContainer ''c2'' (cs s1) \<noteq> None" using e by simp_all
  have "\<exists>s2 rc2. CreateContainer (sample_services True) empty_SpecGen ''c3'' False CtxDone sample_request s1 rc1 = (s2, rc2, Reply ''c2'') \<and> world s2 = world s1"
    using timed_out_creation_picked_up [OF sample_services_ok, where s = "sample_state pod_server" and random = "''c2''" and
        rc = NewWithTimeout and random' = "''c3''" and expired' = False and we' = CtxDone, OF _ _ _ _ r(1) r(2)]
    by (auto simp: pod_server_inv pod_server_fresh sample_undo resources_New)
  then show ?thesis using r(1) by simp
qed

text \<open>C7: Once a request to stop a pod has returned successfully, every request to create a
  container in that pod fails and changes nothing, neither in the server nor in the resource
  store.\<close>

theorem stopped_pod_refuses_containers:
  assumes "cs_inv (cs s)" and "getPodSandboxFromRequest podID (cs s) = Inr sb"
    and "StopPodSandbox svc d podID s = (s', Reply ())" and "rq_PodSandboxId req = podID"
  shows "\<exists>e. CreateContainer svc' g random expired we req s' rc = (s', rc, Fail e)"
proof -
  note g = getPodSandboxFromRequest_ok [OF assms(1,2)]
  have "stopPodSandbox svc d sb s = (s', Reply ())" using assms(2,3) by (simp add: StopPodSandbox_def)
  note k = stopPodSandbox_stops [OF g(3) this]
  obtain sb' where sb': "GetSandbox_cs (sb_ID sb) (cs s') = Some sb'" "stopped sb'" using k(2) by blast
  have "trunc_Get podID (podIDIndex (cs s')) = Inr (sb_ID sb)"
    using k(1) g(1,2) trunc_Get_ok_iff [OF trunc_inv_of(2) [OF assms(1)] g(1)] by (simp add: pods_kept_def)
  then have "prepare g random req (cs s') = None"
    using sb' assms(4) by (auto simp: prepare_def getPodSandboxFromRequest_def split: option.split)
  then show ?thesis by (rule prepare_None)
qed

theorem stopped_pod_refuses_containers_witness:
  "let (s', r) = StopPodSandbox (sample_services True) None ''p1'' (sample_state live_server)
   in r = Reply () \<and>
      (\<exists>e. CreateContainer (sample_services True) empty_SpecGen ''c2'' False CtxDone sample_request s' NewWithTimeout = (s', NewWithTimeout, Fail e))"
proof -
  obtain s' r where e: "StopPodSandbox (sample_services True) None ''p1'' (sample_state live_server) = (s', r)" by fastforce
  moreover have "snd (StopPodSandbox (sample_services True) None ''p1'' (sample_state live_server)) = Reply ()"
    by code_simp
  ultimately have r: "StopPodSandbox (sample_services True) None ''p1'' (sample_state live_server) = (s', Reply ())" "r = Reply ()" by simp_all
  have "rq_PodSandboxId sample_request = ''p1''" by (simp add: sample_request_def)
  then show ?thesis
    using stopped_pod_refuses_containers [OF _ _ r(1)] e r(2) by (simp add: live_server_facts live_server_lookups)
qed




end
