(* ===== verification/Cpu_Set.thy ===== *)
theory Cpu_Set
  imports Prelude
begin

text \<open>
  The package \<^verbatim>\<open>k8s.io/utils/cpuset\<close> (\<^verbatim>\<open>vendor/k8s.io/utils/cpuset/cpuset.go\<close>): sets of
  CPU numbers, their canonical list notation and its parser. The map that carries a set is a
  finite set of integers.

  The loop of \<^verbatim>\<open>Parse\<close> that adds a range counts in an \<^verbatim>\<open>int\<close>. A range that ends at the
  largest one is never left, since the counter wraps around below it; the model says so.
  The theorem at the end is the round trip of printing and parsing.
\<close>

section \<open>Sets\<close>

type_synonym CPUSet = "int set"

definition cpu_List :: "CPUSet \<Rightarrow> int list" where
  "cpu_List s = sorted_list_of_set s"

definition cpu_Size :: "CPUSet \<Rightarrow> int" where
  "cpu_Size s = int (card s)"

definition cpu_Union :: "CPUSet \<Rightarrow> CPUSet \<Rightarrow> CPUSet" where
  "cpu_Union s t = s \<union> t"

definition cpu_Difference :: "CPUSet \<Rightarrow> CPUSet \<Rightarrow> CPUSet" where
  "cpu_Difference s t = {c \<in> s. c \<notin> t}"

section \<open>Printing\<close>

text \<open>The ranges after the first element of the sorted list, the last range being \<open>(a, e)\<close>.\<close>

fun ranges_from :: "int \<Rightarrow> int \<Rightarrow> int list \<Rightarrow> (int \<times> int) list" where
  "ranges_from a e [] = [(a, e)]"
| "ranges_from a e (x # xs) =
     (if x = e + 1 then ranges_from a x xs else (a, e) # ranges_from x x xs)"

definition range_text :: "int \<times> int \<Rightarrow> string" where
  "range_text r = (if fst r = snd r then itoa (fst r) else itoa (fst r) @ ''-'' @ itoa (snd r))"

text \<open>Every range is followed by a comma; \<^verbatim>\<open>TrimRight\<close> takes the last one away.\<close>

definition trim_right :: "char \<Rightarrow> string \<Rightarrow> string" where
  "trim_right c s = rev (dropWhile (\<lambda>x. x = c) (rev s))"

definition cpu_String :: "CPUSet \<Rightarrow> string" where
  "cpu_String s =
     (case cpu_List s of [] \<Rightarrow> ''''
      | x # xs \<Rightarrow> trim_right (CHR '','') (concat (map (\<lambda>r. range_text r @ '','') (ranges_from x x xs))))"

section \<open>Parsing\<close>

definition max_int :: int where
  "max_int = 9223372036854775807"

definition parse_range :: "string \<Rightarrow> CPUSet reply" where
  "parse_range r =
     (case split_two (CHR ''-'') r of
        [b] \<Rightarrow> (case atoi b of None \<Rightarrow> Fail ''invalid syntax'' | Some e \<Rightarrow> Reply {e})
      | [b, b'] \<Rightarrow>
          (case atoi b of None \<Rightarrow> Fail ''invalid syntax''
           | Some start \<Rightarrow>
               (case atoi b' of None \<Rightarrow> Fail ''invalid syntax''
                | Some end' \<Rightarrow>
                    if start > end' then Fail ''invalid range''
                    else if end' = max_int then Hang
                    else Reply {start..end'}))
      | _ \<Rightarrow> Reply {})"

fun parse_ranges :: "CPUSet \<Rightarrow> string list \<Rightarrow> CPUSet reply" where
  "parse_ranges result [] = Reply result"
| "parse_ranges result (r # rs) =
     (case parse_range r of Reply s \<Rightarrow> parse_ranges (result \<union> s) rs
      | Fail e \<Rightarrow> Fail e | Crash \<Rightarrow> Crash | Hang \<Rightarrow> Hang)"

definition cpu_Parse :: "string \<Rightarrow> CPUSet reply" where
  "cpu_Parse s = (if s = '''' then Reply {} else parse_ranges {} (split_on (CHR '','') s))"

section \<open>Lemmas\<close>

lemma parse_range_finite: "parse_range r = Reply s \<Longrightarrow> finite s"
  by (auto simp: parse_range_def split: list.splits option.splits if_splits)

lemma parse_ranges_finite:
  "parse_ranges s rs = Reply t \<Longrightarrow> finite s \<Longrightarrow> finite t"
  by (induction s rs rule: parse_ranges.induct) (auto split: reply.splits dest: parse_range_finite)

lemma cpu_Parse_finite: "cpu_Parse s = Reply t \<Longrightarrow> finite t"
  by (auto simp: cpu_Parse_def split: if_splits dest: parse_ranges_finite)

text \<open>A part of a range holds no sign: the first one has no minus, and the second one is not
  below the first.\<close>

lemma atoi_no_minus: "CHR ''-'' \<notin> set b \<Longrightarrow> atoi b = Some i \<Longrightarrow> 0 \<le> i"
  by (auto simp: atoi_def Let_def split: list.splits option.splits if_splits)

lemma parse_range_nonneg:
  assumes "parse_range r = Reply s" and "c \<in> s"
  shows "0 \<le> c"
proof -
  have "CHR ''-'' \<notin> set (takeWhile (\<lambda>x. x \<noteq> CHR ''-'') r)"
    using set_takeWhileD by fast
  with assms show ?thesis
    by (auto simp: parse_range_def split_two_def split: option.splits if_splits
        dest!: atoi_no_minus)
qed

lemma parse_ranges_nonneg:
  "parse_ranges s rs = Reply t \<Longrightarrow> \<forall>c\<in>s. 0 \<le> c \<Longrightarrow> c \<in> t \<Longrightarrow> 0 \<le> c"
  by (induction s rs rule: parse_ranges.induct) (auto split: reply.splits dest: parse_range_nonneg)

lemma cpu_Parse_nonneg: "cpu_Parse s = Reply t \<Longrightarrow> c \<in> t \<Longrightarrow> 0 \<le> c"
  by (auto simp: cpu_Parse_def split: if_splits dest: parse_ranges_nonneg)

lemma parse_never_crashes: "cpu_Parse s \<noteq> Crash"
proof -
  have "parse_range r \<noteq> Crash" for r
    by (auto simp: parse_range_def split: list.splits option.splits if_splits)
  then have "parse_ranges a rs \<noteq> Crash" for a rs
    by (induction a rs rule: parse_ranges.induct) (auto split: reply.splits)
  then show ?thesis by (simp add: cpu_Parse_def)
qed

definition range_set :: "int \<times> int \<Rightarrow> int set" where
  "range_set r = {fst r..snd r}"

definition printable :: "int \<times> int \<Rightarrow> bool" where
  "printable r = (0 \<le> fst r \<and> fst r \<le> snd r \<and> snd r < max_int)"

lemma itoa_no_char:
  assumes "0 \<le> i" and "\<not> is_digit c"
  shows "c \<notin> set (itoa i)"
  using assms utoa_chars by (auto simp: itoa_def)

lemma printable_int64: "printable r \<Longrightarrow> in_int64 (fst r) \<and> in_int64 (snd r)"
  by (auto simp: printable_def in_int64_def max_int_def)

lemma range_text_no_comma: "printable r \<Longrightarrow> CHR '','' \<notin> set (range_text r)"
  using itoa_no_char [of "fst r" "CHR '',''"] itoa_no_char [of "snd r" "CHR '',''"]
  by (auto simp: range_text_def printable_def)

lemma range_text_not_Nil: "range_text r \<noteq> []"
  by (auto simp: range_text_def itoa_def)

lemma parse_range_text:
  assumes "printable r"
  shows "parse_range (range_text r) = Reply (range_set r)"
proof -
  have m: "CHR ''-'' \<notin> set (itoa (fst r))"
    using assms by (intro itoa_no_char) (auto simp: printable_def)
  have i: "atoi (itoa (fst r)) = Some (fst r)" "atoi (itoa (snd r)) = Some (snd r)"
    using printable_int64 [OF assms] by (simp_all add: atoi_itoa)
  show ?thesis
  proof (cases "fst r = snd r")
    case True
    then show ?thesis
      using m i by (simp add: parse_range_def range_text_def split_two_def range_set_def)
  next
    case False
    then show ?thesis
      using split_two_eq [OF m, of "itoa (snd r)"] i assms
      by (auto simp: parse_range_def range_text_def range_set_def printable_def)
  qed
qed

lemma parse_range_texts:
  "list_all printable rs \<Longrightarrow>
    parse_ranges s (map range_text rs) = Reply (s \<union> (\<Union>r\<in>set rs. range_set r))"
  by (induction rs arbitrary: s) (auto simp: parse_range_text)

lemma ranges_from_union:
  assumes "a \<le> e" and "sorted_wrt (<) (e # xs)"
  shows "(\<Union>r\<in>set (ranges_from a e xs). range_set r) = {a..e} \<union> set xs"
  using assms
proof (induction a e xs rule: ranges_from.induct)
  case (1 a e)
  then show ?case by (simp add: range_set_def)
next
  case (2 a e x xs)
  show ?case
  proof (cases "x = e + 1")
    case True
    then have "{a..x} = insert x {a..e}" using 2(3) by auto
    then show ?thesis using 2(1) [OF True] 2(3,4) True by auto
  next
    case False
    then show ?thesis using 2(2) [OF False] 2(4) by (auto simp: range_set_def)
  qed
qed

lemma ranges_from_printable:
  assumes "0 \<le> a" and "a \<le> e" and "e < max_int" and "sorted_wrt (<) (e # xs)" and "\<forall>x\<in>set xs. x < max_int"
  shows "list_all printable (ranges_from a e xs)"
  using assms
  by (induction a e xs rule: ranges_from.induct) (auto simp: printable_def)

lemma ranges_from_not_Nil [simp]: "ranges_from a e xs \<noteq> []"
  by (induction a e xs rule: ranges_from.induct) auto

lemma join_commas:
  assumes "ws \<noteq> []" and "\<forall>w\<in>set ws. w \<noteq> [] \<and> CHR '','' \<notin> set w"
  shows "trim_right (CHR '','') (concat (map (\<lambda>w. w @ '','') ws)) = join_with '','' ws"
  using assms
proof (induction ws rule: induct_list012)
  case (2 w)
  then have "dropWhile (\<lambda>x. x = CHR '','') (rev w) = rev w"
    by (cases w rule: rev_cases) auto
  then show ?case by (simp add: trim_right_def)
next
  case (3 w v ws)
  let ?t = "concat (map (\<lambda>w. w @ '','') (v # ws))"
  have v: "hd v \<in> set v" "CHR '','' \<notin> set v" using 3(4) by simp_all
  then have c: "hd v \<in> set (rev ?t)" "hd v \<noteq> CHR '',''" by auto
  have "dropWhile (\<lambda>x. x = CHR '','') (rev ?t @ rev (w @ '','')) =
      dropWhile (\<lambda>x. x = CHR '','') (rev ?t) @ rev (w @ '','')"
    by (rule dropWhile_append1 [OF c(1)]) (use c(2) in simp)
  then have "trim_right (CHR '','') ((w @ '','') @ ?t) = (w @ '','') @ trim_right (CHR '','') ?t"
    unfolding trim_right_def by (simp only: rev_append rev_rev_ident)
  moreover have "trim_right (CHR '','') ?t = join_with '','' (v # ws)"
    using 3(4) by (intro 3(2)) simp_all
  ultimately show ?case by simp
qed simp

lemma cpu_Parse_String:
  assumes "finite s" and "\<forall>c\<in>s. 0 \<le> c \<and> c < max_int"
  shows "cpu_Parse (cpu_String s) = Reply s"
proof (cases "cpu_List s")
  case Nil
  then show ?thesis
    using assms(1) by (simp add: cpu_String_def cpu_Parse_def cpu_List_def)
next
  case (Cons x xs)
  then have xs: "sorted_wrt (<) (x # xs)" "set (x # xs) = s"
    using assms(1) strict_sorted_list_of_set [of s] set_sorted_list_of_set [of s]
    by (simp_all add: cpu_List_def)
  let ?rs = "ranges_from x x xs"
  have p: "list_all printable ?rs"
    using assms(2) xs by (intro ranges_from_printable) auto
  then have w: "\<forall>w\<in>set (map range_text ?rs). w \<noteq> [] \<and> CHR '','' \<notin> set w"
    by (auto simp: list_all_iff range_text_not_Nil range_text_no_comma)
  have str: "cpu_String s = join_with '','' (map range_text ?rs)"
    using join_commas [OF _ w] Cons by (simp add: cpu_String_def comp_def)
  have sp: "split_on (CHR '','') (cpu_String s) = map range_text ?rs"
    unfolding str using w by (intro split_join) auto
  have "cpu_String s \<noteq> []"
  proof
    assume e: "cpu_String s = []"
    then have "map range_text ?rs = [[]]" using sp by simp
    with w show False by auto
  qed
  then show ?thesis
    unfolding cpu_Parse_def sp parse_range_texts [OF p]
    using ranges_from_union [of x x xs] xs by auto
qed

section \<open>Properties\<close>

text \<open>A set of CPU numbers from zero up to, but without, the largest \<^verbatim>\<open>int\<close> is what parsing its
  canonical notation gives back.\<close>

theorem cpu_set_roundtrip:
  assumes "finite s" and "\<forall>c\<in>s. 0 \<le> c \<and> c < max_int"
  shows "cpu_Parse (cpu_String s) = Reply s"
  using assms by (rule cpu_Parse_String)

theorem cpu_set_roundtrip_witness:
  "cpu_Parse (cpu_String {0, 1, 2, 3, 7, 9}) = Reply {0, 1, 2, 3, 7, 9} \<and> cpu_String {0, 1, 2, 3, 7, 9} = ''0-3,7,9''"
proof
  show "cpu_Parse (cpu_String {0, 1, 2, 3, 7, 9}) = Reply {0, 1, 2, 3, 7, 9}"
    by (rule cpu_set_roundtrip) (simp_all add: max_int_def)
  show "cpu_String {0, 1, 2, 3, 7, 9} = ''0-3,7,9''"
    by code_simp
qed

end
