(* ===== verification/Irq_Affinity.thy ===== *)
theory Irq_Affinity
  imports Cpu_Set Host_Files "HOL-Library.Word"
begin

unbundle bit_operations_syntax

text \<open>
  The interrupt masks of \<^verbatim>\<open>internal/runtimehandlerhooks/utils_linux.go\<close>: hexadecimal masks as
  byte arrays with the lowest CPUs first, the update that moves the CPUs of a container in or
  out of the mask of the kernel and out of or into the mask banned from irqbalance, and the
  configuration file of that service. Bytes are 8-bit words.

  The specification reads a mask as the number its hexadecimal digits denote
  (\<open>mask_value\<close>), in which the bit of a CPU says whether it takes interrupts.
\<close>

section \<open>Bytes and hexadecimal text\<close>

definition isASCII :: "string \<Rightarrow> bool" where
  "isASCII s = list_all (\<lambda>c. (of_char c :: nat) \<le> 127) s"

definition cpuMaskByte :: "nat \<Rightarrow> 8 word" where
  "cpuMaskByte c = push_bit c 1"

definition hex_digits :: string where
  "hex_digits = ''0123456789abcdef''"

definition hex_nibble :: "char \<Rightarrow> nat option" where
  "hex_nibble c =
     (let n = (of_char c :: nat)
      in if 48 \<le> n \<and> n \<le> 57 then Some (n - 48)
         else if 97 \<le> n \<and> n \<le> 102 then Some (n - 87)
         else if 65 \<le> n \<and> n \<le> 70 then Some (n - 55)
         else None)"

text \<open>\<^verbatim>\<open>hex.DecodeString\<close> and \<^verbatim>\<open>hex.EncodeToString\<close>.\<close>

fun hex_decode :: "string \<Rightarrow> 8 word list option" where
  "hex_decode [] = Some []"
| "hex_decode [c] = None"
| "hex_decode (c # d # s) =
     (case hex_nibble c of None \<Rightarrow> None
      | Some a \<Rightarrow> (case hex_nibble d of None \<Rightarrow> None
          | Some b \<Rightarrow> map_option (\<lambda>bs. word_of_nat (16 * a + b) # bs) (hex_decode s)))"

definition hex_byte :: "8 word \<Rightarrow> string" where
  "hex_byte b = [hex_digits ! (unat b div 16), hex_digits ! (unat b mod 16)]"

definition hex_encode :: "8 word list \<Rightarrow> string" where
  "hex_encode bs = concat (map hex_byte bs)"

definition mapHexCharToByte :: "string \<Rightarrow> 8 word list option" where
  "mapHexCharToByte h =
     (let hexin = (if length h mod 2 \<noteq> 0 then ''0'' @ h else h)
      in map_option rev (hex_decode hexin))"

definition mapByteToHexChar :: "8 word list \<Rightarrow> string" where
  "mapByteToHexChar b =
     (let l = length b;
          b' = (if l mod 4 \<noteq> 0 then b @ replicate (4 - l mod 4) 0 else b)
      in hex_encode (rev b'))"

definition invertByteArray :: "8 word list \<Rightarrow> 8 word list" where
  "invertByteArray bs = map (\<lambda>b. 0xff - b) bs"

definition isAllBitSet :: "8 word list \<Rightarrow> bool" where
  "isAllBitSet bs = list_all (\<lambda>b. b AND (b + 1) = 0) bs"

section \<open>The update of the masks\<close>

text \<open>The loop over the CPUs of the container. An index beyond the arrays panics; so does a
  negative number, as an index or as the count of a shift.\<close>

fun update_masks :: "bool \<Rightarrow> int list \<Rightarrow> 8 word list \<Rightarrow> 8 word list \<Rightarrow> (8 word list \<times> 8 word list) reply" where
  "update_masks set' [] cur ban = Reply (cur, ban)"
| "update_masks set' (cpu # cpus) cur ban =
     (let j = nat cpu div 8; m = cpuMaskByte (nat cpu mod 8)
      in if cpu < 0 \<or> length cur \<le> j \<or> length ban \<le> j then Crash
         else if set' then update_masks set' cpus (cur[j := (cur ! j) OR m]) (ban[j := (ban ! j) AND NOT m])
         else update_masks set' cpus (cur[j := (cur ! j) AND NOT m]) (ban[j := (ban ! j) OR m]))"

text \<open>Groups of eight digits; what is left over is dropped.\<close>

fun comma_tail :: "string \<Rightarrow> string" where
  "comma_tail s = (if length s < 8 then '''' else '','' @ take 8 s @ comma_tail (drop 8 s))"

declare comma_tail.simps [simp del]

definition with_commas :: "string \<Rightarrow> string reply" where
  "with_commas s = (if length s < 8 then Crash else Reply (take 8 s @ comma_tail (drop 8 s)))"

definition UpdateIRQSmpAffinityMask :: "string \<Rightarrow> string \<Rightarrow> bool \<Rightarrow> (string \<times> string) reply" where
  "UpdateIRQSmpAffinityMask cpus current set' =
     reply_bind (cpu_Parse cpus) (\<lambda>podcpuset.
       if \<not> isASCII current then Fail ''non ascii character detected''
       else case mapHexCharToByte (filter (\<lambda>c. c \<noteq> CHR '','') current) of
              None \<Rightarrow> Fail ''invalid hexadecimal mask''
            | Some currentMaskArray \<Rightarrow>
                reply_bind (update_masks set' (cpu_List podcpuset) currentMaskArray (invertByteArray currentMaskArray))
                  (\<lambda>(cur, ban).
                     reply_bind (with_commas (mapByteToHexChar cur)) (\<lambda>m.
                       reply_bind (with_commas (mapByteToHexChar ban)) (\<lambda>b. Reply (m, b)))))"

section \<open>The configuration file of irqbalance\<close>

definition irqBalanceBannedCpus :: string where
  "irqBalanceBannedCpus = ''IRQBALANCE_BANNED_CPUS''"

abbreviation newline :: char where
  "newline \<equiv> CHR 0x0A"

abbreviation quote :: char where
  "quote \<equiv> CHR 0x22"

definition banned_key :: string where
  "banned_key = irqBalanceBannedCpus @ ''=''"

definition banned_line :: "string \<Rightarrow> string" where
  "banned_line v = banned_key @ [quote] @ v @ [quote]"

definition set_banned :: "string \<Rightarrow> string \<Rightarrow> string" where
  "set_banned v input =
     (let lines = split_on newline input;
          output = join_with [newline] (map (\<lambda>l. if has_prefix l banned_key then banned_line v else l) lines)
      in if list_ex (\<lambda>l. has_prefix l banned_key) lines then output
         else output @ [newline] @ banned_line v @ [newline])"

definition updateIrqBalanceConfigFile :: "string \<Rightarrow> string \<Rightarrow> host \<Rightarrow> host \<times> file_error option" where
  "updateIrqBalanceConfigFile f v h =
     (case os_ReadFile f h of Inl e \<Rightarrow> (h, Some e)
      | Inr input \<Rightarrow> os_WriteFile f (set_banned v input) h)"

definition get_banned :: "string \<Rightarrow> string" where
  "get_banned input =
     (case filter (\<lambda>l. has_prefix l banned_key) (split_on newline input) of
        [] \<Rightarrow> ''''
      | l # _ \<Rightarrow> trim_by (\<lambda>c. c = quote) (split_on (CHR ''='') l ! 1))"

definition retrieveIrqBannedCPUMasks :: "string \<Rightarrow> host \<Rightarrow> file_error + string" where
  "retrieveIrqBannedCPUMasks f h =
     (case os_ReadFile f h of Inl e \<Rightarrow> Inl e | Inr input \<Rightarrow> Inr (get_banned input))"

section \<open>Masks as numbers\<close>

text \<open>The number a mask denotes; commas do not count.\<close>

fun hex_value :: "nat \<Rightarrow> string \<Rightarrow> nat" where
  "hex_value acc [] = acc"
| "hex_value acc (c # s) = (case hex_nibble c of None \<Rightarrow> hex_value acc s | Some d \<Rightarrow> hex_value (16 * acc + d) s)"

definition mask_value :: "string \<Rightarrow> nat" where
  "mask_value s = hex_value 0 s"

definition hex_mask :: "string \<Rightarrow> bool" where
  "hex_mask s = list_all (\<lambda>c. c = CHR '','' \<or> hex_nibble c \<noteq> None) s"

text \<open>The number of CPUs a mask has a bit for: eight for each pair of digits.\<close>

definition mask_cpus :: "string \<Rightarrow> nat" where
  "mask_cpus s = 8 * ((length (filter (\<lambda>c. c \<noteq> CHR '','') s) + 1) div 2)"

fun bytes_val :: "8 word list \<Rightarrow> nat" where
  "bytes_val [] = 0"
| "bytes_val (b # bs) = unat b + 256 * bytes_val bs"

lemma byte_lt: "unat (b :: 8 word) < 256"
  using unsigned_less [of b] by simp

lemma bit_add_256:
  fixes a v :: nat
  assumes "a < 256"
  shows "bit (a + 256 * v) i = (if i < 8 then bit a i else bit v (i - 8))"
proof (cases "i < 8")
  case True
  then have "(256::nat) = 2 ^ i * 2 ^ (8 - i)"
    by (simp flip: power_add)
  then have "(a + 256 * v) div 2 ^ i = (a + 2 ^ i * (2 ^ (8 - i) * v)) div 2 ^ i"
    by (simp only: mult.assoc)
  then have "(a + 256 * v) div 2 ^ i = a div 2 ^ i + 2 ^ (8 - i) * v"
    by simp
  with True show ?thesis by (simp add: bit_iff_odd)
next
  case False
  then have "(2::nat) ^ i = 256 * 2 ^ (i - 8)"
    using power_add [of "2::nat" 8 "i - 8"] by simp
  then have "(a + 256 * v) div 2 ^ i = v div 2 ^ (i - 8)"
    using assms by (simp add: div_mult2_eq)
  with False show ?thesis by (simp add: bit_iff_odd)
qed

lemma bit_bytes_val:
  "bit (bytes_val bs) i \<longleftrightarrow> i div 8 < length bs \<and> bit (bs ! (i div 8)) (i mod 8)"
proof (induction bs arbitrary: i)
  case Nil
  then show ?case by simp
next
  case (Cons b bs)
  show ?case
  proof (cases "i < 8")
    case True
    then show ?thesis
      unfolding bytes_val.simps bit_add_256 [OF byte_lt] by (simp add: bit_unsigned_iff)
  next
    case False
    then obtain j where "i = j + 8"
      by (metis add.commute le_add_diff_inverse not_less)
    moreover have "(j + 8) div 8 = Suc (j div 8)" by (simp add: div_add_self2)
    ultimately show ?thesis
      unfolding bytes_val.simps bit_add_256 [OF byte_lt] using Cons.IH [of j] by simp
  qed
qed

lemma bytes_val_zeros [simp]: "bytes_val (bs @ replicate k 0) = bytes_val bs"
proof (induction bs)
  case Nil
  then show ?case by (induction k) simp_all
qed simp

lemma hex_value_append: "hex_value acc (s @ t) = hex_value (hex_value acc s) t"
  by (induction s arbitrary: acc) (simp_all split: option.split)

lemma hex_nibble_comma [simp]: "hex_nibble (CHR '','') = None"
  by (simp add: hex_nibble_def)

lemma hex_nibble_digit: "d < 16 \<Longrightarrow> hex_nibble (hex_digits ! d) = Some d"
proof -
  have "list_all (\<lambda>d. hex_nibble (hex_digits ! d) = Some d) [0..<16]"
    by (simp add: upt_rec hex_digits_def hex_nibble_def)
  then show "d < 16 \<Longrightarrow> hex_nibble (hex_digits ! d) = Some d"
    by (simp add: list_all_iff)
qed

lemma hex_value_no_commas [simp]: "hex_value acc (filter (\<lambda>c. c \<noteq> CHR '','') s) = hex_value acc s"
  by (induction s arbitrary: acc) (simp_all split: option.split)

lemma hex_nibble_lt: "hex_nibble c = Some d \<Longrightarrow> d < 16"
  by (auto simp: hex_nibble_def Let_def split: if_splits)

lemma hex_value_byte: "hex_value acc (hex_byte b) = 256 * acc + unat b"
proof -
  have "unat b < 256" by (rule byte_lt)
  then show ?thesis by (simp add: hex_byte_def hex_nibble_digit)
qed

lemma hex_value_encode: "hex_value 0 (hex_encode (rev bs)) = bytes_val bs"
  by (induction bs) (simp_all add: hex_encode_def hex_value_append hex_value_byte)

lemma hex_value_decode:
  "hex_decode s = Some bs \<Longrightarrow> hex_value acc s = foldl (\<lambda>a b. 256 * a + unat b) acc bs"
proof (induction s arbitrary: acc bs rule: hex_decode.induct)
  case (3 c d s)
  then obtain a b bs' where d: "hex_nibble c = Some a" "hex_nibble d = Some b" "hex_decode s = Some bs'"
    "bs = word_of_nat (16 * a + b) # bs'"
    by (auto split: option.splits)
  have "16 * a + b < 256"
    using hex_nibble_lt [OF d(1)] hex_nibble_lt [OF d(2)] by simp
  then have "unat (word_of_nat (16 * a + b) :: 8 word) = 16 * a + b"
    by (simp only: unsigned_of_nat) (simp add: take_bit_eq_mod)
  then show ?case
    using 3(1) [OF d(1,2,3)] d by (simp add: algebra_simps)
qed simp_all

lemma bytes_val_rev: "bytes_val (rev bs) = foldl (\<lambda>a b. 256 * a + unat b) 0 bs"
  by (induction bs rule: rev_induct) simp_all

lemma hex_decode_length: "hex_decode s = Some bs \<Longrightarrow> length s = 2 * length bs"
  by (induction s arbitrary: bs rule: hex_decode.induct) (auto split: option.splits)

lemma hex_decode_total:
  "even (length s) \<Longrightarrow> list_all (\<lambda>c. hex_nibble c \<noteq> None) s \<Longrightarrow> \<exists>bs. hex_decode s = Some bs"
  by (induction s rule: hex_decode.induct) auto

text \<open>Decoding and encoding a mask keeps its number.\<close>

lemma mapHexCharToByte_value:
  assumes "mapHexCharToByte h = Some bs"
  shows "bytes_val bs = hex_value 0 h" and "length bs = (length h + 1) div 2"
proof -
  let ?h = "if length h mod 2 \<noteq> 0 then ''0'' @ h else h"
  obtain cs where cs: "hex_decode ?h = Some cs" "bs = rev cs"
    using assms by (auto simp: mapHexCharToByte_def Let_def)
  have "hex_nibble (CHR ''0'') = Some 0" by (simp add: hex_nibble_def)
  then have "hex_value 0 ?h = hex_value 0 h" by simp
  then show "bytes_val bs = hex_value 0 h"
    using hex_value_decode [OF cs(1), of 0] cs(2) by (simp add: bytes_val_rev)
  show "length bs = (length h + 1) div 2"
    using hex_decode_length [OF cs(1)] cs(2) by (auto split: if_splits)
qed

lemma mapHexCharToByte_total:
  assumes "list_all (\<lambda>c. hex_nibble c \<noteq> None) h"
  shows "\<exists>bs. mapHexCharToByte h = Some bs"
proof -
  have "hex_nibble (CHR ''0'') = Some 0" by (simp add: hex_nibble_def)
  then have "\<exists>bs. hex_decode (if length h mod 2 \<noteq> 0 then ''0'' @ h else h) = Some bs"
    using assms by (intro hex_decode_total) (auto simp: odd_iff_mod_2_eq_one)
  then show ?thesis by (auto simp: mapHexCharToByte_def Let_def)
qed

lemma mapByteToHexChar_value: "hex_value 0 (mapByteToHexChar bs) = bytes_val bs"
  using hex_value_encode [of bs] hex_value_encode [of "bs @ replicate (4 - length bs mod 4) 0"]
  by (simp add: mapByteToHexChar_def Let_def)

section \<open>Laws of the update\<close>

lemma bit_cpuMaskByte: "k < 8 \<Longrightarrow> bit (cpuMaskByte c) k \<longleftrightarrow> k = c"
  by (auto simp: cpuMaskByte_def bit_exp_iff)

lemma bit_set_byte:
  "k < 8 \<Longrightarrow> bit (b OR cpuMaskByte c) k \<longleftrightarrow> k = c \<or> bit b k"
  "k < 8 \<Longrightarrow> bit (b AND NOT (cpuMaskByte c)) k \<longleftrightarrow> k \<noteq> c \<and> bit b k"
  by (auto simp: bit_or_iff bit_and_iff bit_not_iff bit_cpuMaskByte)

definition in_arrays :: "int list \<Rightarrow> 'b list \<Rightarrow> bool" where
  "in_arrays cpus bs = list_all (\<lambda>c. 0 \<le> c \<and> nat c < 8 * length bs) cpus"

text \<open>Bit \<open>i\<close> of an array of bytes.\<close>

definition abit :: "8 word list \<Rightarrow> nat \<Rightarrow> bool" where
  "abit bs i = bit (bs ! (i div 8)) (i mod 8)"

lemma cpu_index_eq: "i = c \<longleftrightarrow> i div 8 = c div 8 \<and> i mod 8 = c mod (8::nat)"
  by (metis div_mult_mod_eq)

lemma byte_index: "c < 8 * length bs \<Longrightarrow> c div 8 < length bs"
  by (simp add: less_mult_imp_div_less mult.commute)

lemma abit_update:
  assumes "c < 8 * length bs"
  shows "abit (bs[c div 8 := (bs ! (c div 8)) OR cpuMaskByte (c mod 8)]) i \<longleftrightarrow> i = c \<or> abit bs i" (is ?or)
    and "abit (bs[c div 8 := (bs ! (c div 8)) AND NOT (cpuMaskByte (c mod 8))]) i \<longleftrightarrow> i \<noteq> c \<and> abit bs i" (is ?and)
proof -
  have "?or \<and> ?and"
  proof (cases "i div 8 = c div 8")
    case True
    then show ?thesis
      using byte_index [OF assms] cpu_index_eq [of i c] by (simp add: abit_def bit_set_byte)
  next
    case False
    then show ?thesis by (auto simp: abit_def)
  qed
  then show ?or ?and by simp_all
qed

lemma update_masks_exact:
  assumes "in_arrays cpus cur" and "length ban = length cur"
  shows "\<exists>cur' ban'. update_masks on cpus cur ban = Reply (cur', ban') \<and>
     length cur' = length cur \<and> length ban' = length cur \<and>
     (\<forall>i. abit cur' i = (if int i \<in> set cpus then on else abit cur i)) \<and>
     (\<forall>i. abit ban' i = (if int i \<in> set cpus then \<not> on else abit ban i))"
  using assms
proof (induction cpus arbitrary: cur ban)
  case Nil
  then show ?case by simp
next
  case (Cons c cpus)
  let ?j = "nat c div 8" and ?m = "cpuMaskByte (nat c mod 8)"
  have c: "0 \<le> c" "nat c < 8 * length cur" "nat c < 8 * length ban"
    using Cons.prems by (simp_all add: in_arrays_def)
  have j: "?j < length cur" using c(2) by (rule byte_index)
  have eq: "i = nat c \<longleftrightarrow> int i = c" for i using c(1) by auto
  define cur1 where "cur1 = (if on then cur[?j := (cur ! ?j) OR ?m] else cur[?j := (cur ! ?j) AND NOT ?m])"
  define ban1 where "ban1 = (if on then ban[?j := (ban ! ?j) AND NOT ?m] else ban[?j := (ban ! ?j) OR ?m])"
  have s: "update_masks on (c # cpus) cur ban = update_masks on cpus cur1 ban1"
    using j c(1) Cons.prems(2) by (simp add: Let_def cur1_def ban1_def)
  have b: "abit cur1 i = (if int i = c then on else abit cur i)" "abit ban1 i = (if int i = c then \<not> on else abit ban i)" for i
    using abit_update [OF c(2), of i] abit_update [OF c(3), of i] by (simp_all add: eq cur1_def ban1_def)
  have l: "length cur1 = length cur" "length ban1 = length cur"
    using Cons.prems(2) by (simp_all add: cur1_def ban1_def)
  then have "in_arrays cpus cur1" "length ban1 = length cur1"
    using Cons.prems(1) by (simp_all add: in_arrays_def)
  from Cons.IH [OF this] obtain cur' ban' where r: "update_masks on cpus cur1 ban1 = Reply (cur', ban')"
    "length cur' = length cur1" "length ban' = length cur1"
    "\<And>i. abit cur' i = (if int i \<in> set cpus then on else abit cur1 i)"
    "\<And>i. abit ban' i = (if int i \<in> set cpus then \<not> on else abit ban1 i)"
    by blast
  show ?case
    unfolding s by (intro exI [of _ cur'] exI [of _ ban'] conjI allI) (simp_all add: r l b)
qed

lemma update_masks_crash:
  assumes "\<not> in_arrays cpus cur" and "length ban = length cur"
  shows "update_masks on cpus cur ban = Crash"
  using assms
proof (induction cpus arbitrary: cur ban)
  case Nil
  then show ?case by (simp add: in_arrays_def)
next
  case (Cons c cpus)
  show ?case
  proof (cases "0 \<le> c \<and> nat c < 8 * length cur")
    case True
    then have "\<not> in_arrays cpus cur" using Cons.prems by (simp add: in_arrays_def)
    then show ?thesis
      using Cons.IH Cons.prems(2) by (cases on) (simp_all add: Let_def in_arrays_def)
  next
    case False
    then have "c < 0 \<or> length cur \<le> nat c div 8"
      by (auto simp: div_less_iff_less_mult not_less mult.commute less_eq_div_iff_mult_less_eq)
    then show ?thesis by (auto simp: Let_def)
  qed
qed

lemma comma_tail_value:
  "8 dvd length s \<Longrightarrow> hex_value acc (comma_tail s) = hex_value acc s"
proof (induction s arbitrary: acc rule: comma_tail.induct)
  case (1 s)
  show ?case
  proof (cases "length s < 8")
    case True
    then have "s = []" using 1(2) by (auto dest: dvd_imp_le)
    then show ?thesis by (simp add: comma_tail.simps)
  next
    case False
    then have "8 dvd length (drop 8 s)" using 1(2) by simp
    then have "hex_value (hex_value acc (take 8 s)) (comma_tail (drop 8 s)) = hex_value acc (take 8 s @ drop 8 s)"
      using 1(1) [OF False] by (simp only: hex_value_append)
    then show ?thesis
      using False by (subst comma_tail.simps) (simp add: hex_value_append)
  qed
qed

lemma with_commas_value:
  assumes "8 dvd length s" and "s \<noteq> []"
  shows "\<exists>t. with_commas s = Reply t \<and> mask_value t = hex_value 0 s"
proof -
  have "8 \<le> length s" using assms by (auto dest: dvd_imp_le)
  moreover have "hex_value 0 (take 8 s @ comma_tail (drop 8 s)) = hex_value 0 (take 8 s @ drop 8 s)"
    using assms(1) \<open>8 \<le> length s\<close> by (simp only: hex_value_append) (simp add: comma_tail_value)
  ultimately show ?thesis by (simp add: with_commas_def mask_value_def)
qed

lemma mapByteToHexChar_length: "8 dvd length (mapByteToHexChar bs) \<and> (mapByteToHexChar bs = [] \<longleftrightarrow> bs = [])"
proof -
  have e: "length (hex_encode cs) = 2 * length cs" for cs
    by (induction cs) (simp_all add: hex_encode_def hex_byte_def)
  define b where "b = (if length bs mod 4 \<noteq> 0 then bs @ replicate (4 - length bs mod 4) 0 else bs)"
  have "length b mod 4 = 0" unfolding b_def by (auto simp: mod_simps) presburger
  then obtain k where "length b = 4 * k" by auto
  then have "8 dvd 2 * length b" by simp
  moreover have "b = [] \<longleftrightarrow> bs = []" by (auto simp: b_def)
  moreover have "mapByteToHexChar bs = hex_encode (rev b)"
    by (simp add: mapByteToHexChar_def b_def Let_def)
  ultimately show ?thesis using e [of "rev b"] by (metis length_0_conv length_rev mult_eq_0_iff zero_neq_numeral)
qed

lemma invert_byte: "(0xff :: 8 word) - b = NOT b"
proof -
  have "(0xff :: 8 word) = - 1" by simp
  then show ?thesis by (simp only: not_eq_complement) simp
qed

lemma abit_invert: "i < 8 * length bs \<Longrightarrow> abit (invertByteArray bs) i \<longleftrightarrow> \<not> abit bs i"
  using byte_index [of i bs] by (simp add: abit_def invertByteArray_def invert_byte bit_not_iff)

lemma bit_bytes_abit: "bit (bytes_val bs) i \<longleftrightarrow> i < 8 * length bs \<and> abit bs i"
proof -
  have "i div 8 < length bs \<longleftrightarrow> i < 8 * length bs" by (simp add: div_less_iff_less_mult mult.commute)
  then show ?thesis by (simp add: bit_bytes_val abit_def)
qed

lemma hex_mask_ascii: "hex_mask s \<Longrightarrow> isASCII s"
proof -
  have "(of_char c :: nat) \<le> 127" if "c = CHR '','' \<or> hex_nibble c \<noteq> None" for c
    using that by (auto simp: hex_nibble_def Let_def split: if_splits)
  then show "hex_mask s \<Longrightarrow> isASCII s" by (auto simp: hex_mask_def isASCII_def list_all_iff)
qed

text \<open>The byte arrays an update starts from.\<close>

lemma mask_arrays:
  assumes "hex_mask s" and "0 < mask_cpus s"
  shows "\<exists>bs. mapHexCharToByte (filter (\<lambda>c. c \<noteq> CHR '','') s) = Some bs \<and> bs \<noteq> [] \<and>
    8 * length bs = mask_cpus s \<and> bytes_val bs = mask_value s"
proof -
  let ?h = "filter (\<lambda>c. c \<noteq> CHR '','') s"
  have "list_all (\<lambda>c. hex_nibble c \<noteq> None) ?h"
    using assms(1) by (auto simp: hex_mask_def list_all_iff)
  then obtain bs where bs: "mapHexCharToByte ?h = Some bs"
    using mapHexCharToByte_total by blast
  then show ?thesis
    using mapHexCharToByte_value [OF bs] assms(2) by (auto simp: mask_cpus_def mask_value_def)
qed

lemma hex_mask_append [simp]: "hex_mask (s @ t) \<longleftrightarrow> hex_mask s \<and> hex_mask t"
  by (simp add: hex_mask_def)

lemma hex_encode_nibbles: "list_all (\<lambda>c. hex_nibble c \<noteq> None) (hex_encode bs)"
proof (induction bs)
  case (Cons b bs)
  have "unat b < 256" by (rule byte_lt)
  with Cons show ?case by (simp add: hex_encode_def hex_byte_def hex_nibble_digit)
qed (simp add: hex_encode_def)

lemma hex_mask_take: "hex_mask s \<Longrightarrow> hex_mask (take k s) \<and> hex_mask (drop k s)"
  by (metis append_take_drop_id hex_mask_append)

lemma hex_mask_comma_tail: "hex_mask s \<Longrightarrow> hex_mask (comma_tail s)"
proof (induction s rule: comma_tail.induct)
  case (1 s)
  then show ?case
    using hex_mask_take [of s 8] by (subst comma_tail.simps) (simp add: hex_mask_def)
qed

lemma printed_mask:
  assumes "bs \<noteq> []"
  shows "\<exists>t. with_commas (mapByteToHexChar bs) = Reply t \<and> mask_value t = bytes_val bs \<and> hex_mask t \<and> 0 < mask_cpus t"
proof -
  let ?s = "mapByteToHexChar bs"
  obtain t where t: "with_commas ?s = Reply t" "mask_value t = bytes_val bs"
    using with_commas_value [of ?s] mapByteToHexChar_length [of bs] assms by (auto simp: mapByteToHexChar_value)
  have n: "list_all (\<lambda>c. hex_nibble c \<noteq> None) ?s"
    unfolding mapByteToHexChar_def Let_def by (rule hex_encode_nibbles)
  then have h: "hex_mask ?s" by (auto simp: hex_mask_def list_all_iff)
  have e: "t = take 8 ?s @ comma_tail (drop 8 ?s)" "8 \<le> length ?s"
    using t(1) by (auto simp: with_commas_def split: if_splits)
  have "\<forall>c\<in>set (take 8 ?s). c \<noteq> CHR '',''"
    using n by (auto simp: list_all_iff dest!: in_set_takeD)
  then have "filter (\<lambda>c. c \<noteq> CHR '','') (take 8 ?s) = take 8 ?s"
    by (rule filter_True)
  then have "length (filter (\<lambda>c. c \<noteq> CHR '','') t) \<ge> 8"
    unfolding e(1) filter_append length_append using e(2) by simp
  then have "0 < mask_cpus t" by (simp add: mask_cpus_def)
  moreover have "hex_mask t"
    unfolding e(1) hex_mask_append using hex_mask_take [OF h, of 8] hex_mask_comma_tail by blast
  ultimately show ?thesis using t by blast
qed

section \<open>The masks after an update\<close>

text \<open>Updating the interrupt mask for the CPUs of a container sets or clears exactly their
  bits and keeps every other one, the banned mask is its complement on the CPUs the mask
  has, and both are zero beyond them.\<close>

lemma irq_mask_exact:
  assumes "cpu_Parse cpus = Reply s" and "hex_mask current" and "0 < mask_cpus current"
    and "\<forall>c\<in>s. c < int (mask_cpus current)"
  shows "\<exists>m b. UpdateIRQSmpAffinityMask cpus current on = Reply (m, b) \<and> hex_mask m \<and> hex_mask b \<and> 0 < mask_cpus m \<and>
    (\<forall>i. bit (mask_value m) i \<longleftrightarrow> (if int i \<in> s then on else bit (mask_value current) i)) \<and>
    (\<forall>i. bit (mask_value b) i \<longleftrightarrow> i < mask_cpus current \<and> \<not> bit (mask_value m) i)"
proof -
  obtain bs where bs: "mapHexCharToByte (filter (\<lambda>c. c \<noteq> CHR '','') current) = Some bs" "bs \<noteq> []"
    "8 * length bs = mask_cpus current" "bytes_val bs = mask_value current"
    using mask_arrays [OF assms(2,3)] by blast
  have l: "set (cpu_List s) = s"
    using cpu_Parse_finite [OF assms(1)] by (simp add: cpu_List_def)
  have i: "in_arrays (cpu_List s) bs"
    unfolding in_arrays_def list_all_iff l bs(3)
    using assms(4) cpu_Parse_nonneg [OF assms(1)] by (simp add: nat_less_iff)
  obtain cur ban where u: "update_masks on (cpu_List s) bs (invertByteArray bs) = Reply (cur, ban)"
    "length cur = length bs" "length ban = length bs"
    "\<And>i. abit cur i = (if int i \<in> s then on else abit bs i)"
    "\<And>i. abit ban i = (if int i \<in> s then \<not> on else abit (invertByteArray bs) i)"
    using update_masks_exact [OF i, of "invertByteArray bs" on] unfolding l
    by (auto simp: invertByteArray_def)
  have ne: "cur \<noteq> []" "ban \<noteq> []" using bs(2) u(2,3) by auto
  obtain m b where mb: "with_commas (mapByteToHexChar cur) = Reply m" "mask_value m = bytes_val cur"
    "with_commas (mapByteToHexChar ban) = Reply b" "mask_value b = bytes_val ban"
    "hex_mask m" "hex_mask b" "0 < mask_cpus m"
    using printed_mask [OF ne(1)] printed_mask [OF ne(2)] by blast
  have up: "UpdateIRQSmpAffinityMask cpus current on = Reply (m, b)"
    by (simp add: UpdateIRQSmpAffinityMask_def assms(1) hex_mask_ascii [OF assms(2)] bs(1) u(1) mb(1,3))
  have in_s: "i < mask_cpus current" if "int i \<in> s" for i using assms(4) that by fastforce
  have "bit (mask_value m) i \<longleftrightarrow> (if int i \<in> s then on else bit (mask_value current) i)" for i
    unfolding mb(2) bs(4) [symmetric] bit_bytes_abit u(2,4) bs(3) using in_s by simp
  moreover have "bit (mask_value b) i \<longleftrightarrow> i < mask_cpus current \<and> \<not> bit (mask_value m) i" for i
    unfolding mb(2,4) bit_bytes_abit u(2,3,4,5) bs(3) using abit_invert [of i bs] bs(3) by auto
  ultimately show ?thesis using up mb(5-7) by blast
qed

text \<open>A CPU the mask has no bit for makes the update panic, and so does an empty mask.\<close>

lemma irq_mask_too_short:
  assumes "cpu_Parse cpus = Reply s" and "hex_mask current" and "0 < mask_cpus current"
    and "c \<in> s" and "int (mask_cpus current) \<le> c"
  shows "UpdateIRQSmpAffinityMask cpus current on = Crash"
proof -
  obtain bs where bs: "mapHexCharToByte (filter (\<lambda>c. c \<noteq> CHR '','') current) = Some bs" "8 * length bs = mask_cpus current"
    using mask_arrays [OF assms(2,3)] by blast
  have "c \<in> set (cpu_List s)"
    using cpu_Parse_finite [OF assms(1)] assms(4) by (simp add: cpu_List_def)
  then have "\<not> in_arrays (cpu_List s) bs"
    using assms(5) bs(2) by (force simp: in_arrays_def list_all_iff)
  then have "update_masks on (cpu_List s) bs (invertByteArray bs) = Crash"
    by (rule update_masks_crash) (simp add: invertByteArray_def)
  then show ?thesis
    by (simp add: UpdateIRQSmpAffinityMask_def assms(1) hex_mask_ascii [OF assms(2)] bs(1))
qed

lemma irq_mask_empty: "UpdateIRQSmpAffinityMask '''' '''' on = Crash"
  by (simp add: UpdateIRQSmpAffinityMask_def cpu_Parse_def isASCII_def mapHexCharToByte_def invertByteArray_def
      cpu_List_def with_commas_def mapByteToHexChar_def hex_encode_def)

text \<open>The test for a mask that was not touched since the boot accepts every byte whose bits
  are set from the bottom without a gap, and so a mask without any CPU.\<close>

lemma isAllBitSet_zero: "isAllBitSet (replicate n 0)"
  by (simp add: isAllBitSet_def list_all_iff)

section \<open>Laws of the configuration file\<close>

text \<open>Values that fit on the line: no quote, no equals sign, no line break.\<close>

definition plain_value :: "string \<Rightarrow> bool" where
  "plain_value v = (quote \<notin> set v \<and> CHR ''='' \<notin> set v \<and> newline \<notin> set v)"

definition banned_lines :: "string \<Rightarrow> string list" where
  "banned_lines input = filter (\<lambda>l. has_prefix l banned_key) (split_on newline input)"

definition other_lines :: "string \<Rightarrow> string list" where
  "other_lines input = filter (\<lambda>l. \<not> has_prefix l banned_key) (split_on newline input)"

lemma banned_line_prefix [simp]: "has_prefix (banned_line v) banned_key"
  by (simp add: banned_line_def)

lemma banned_line_newline: "plain_value v \<Longrightarrow> newline \<notin> set (banned_line v)"
  by (simp add: banned_line_def banned_key_def irqBalanceBannedCpus_def plain_value_def)

lemma banned_key_empty [simp]: "\<not> has_prefix '''' banned_key"
  by (simp add: has_prefix_def banned_key_def)

text \<open>The lines of the new file.\<close>

lemma set_banned_lines:
  assumes "plain_value v"
  shows "split_on newline (set_banned v input) =
    (let ls = map (\<lambda>l. if has_prefix l banned_key then banned_line v else l) (split_on newline input)
     in if banned_lines input = [] then ls @ [banned_line v, ''''] else ls)"
proof -
  let ?ls = "map (\<lambda>l. if has_prefix l banned_key then banned_line v else l) (split_on newline input)"
  let ?o = "join_with [newline] ?ls"
  have "split_on newline ?o = ?ls"
    using banned_line_newline [OF assms] split_on_pieces by (intro split_join) (auto split: if_splits)
  moreover have "split_on newline (?o @ newline # banned_line v @ [newline]) = split_on newline ?o @ [banned_line v, '''']"
    using split_on_append_sep [OF banned_line_newline [OF assms], of "[]"] by (simp add: split_on_append)
  moreover have "list_ex (\<lambda>l. has_prefix l banned_key) (split_on newline input) \<longleftrightarrow> banned_lines input \<noteq> []"
    by (auto simp: banned_lines_def list_ex_iff filter_empty_conv)
  ultimately show ?thesis by (simp add: set_banned_def Let_def)
qed

lemma filter_banned:
  "filter (\<lambda>l. has_prefix l banned_key) (map (\<lambda>l. if has_prefix l banned_key then banned_line v else l) ls) =
     map (\<lambda>_. banned_line v) (filter (\<lambda>l. has_prefix l banned_key) ls)"
  "filter (\<lambda>l. \<not> has_prefix l banned_key) (map (\<lambda>l. if has_prefix l banned_key then banned_line v else l) ls) =
     filter (\<lambda>l. \<not> has_prefix l banned_key) ls"
  by (induction ls) simp_all

lemma set_banned_banned:
  assumes "plain_value v"
  shows "banned_lines (set_banned v input) = replicate (max 1 (length (banned_lines input))) (banned_line v)"
proof -
  have "banned_lines (set_banned v input) =
      (if banned_lines input = [] then [banned_line v] else map (\<lambda>_. banned_line v) (banned_lines input))"
    unfolding banned_lines_def [of "set_banned v input"] set_banned_lines [OF assms]
    by (simp add: Let_def filter_banned) (auto simp: banned_lines_def)
  then show ?thesis by (cases "banned_lines input") (simp_all add: map_replicate_const)
qed

lemma set_banned_others:
  assumes "plain_value v"
  shows "other_lines (set_banned v input) = other_lines input @ (if banned_lines input = [] then [''''] else [])"
  unfolding other_lines_def set_banned_lines [OF assms] by (simp add: Let_def filter_banned)

lemma banned_line_value:
  assumes "plain_value v"
  shows "trim_by (\<lambda>c. c = quote) (split_on (CHR ''='') (banned_line v) ! 1) = v"
proof -
  have k: "CHR ''='' \<notin> set irqBalanceBannedCpus" by (simp add: irqBalanceBannedCpus_def)
  let ?q = "quote # v @ [quote]"
  have q: "CHR ''='' \<notin> set ?q" using assms by (simp add: plain_value_def)
  have "split_on (CHR ''='') (irqBalanceBannedCpus @ CHR ''='' # ?q) = [irqBalanceBannedCpus, ?q]"
    by (simp only: split_on_append_sep [OF k] split_on_no_sep [OF q])
  then have s: "split_on (CHR ''='') (banned_line v) ! 1 = ?q"
    by (simp add: banned_line_def banned_key_def)
  show ?thesis
  proof (cases v rule: rev_cases)
    case Nil
    then show ?thesis unfolding s by (simp add: trim_by_def)
  next
    case (snoc u c)
    then have c: "quote \<notin> set u" "c \<noteq> quote" using assms by (auto simp: plain_value_def)
    then have "dropWhile (\<lambda>x. x = quote) (u @ [c, quote]) = u @ [c, quote]" by (cases u) auto
    then show ?thesis unfolding s using c(2) snoc by (simp add: trim_by_def)
  qed
qed

text \<open>Writing a mask to the configuration and reading it back.\<close>

lemma get_set_banned:
  assumes "plain_value v"
  shows "get_banned (set_banned v input) = v"
proof -
  obtain n where "banned_lines (set_banned v input) = banned_line v # replicate n (banned_line v)"
    using set_banned_banned [OF assms, of input] by (cases "max 1 (length (banned_lines input))") auto
  then show ?thesis
    using banned_line_value [OF assms] by (simp add: get_banned_def banned_lines_def)
qed

lemma plain_mask:
  assumes "hex_mask s"
  shows "plain_value s"
proof -
  have n: "c \<notin> set s" if "hex_nibble c = None" "c \<noteq> CHR '',''" for c
    using that assms unfolding hex_mask_def list_all_iff by blast
  have "hex_nibble quote = None" "hex_nibble (CHR ''='') = None" "hex_nibble newline = None"
    by (simp_all add: hex_nibble_def)
  from this [THEN n] show ?thesis by (simp add: plain_value_def)
qed

text \<open>Writing a mask to the configuration file and reading it back, on the host.\<close>

lemma updateIrqBalanceConfigFile_ok:
  assumes "updateIrqBalanceConfigFile f v h = (h', None)" and "plain_value v"
  shows "retrieveIrqBannedCPUMasks f h' = Inr v" and "same_rights h h'"
    and "\<And>p. p \<noteq> f \<Longrightarrow> file_of h' p = file_of h p"
proof -
  obtain input where i: "os_ReadFile f h = Inr input" "os_WriteFile f (set_banned v input) h = (h', None)"
    using assms(1) by (auto simp: updateIrqBalanceConfigFile_def split: sum.splits)
  note w = os_WriteFile_ok [OF i(2)]
  have "os_ReadFile f h' = Inr (set_banned v input)"
    using i(1) w by (simp add: os_ReadFile_ok_iff same_rights_def)
  then show "retrieveIrqBannedCPUMasks f h' = Inr v"
    using get_set_banned [OF assms(2)] by (simp add: retrieveIrqBannedCPUMasks_def)
  show "same_rights h h'" by (rule w(2))
  show "\<And>p. p \<noteq> f \<Longrightarrow> file_of h' p = file_of h p" using w(1) by simp
qed

end
