(* ===== verification/Cpu_Hooks.thy ===== *)
theory Cpu_Hooks
  imports Irq_Affinity Cgroups Sandbox_State Annotations
begin

text \<open>
  The hooks for latency sensitive containers (\<^verbatim>\<open>internal/runtimehandlerhooks\<close>): which hooks a
  pod gets, and what they do to the host before a container is created and started and
  before and after it is stopped: the interrupt masks, the CPU sets and quotas of the
  control groups, and the power and frequency settings of its CPUs, whose original values
  are saved and put back.

  Files and control groups are those of the theories \<^verbatim>\<open>Host_Files\<close> and \<^verbatim>\<open>Cgroups\<close>. The
  answers of systemd and of the irqbalance binary are parameters.
\<close>

section \<open>Annotations\<close>

definition true_or_disable :: "string \<Rightarrow> str_map \<Rightarrow> bool" where
  "true_or_disable k anns = (get_or '''' anns k = ''true'' \<or> get_or '''' anns k = ''disable'')"

definition shouldCPULoadBalancingBeDisabled :: "str_map \<Rightarrow> bool" where
  "shouldCPULoadBalancingBeDisabled anns = true_or_disable CPULoadBalancingAnnotation anns"

definition shouldCPUQuotaBeDisabled :: "str_map \<Rightarrow> bool" where
  "shouldCPUQuotaBeDisabled anns = true_or_disable CPUQuotaAnnotation anns"

definition shouldIRQLoadBalancingBeDisabled :: "str_map \<Rightarrow> bool" where
  "shouldIRQLoadBalancingBeDisabled anns = true_or_disable IRQLoadBalancingAnnotation anns"

definition shouldCStatesBeConfigured :: "str_map \<Rightarrow> string option" where
  "shouldCStatesBeConfigured anns = anns CPUCStatesAnnotation"

definition shouldFreqGovernorBeConfigured :: "str_map \<Rightarrow> string option" where
  "shouldFreqGovernorBeConfigured anns = anns CPUFreqGovernorAnnotation"

definition requestedSharedCPUs :: "str_map \<Rightarrow> string \<Rightarrow> bool" where
  "requestedSharedCPUs anns cName = (anns (CPUSharedAnnotation @ ''/'' @ cName) = Some ''enable'')"

text \<open>The annotations of a pod object (the pods of the server all have one), the name in the
  metadata of a container and its specification, empty when there is none.\<close>

definition sb_Annotations :: "Sandbox \<Rightarrow> str_map" where
  "sb_Annotations s = (case criSandbox s of None \<Rightarrow> Map.empty | Some p \<Rightarrow> ps_Annotations p)"

definition container_Spec :: "Container \<Rightarrow> Spec" where
  "container_Spec c = (case c_spec c of None \<Rightarrow> \<lparr>sp_Linux = None, sp_Process = None\<rparr> | Some s \<Rightarrow> s)"

definition metadata_name :: "Container \<Rightarrow> string" where
  "metadata_name c = (case Metadata (criContainer c) of None \<Rightarrow> '''' | Some md \<Rightarrow> md_Name md)"

section \<open>Which hooks a pod gets\<close>

datatype hooks = NoHooks | DefaultCPULoadBalanceHooks | HighPerformanceHooks (irqBalanceConfigFile: string) (sharedCPUs: string)

definition highPerformanceAnnotationsSpecified :: "(string \<times> string) list \<Rightarrow> bool" where
  "highPerformanceAnnotationsSpecified anns =
     list_ex (\<lambda>(k, _). has_prefix k CPULoadBalancingAnnotation \<or> has_prefix k CPUQuotaAnnotation \<or>
       has_prefix k IRQLoadBalancingAnnotation \<or> has_prefix k CPUCStatesAnnotation \<or>
       has_prefix k CPUFreqGovernorAnnotation \<or> has_prefix k CPUSharedAnnotation) anns"

text \<open>The allowed annotations of the runtimes and of the workloads. The answer of the first
  call is kept for the life of the process.\<close>

definition cpuLoadBalancingAllowed :: "string list list \<Rightarrow> string list list \<Rightarrow> bool option \<Rightarrow> bool option \<times> bool" where
  "cpuLoadBalancingAllowed runtimes workloads once =
     (let allowed = (case once of Some b \<Rightarrow> b
        | None \<Rightarrow> list_ex (\<lambda>anns. CPULoadBalancingAnnotation \<in> set anns) runtimes \<or>
                 list_ex (\<lambda>anns. CPULoadBalancingAnnotation \<in> set anns) workloads)
      in (Some allowed, allowed))"

definition GetRuntimeHandlerHooks :: "string \<Rightarrow> string \<Rightarrow> string list list \<Rightarrow> string list list \<Rightarrow> string \<Rightarrow> (string \<times> string) list \<Rightarrow>
    bool option \<Rightarrow> bool option \<times> hooks" where
  "GetRuntimeHandlerHooks irqFile shared runtimes workloads handler anns once =
     (if str_contains handler ''high-performance'' then (once, HighPerformanceHooks irqFile shared)
      else if highPerformanceAnnotationsSpecified anns then (once, HighPerformanceHooks irqFile shared)
      else let (once', allowed) = cpuLoadBalancingAllowed runtimes workloads once
           in (once', if allowed then DefaultCPULoadBalanceHooks else NoHooks))"

section \<open>Guards\<close>

text \<open>The CPU part of a specification; a nil pointer on the way is \<open>None\<close>.\<close>

definition spec_cpu :: "Spec \<Rightarrow> spec_CPU option" where
  "spec_cpu sp =
     (case sp_Linux sp of None \<Rightarrow> None
      | Some l \<Rightarrow> (case lin_Resources l of None \<Rightarrow> None | Some r \<Rightarrow> res_CPU r))"

definition isContainerCPUsSpecEmpty :: "Spec \<Rightarrow> bool" where
  "isContainerCPUsSpecEmpty sp = (case spec_cpu sp of None \<Rightarrow> True | Some c \<Rightarrow> cpu_Cpus c = '''')"

definition isContainerRequestWholeCPU :: "Spec \<Rightarrow> bool reply" where
  "isContainerRequestWholeCPU sp =
     (case spec_cpu sp of None \<Rightarrow> Crash
      | Some c \<Rightarrow> (case cpu_Shares c of None \<Rightarrow> Crash | Some n \<Rightarrow> Reply (n mod 1024 = 0)))"

definition shouldRunHooks :: "Spec \<Rightarrow> Sandbox \<Rightarrow> bool reply" where
  "shouldRunHooks sp s =
     (if str_contains (cgroupParent s) ''burstable'' then Reply False
      else if str_contains (cgroupParent s) ''besteffort'' then Reply False
      else isContainerRequestWholeCPU sp)"

definition ShouldCPUQuotaBeDisabled :: "Spec \<Rightarrow> Sandbox \<Rightarrow> str_map \<Rightarrow> bool reply" where
  "ShouldCPUQuotaBeDisabled sp s anns =
     reply_bind (shouldRunHooks sp s) (\<lambda>b. Reply (b \<and> true_or_disable CPUQuotaAnnotation anns))"

section \<open>Power and frequency settings\<close>

text \<open>Saving the value of a file once, and writing a new one.\<close>

definition save_and_write :: "string \<Rightarrow> string \<Rightarrow> string \<Rightarrow> string \<Rightarrow> unit io" where
  "save_and_write file saveDir fileOrig value' =
     io_bind (io_exists fileOrig) (\<lambda>ex.
       io_seq (io_when (\<not> ex)
           (io_bind (io_read file) (\<lambda>orig.
             io_seq (io_step (os_MkdirAll saveDir)) (io_step (os_WriteFile fileOrig orig)))))
         (io_step (os_WriteFile file value')))"

text \<open>Putting the saved value back; \<open>False\<close> when there is none.\<close>

definition restore_saved :: "string \<Rightarrow> string \<Rightarrow> bool io" where
  "restore_saved file fileOrig h =
     (case os_ReadFile fileOrig h of
        Inl FileNotExist \<Rightarrow> (h, Reply False)
      | Inl FileFailed \<Rightarrow> (h, Fail (file_error_text FileFailed))
      | Inr orig \<Rightarrow> io_seq (io_step (os_WriteFile file orig)) (io_seq (io_step (os_Remove fileOrig)) (io_return True)) h)"

text \<open>The loop over the CPUs, which a body that answers \<open>False\<close> leaves without an error.\<close>

fun each_cpu :: "(int \<Rightarrow> bool io) \<Rightarrow> int list \<Rightarrow> unit io" where
  "each_cpu f [] = io_return ()"
| "each_cpu f (c # cs) = io_bind (f c) (\<lambda>b. if b then each_cpu f cs else io_return ())"

definition cpu_dir :: "string \<Rightarrow> int \<Rightarrow> string \<Rightarrow> string" where
  "cpu_dir base cpu sub = base @ ''/cpu'' @ itoa cpu @ ''/'' @ sub"

definition spec_cpus :: "Spec \<Rightarrow> CPUSet reply" where
  "spec_cpus sp =
     (case spec_cpu sp of None \<Rightarrow> Fail ''find container CPUs''
      | Some c \<Rightarrow> if cpu_Cpus c = '''' then Fail ''find container CPUs'' else cpu_Parse (cpu_Cpus c))"

definition doSetCPUPMQOSResumeLatency :: "Spec \<Rightarrow> string \<Rightarrow> string \<Rightarrow> string \<Rightarrow> unit io" where
  "doSetCPUPMQOSResumeLatency sp latency cpuDir cpuSaveDir =
     io_bind (io_reply (spec_cpus sp)) (\<lambda>cpus. each_cpu (\<lambda>cpu.
       let latencyFile = cpu_dir cpuDir cpu ''power/pm_qos_resume_latency_us'';
           cpuPowerSaveDir = cpu_dir cpuSaveDir cpu ''power'';
           latencyFileOrig = filepath_Join [cpuPowerSaveDir, ''pm_qos_resume_latency_us'']
       in if latency \<noteq> '''' then io_seq (save_and_write latencyFile cpuPowerSaveDir latencyFileOrig latency) (io_return True)
          else restore_saved latencyFile latencyFileOrig) (cpu_List cpus))"

definition isCPUGovernorSupported :: "string \<Rightarrow> string \<Rightarrow> int \<Rightarrow> unit io" where
  "isCPUGovernorSupported governor cpuDir cpu =
     io_bind (io_read (cpu_dir cpuDir cpu ''cpufreq/scaling_available_governors'')) (\<lambda>avail.
       if governor \<in> set (str_fields avail) then io_return () else io_fail ''governor not available'')"

definition doSetCPUFreqGovernor :: "Spec \<Rightarrow> string \<Rightarrow> string \<Rightarrow> string \<Rightarrow> unit io" where
  "doSetCPUFreqGovernor sp governor cpuDir cpuSaveDir =
     io_bind (io_reply (spec_cpus sp)) (\<lambda>cpus. each_cpu (\<lambda>cpu.
       let governorFile = cpu_dir cpuDir cpu ''cpufreq/scaling_governor'';
           cpuFreqSaveDir = cpu_dir cpuSaveDir cpu ''cpufreq'';
           governorFileOrig = filepath_Join [cpuFreqSaveDir, ''scaling_governor'']
       in if governor \<noteq> ''''
          then io_seq (isCPUGovernorSupported governor cpuDir cpu)
                 (io_seq (save_and_write governorFile cpuFreqSaveDir governorFileOrig governor) (io_return True))
          else restore_saved governorFile governorFileOrig) (cpu_List cpus))"

definition sysCPUDir :: string where
  "sysCPUDir = ''/sys/devices/system/cpu''"

definition sysCPUSaveDir :: string where
  "sysCPUSaveDir = ''/var/run/crio/cpu''"

definition setCPUPMQOSResumeLatency :: "Spec \<Rightarrow> string \<Rightarrow> unit io" where
  "setCPUPMQOSResumeLatency sp latency = doSetCPUPMQOSResumeLatency sp latency sysCPUDir sysCPUSaveDir"

definition setCPUFreqGovernor :: "Spec \<Rightarrow> string \<Rightarrow> unit io" where
  "setCPUFreqGovernor sp governor = doSetCPUFreqGovernor sp governor sysCPUDir sysCPUSaveDir"

definition convertAnnotationToLatency :: "string \<Rightarrow> string + string" where
  "convertAnnotationToLatency annotation =
     (if annotation = ''enable'' then Inr ''0''
      else if annotation = ''disable'' then Inr ''n/a''
      else if has_prefix annotation ''max_latency:'' then
        (case atoi (trim_prefix annotation ''max_latency:'') of
           None \<Rightarrow> Inl ''invalid syntax''
         | Some latency \<Rightarrow> if latency > 0 then Inr (itoa latency) else Inl ''invalid annotation value'')
      else Inl ''invalid annotation value'')"

section \<open>Interrupts\<close>

text \<open>What the host answers: the control groups, the set of online CPUs an earlier call kept,
  the output of \<^verbatim>\<open>systemctl is-enabled\<close>, whether the binary is found, and the error of running it.\<close>

record hook_env =
  he_cg :: cg_env
  he_online :: "CPUSet reply option"
  he_isEnabled :: "string + string"
  he_lookPath :: bool
  he_oneshot :: "string option"

definition isServiceEnabled :: "hook_env \<Rightarrow> bool" where
  "isServiceEnabled he = (case he_isEnabled he of Inl e \<Rightarrow> False | Inr out \<Rightarrow> trim_space out = ''enabled'')"

definition run_command :: "command \<Rightarrow> string option \<Rightarrow> unit io" where
  "run_command cmd err h = (h\<lparr>hf_runs := hf_runs h @ [cmd]\<rparr>, case err of None \<Rightarrow> Reply () | Some e \<Rightarrow> Fail e)"

text \<open>A failed restart is only logged.\<close>

definition restartIrqBalanceService :: "unit io" where
  "restartIrqBalanceService = run_command RestartService None"

definition setIRQLoadBalancing :: "hook_env \<Rightarrow> Spec \<Rightarrow> bool \<Rightarrow> string \<Rightarrow> string \<Rightarrow> unit io" where
  "setIRQLoadBalancing he sp enable smpFile configFile =
     (case spec_cpu sp of None \<Rightarrow> io_fail ''find container CPUs''
      | Some cpu \<Rightarrow>
          if cpu_Cpus cpu = '''' then io_fail ''find container CPUs''
          else
            io_bind (io_read smpFile) (\<lambda>content.
            io_bind (io_reply (UpdateIRQSmpAffinityMask (cpu_Cpus cpu) (trim_space content) enable)) (\<lambda>(newSMP, newBalance).
            io_seq (io_step (os_WriteFile smpFile newSMP))
            (io_bind (io_exists configFile) (\<lambda>ex.
            io_seq (io_when ex (io_step (updateIrqBalanceConfigFile configFile newBalance)))
              (if \<not> isServiceEnabled he \<or> \<not> ex
               then (if \<not> he_lookPath he then io_return () else run_command (RunOneshot newBalance) (he_oneshot he))
               else restartIrqBalanceService))))))"

definition RestoreIrqBalanceConfig :: "hook_env \<Rightarrow> string \<Rightarrow> string \<Rightarrow> string \<Rightarrow> unit io" where
  "RestoreIrqBalanceConfig he configFile bannedFile smpFile =
     io_bind (io_read smpFile) (\<lambda>content.
       case mapHexCharToByte (filter (\<lambda>c. c \<noteq> CHR '','') (trim_space content)) of
         None \<Rightarrow> io_fail ''invalid hexadecimal mask''
       | Some currentMaskArray \<Rightarrow>
           if \<not> isAllBitSet currentMaskArray then io_return ()
           else (\<lambda>h. case retrieveIrqBannedCPUMasks configFile h of
                   Inl e \<Rightarrow> (h, Reply ())
                 | Inr banned \<Rightarrow>
                     io_bind (io_exists bannedFile) (\<lambda>ex.
                       if \<not> ex then io_step (os_WriteFile bannedFile banned)
                       else io_bind (io_read bannedFile) (\<lambda>c.
                         let orig = trim_space c
                         in if banned = orig then io_return ()
                            else io_seq (io_step (updateIrqBalanceConfigFile configFile orig))
                                   (io_when (isServiceEnabled he) (restartIrqBalanceService)))) h))"

section \<open>CPU sets of the control groups\<close>

definition mgr_path :: "hook_env \<Rightarrow> manager \<Rightarrow> string" where
  "mgr_path he m = ce_path (he_cg he) m ''''"

definition set_cpus :: "hook_env \<Rightarrow> manager \<Rightarrow> string \<Rightarrow> unit io" where
  "set_cpus he m cpus = ce_Set (he_cg he) m (no_resources\<lparr>cr_CpusetCpus := cpus\<rparr>)"

definition set_quota :: "hook_env \<Rightarrow> manager \<Rightarrow> int \<Rightarrow> unit io" where
  "set_quota he m quota = ce_Set (he_cg he) m (no_resources\<lparr>cr_CpuQuota := quota\<rparr>)"

definition cpusetCpusExclusive :: string where
  "cpusetCpusExclusive = ''cpuset.cpus.exclusive''"

definition addOrRemoveCpusetFromManager :: "hook_env \<Rightarrow> manager \<Rightarrow> CPUSet \<Rightarrow> bool \<Rightarrow> string \<Rightarrow> unit io" where
  "addOrRemoveCpusetFromManager he mgr cpus add file =
     io_bind (cg_read (mgr_path he mgr) file) (\<lambda>str.
     io_bind (io_reply (cpu_Parse (trim_space str))) (\<lambda>currentCpus.
       let targetCpus = (if add then cpu_Union currentCpus cpus else cpu_Difference currentCpus cpus)
       in if targetCpus = currentCpus then io_return ()
          else if file = cpusetCpusExclusive
          then (let toWrite = cpu_String targetCpus
                in cg_write (mgr_path he mgr) file (if toWrite = '''' then [newline] else toWrite))
          else set_cpus he mgr (cpu_String targetCpus)))"

record desiredManagerCPUSetState =
  ds_manager :: manager
  ds_exclusiveCPUs :: CPUSet
  ds_cpus :: CPUSet

definition update_state :: "hook_env \<Rightarrow> bool \<Rightarrow> desiredManagerCPUSetState \<Rightarrow> unit io" where
  "update_state he add st =
     io_seq (io_when add (addOrRemoveCpusetFromManager he (ds_manager st) (ds_cpus st) add ''cpuset.cpus''))
     (io_seq (addOrRemoveCpusetFromManager he (ds_manager st) (ds_exclusiveCPUs st) add cpusetCpusExclusive)
       (io_when (\<not> add \<and> ds_exclusiveCPUs st = ds_cpus st)
         (addOrRemoveCpusetFromManager he (ds_manager st) (ds_cpus st) add ''cpuset.cpus'')))"

fun update_states :: "hook_env \<Rightarrow> bool \<Rightarrow> desiredManagerCPUSetState list \<Rightarrow> unit io" where
  "update_states he add [] = io_return ()"
| "update_states he add (st # sts) = io_seq (update_state he add st) (update_states he add sts)"

text \<open>The slice of the caller is reversed in place when CPUs are removed, so that it comes back
  reversed.\<close>

definition addOrRemoveCpusetFromManagers :: "hook_env \<Rightarrow> desiredManagerCPUSetState list \<Rightarrow> bool \<Rightarrow>
    host \<Rightarrow> desiredManagerCPUSetState list \<times> host \<times> unit reply" where
  "addOrRemoveCpusetFromManagers he states add h =
     (let states' = (if add then states else rev states) in (states', update_states he add states' h))"

definition fullCPUSet :: "hook_env \<Rightarrow> CPUSet io" where
  "fullCPUSet he =
     (case he_online he of
        Some r \<Rightarrow> io_reply r
      | None \<Rightarrow> io_bind (io_read ''/sys/devices/system/cpu/online'') (\<lambda>c. io_reply (cpu_Parse (trim_space c))))"

text \<open>The managers of the directories above the container, from the top.\<close>

fun parent_managers :: "hook_env \<Rightarrow> bool \<Rightarrow> string \<Rightarrow> string list \<Rightarrow> string + manager list" where
  "parent_managers he systemd parent [] = Inr []"
| "parent_managers he systemd parent (dir # dirs) =
     (if dir = '''' then parent_managers he systemd parent dirs
      else case libctrManager (he_cg he) dir parent systemd of
             Inl e \<Rightarrow> Inl e
           | Inr mgr \<Rightarrow>
               (case parent_managers he systemd (filepath_Join [parent, dir]) dirs of
                  Inl e \<Rightarrow> Inl e | Inr ms \<Rightarrow> Inr (mgr # ms)))"

definition getManagerByIndex :: "int \<Rightarrow> manager list \<Rightarrow> string + manager" where
  "getManagerByIndex i ms =
     (if length ms = 0 then Inl ''no cgroup manager were found''
      else if int (length ms) - 1 < i \<or> i < 0 then Inl ''invalid index''
      else Inr (ms ! nat i))"

text \<open>The states the groups shall get: the parents share all CPUs, the groups of the container
  have its own and the shared ones, and the child made for shared CPUs, the last one, only
  the exclusive ones.\<close>

definition desired_states :: "hook_env \<Rightarrow> string \<Rightarrow> CPUSet \<Rightarrow> CPUSet \<Rightarrow> manager list \<Rightarrow> manager list \<Rightarrow> bool \<Rightarrow>
    desiredManagerCPUSetState list reply" where
  "desired_states he shared exclusiveCPUs allCPUs parents containerManagers sharedCPUsRequested =
     (let tops = map (\<lambda>m. \<lparr>ds_manager = m, ds_exclusiveCPUs = exclusiveCPUs, ds_cpus = allCPUs\<rparr>) parents;
          own = (\<lambda>cpus. map (\<lambda>m. \<lparr>ds_manager = m, ds_exclusiveCPUs = exclusiveCPUs, ds_cpus = cpus\<rparr>) containerManagers)
      in if sharedCPUsRequested then
           (case getManagerByIndex (int (length containerManagers) - 1) containerManagers of
              Inl e \<Rightarrow> Fail e
            | Inr child \<Rightarrow>
                reply_bind (cpu_Parse shared) (\<lambda>sharedCPUSet.
                  let ms = tops @ own (cpu_Union exclusiveCPUs sharedCPUSet)
                  in Reply (ms[length ms - 1 := \<lparr>ds_manager = child, ds_exclusiveCPUs = exclusiveCPUs, ds_cpus = exclusiveCPUs\<rparr>])))
         else Reply (tops @ own exclusiveCPUs))"

text \<open>The change itself, with the revert of a failure. The error of the revert is only logged.\<close>

definition apply_states :: "hook_env \<Rightarrow> bool \<Rightarrow> desiredManagerCPUSetState list \<Rightarrow> unit io" where
  "apply_states he enable managers h =
     (if managers = [] then (h, Fail ''cgroup hierarchy setup unexpectedly, no cgroups of container found'')
      else
        let (managers', h1, r) = addOrRemoveCpusetFromManagers he managers (\<not> enable) h;
            (h2, r2) = (case r of
               Reply _ \<Rightarrow> if enable then (h1, Reply ())
                          else cg_write (mgr_path he (ds_manager (last managers'))) ''cpuset.cpus.partition'' ''isolated'' h1
             | _ \<Rightarrow> (h1, r))
        in case r2 of
             Fail e \<Rightarrow>
               (case addOrRemoveCpusetFromManagers he managers' enable h2 of
                  (_, h3, Crash) \<Rightarrow> (h3, Crash) | (_, h3, Hang) \<Rightarrow> (h3, Hang) | (_, h3, _) \<Rightarrow> (h3, Fail e))
           | _ \<Rightarrow> (h2, r2))"

definition setCPULoadBalancingV2 :: "hook_env \<Rightarrow> string \<Rightarrow> Spec \<Rightarrow> manager \<Rightarrow> manager list \<Rightarrow> bool \<Rightarrow> bool \<Rightarrow> unit io" where
  "setCPULoadBalancingV2 he shared sp podManager containerManagers enable sharedCPUsRequested =
     (case spec_cpu sp of None \<Rightarrow> io_reply Crash
      | Some cpu \<Rightarrow>
          io_bind (io_reply (cpu_Parse (cpu_Cpus cpu))) (\<lambda>exclusiveCPUs.
            let podManagerPath = mgr_path he podManager;
                systemd = has_suffix podManagerPath ''.slice'';
                directories = split_on (CHR ''/'') (trim_prefix podManagerPath ''/sys/fs/cgroup'')
            in io_bind (fullCPUSet he) (\<lambda>allCPUs.
               io_bind (io_sum (parent_managers he systemd '''' directories)) (\<lambda>parents.
               io_bind (io_reply (desired_states he shared exclusiveCPUs allCPUs parents containerManagers sharedCPUsRequested))
                 (apply_states he enable)))))"

fun write_each :: "hook_env \<Rightarrow> manager list \<Rightarrow> unit io" where
  "write_each he [] = io_return ()"
| "write_each he (m # ms) =
     io_seq (cg_write (ce_path (he_cg he) m ''cpuset'') ''cpuset.sched_load_balance'' ''0'') (write_each he ms)"

definition disableCPULoadBalancingV1 :: "hook_env \<Rightarrow> manager list \<Rightarrow> unit io" where
  "disableCPULoadBalancingV1 he containerManagers = write_each he (rev containerManagers)"

definition setCPULoadBalancing :: "hook_env \<Rightarrow> string \<Rightarrow> Spec \<Rightarrow> manager \<Rightarrow> manager list \<Rightarrow> bool \<Rightarrow> bool \<Rightarrow> unit io" where
  "setCPULoadBalancing he shared sp podManager containerManagers enable sharedCPUsRequested =
     (if ce_v2 (he_cg he) then setCPULoadBalancingV2 he shared sp podManager containerManagers enable sharedCPUsRequested
      else io_when (\<not> enable) (disableCPULoadBalancingV1 he containerManagers))"

section \<open>Quotas and shared CPUs\<close>

fun disable_quotas :: "hook_env \<Rightarrow> manager list \<Rightarrow> unit io" where
  "disable_quotas he [] = io_return ()"
| "disable_quotas he (m # ms) = io_seq (set_quota he m (- 1)) (disable_quotas he ms)"

definition setCPUQuota :: "hook_env \<Rightarrow> manager \<Rightarrow> manager list \<Rightarrow> unit io" where
  "setCPUQuota he podManager containerManagers = disable_quotas he (podManager # containerManagers)"

text \<open>The product of milli-CPUs and period is taken in 64 bits.\<close>

definition calculateMaximalQuota :: "CPUSet \<Rightarrow> int \<Rightarrow> int" where
  "calculateMaximalQuota cpus period = to_int64 ((cpu_Size cpus * 1000 * period) mod 2 ^ 64 div 1000)"

definition getPodQuotaV1 :: "hook_env \<Rightarrow> manager \<Rightarrow> string io" where
  "getPodQuotaV1 he m =
     io_bind (cg_read (ce_path (he_cg he) m ''cpu'') ''cpu.cfs_quota_us'') (\<lambda>q. io_return (trim_suffix q [newline]))"

definition getPodQuotaV2 :: "hook_env \<Rightarrow> manager \<Rightarrow> string io" where
  "getPodQuotaV2 he m =
     io_bind (cg_read (mgr_path he m) ''cpu.max'') (\<lambda>q. io_return (hd (split_on (CHR '' '') (trim_suffix q [newline]))))"

definition calculatePodQuota :: "hook_env \<Rightarrow> CPUSet \<Rightarrow> manager \<Rightarrow> int \<Rightarrow> int io" where
  "calculatePodQuota he shared podManager period =
     io_bind ((if ce_v2 (he_cg he) then getPodQuotaV2 else getPodQuotaV1) he podManager) (\<lambda>existingQuota.
       if existingQuota = ''-1'' \<or> existingQuota = ''max'' then io_return (- 1)
       else case atoi existingQuota of
              None \<Rightarrow> io_fail ''invalid syntax''
            | Some q \<Rightarrow> io_return (to_int64 (q + calculateMaximalQuota shared period)))"

definition setSharedCPUs :: "hook_env \<Rightarrow> string \<Rightarrow> Spec \<Rightarrow> manager list \<Rightarrow> manager list io" where
  "setSharedCPUs he shared sp containerManagers =
     (if isContainerCPUsSpecEmpty sp then io_fail ''no cpus found for container''
      else io_bind (io_reply (spec_cpus sp)) (\<lambda>exclusiveCPUs.
        if shared = '''' then io_fail ''shared CPUs were requested but none are defined''
        else io_bind (io_reply (cpu_Parse shared)) (\<lambda>sharedCPUSet.
          io_bind (io_sum (getManagerByIndex (int (length containerManagers) - 1) containerManagers)) (\<lambda>ctrManager.
          io_seq (set_cpus he ctrManager (cpu_String (cpu_Union exclusiveCPUs sharedCPUSet)))
            (if ce_v2 (he_cg he)
             then (let ctrCgroup = mgr_path he ctrManager
                   in io_seq (cg_write ctrCgroup ''cgroup.subtree_control'' ''+cpu +cpuset'')
                      (io_bind (io_sum (libctrManager (he_cg he) ''cgroup-child'' (trim_prefix ctrCgroup ''/sys/fs/cgroup'') False)) (\<lambda>child.
                       io_seq (ce_Apply (he_cg he) child)
                       (io_seq (set_cpus he child (cpu_String exclusiveCPUs))
                         (io_return (containerManagers @ [child]))))))
             else io_return containerManagers)))))"

definition injectQuotaGivenSharedCPUs :: "hook_env \<Rightarrow> string \<Rightarrow> Spec \<Rightarrow> manager \<Rightarrow> manager list \<Rightarrow> unit io" where
  "injectQuotaGivenSharedCPUs he shared sp podManager containerManagers =
     (case spec_cpu sp of None \<Rightarrow> io_reply Crash
      | Some cpu \<Rightarrow>
          io_bind (io_reply (cpu_Parse (cpu_Cpus cpu))) (\<lambda>isolatedCPUSet.
          io_bind (io_reply (cpu_Parse shared)) (\<lambda>sharedCPUSet.
            if sharedCPUSet = {} then io_fail ''shared CPU set is empty''
            else case cpu_Period cpu of None \<Rightarrow> io_reply Crash
                 | Some period \<Rightarrow>
                     io_bind (calculatePodQuota he sharedCPUSet podManager period) (\<lambda>newPodQuota.
                     io_seq (set_quota he podManager newPodQuota)
                     (let ctrQuota = calculateMaximalQuota (cpu_Union isolatedCPUSet sharedCPUSet) period
                      in io_bind (io_sum (getManagerByIndex (int (length containerManagers) - 1) containerManagers))
                           (\<lambda>m. set_quota he m ctrQuota))))))"

section \<open>The managers of a pod and its container\<close>

definition trueContainerCgroupManager :: "hook_env \<Rightarrow> string \<Rightarrow> manager option io" where
  "trueContainerCgroupManager he expected h =
     (let actual = filepath_Join [expected, ''container''];
          root = ''/sys/fs/cgroup'' @ (if ce_v2 (he_cg he) then '''' else ''/cpuset'')
      in if hf_nodes h (filepath_Join [root, actual]) = None then (h, Reply None)
         else case libctrManager (he_cg he) (filepath_Base actual) (filepath_Dir actual) False of
                Inl e \<Rightarrow> (h, Fail e) | Inr m \<Rightarrow> (h, Reply (Some m)))"

definition libctrManagersForPodAndContainerCgroup :: "hook_env \<Rightarrow> string \<Rightarrow> string \<Rightarrow> (manager \<times> manager list) io" where
  "libctrManagersForPodAndContainerCgroup he cid parentDir =
     (let systemd = has_suffix parentDir ''.slice''
      in case SetCgroupManager (ce_v2 (he_cg he)) (if systemd then ''systemd'' else ''cgroupfs'') of
           Inl e \<Rightarrow> io_reply Crash
         | Inr cm \<Rightarrow>
             io_bind (io_sum (ContainerCgroupAbsolutePath cm parentDir cid)) (\<lambda>full.
             let pod = filepath_Dir full
             in io_bind (io_sum (libctrManager (he_cg he) (filepath_Base pod) (filepath_Dir pod) systemd)) (\<lambda>podManager.
                io_bind (io_sum (libctrManager (he_cg he) (if systemd then cid else filepath_Base full) (filepath_Dir full) systemd)) (\<lambda>containerManager.
                io_bind (trueContainerCgroupManager he full) (\<lambda>extra.
                  io_return (podManager, containerManager # (case extra of None \<Rightarrow> [] | Some m \<Rightarrow> [m])))))))"

section \<open>The hooks\<close>

text \<open>The environment variables a container with shared CPUs gets before it is created.\<close>

definition PreCreate :: "string \<Rightarrow> Spec \<Rightarrow> Sandbox \<Rightarrow> Container \<Rightarrow> string list \<Rightarrow> string list reply" where
  "PreCreate shared sp s c env =
     reply_bind (shouldRunHooks sp s) (\<lambda>run.
       if \<not> run \<or> \<not> requestedSharedCPUs (sb_Annotations s) (metadata_name c) then Reply env
       else if isContainerCPUsSpecEmpty sp then Fail ''no cpus found for container''
       else reply_bind (spec_cpus sp) (\<lambda>exclusiveCPUs.
         if shared = '''' then Fail ''shared CPUs were requested but none are defined''
         else reply_bind (cpu_Parse shared) (\<lambda>sharedCPUSet.
           Reply (env @ [''OPENSHIFT_ISOLATED_CPUS='' @ cpu_String exclusiveCPUs, ''OPENSHIFT_SHARED_CPUS='' @ cpu_String sharedCPUSet]))))"

definition IrqSmpAffinityProcFile :: string where
  "IrqSmpAffinityProcFile = ''/proc/irq/default_smp_affinity''"

definition PreStart :: "hook_env \<Rightarrow> string \<Rightarrow> string \<Rightarrow> Container \<Rightarrow> Sandbox \<Rightarrow> unit io" where
  "PreStart he configFile shared c s =
     (let sp = container_Spec c; anns = sb_Annotations s; wants = requestedSharedCPUs anns (metadata_name c)
      in io_bind (io_reply (shouldRunHooks sp s)) (\<lambda>run.
         if \<not> run then io_return ()
         else
           io_bind (libctrManagersForPodAndContainerCgroup he (ID c) (cgroupParent s)) (\<lambda>(podManager, ms0).
           io_bind (if wants
                    then io_bind (setSharedCPUs he shared sp ms0) (\<lambda>ms.
                           io_seq (injectQuotaGivenSharedCPUs he shared sp podManager ms) (io_return ms))
                    else io_return ms0) (\<lambda>ms.
           io_seq (io_when (shouldCPULoadBalancingBeDisabled anns) (setCPULoadBalancing he shared sp podManager ms False wants))
           (io_seq (io_when (shouldIRQLoadBalancingBeDisabled anns)
                     (setIRQLoadBalancing he sp False IrqSmpAffinityProcFile configFile))
           (io_seq (io_when (shouldCPUQuotaBeDisabled anns) (setCPUQuota he podManager ms))
           (io_seq (case shouldCStatesBeConfigured anns of None \<Rightarrow> io_return ()
                    | Some v \<Rightarrow> io_bind (io_sum (convertAnnotationToLatency v)) (\<lambda>maxLatency.
                        io_when (maxLatency \<noteq> '''') (setCPUPMQOSResumeLatency sp maxLatency)))
                   (case shouldFreqGovernorBeConfigured anns of None \<Rightarrow> io_return ()
                    | Some v \<Rightarrow> setCPUFreqGovernor sp v))))))))"

definition PreStop :: "hook_env \<Rightarrow> string \<Rightarrow> string \<Rightarrow> Container \<Rightarrow> Sandbox \<Rightarrow> unit io" where
  "PreStop he configFile shared c s =
     (let sp = container_Spec c; anns = sb_Annotations s
      in io_bind (io_reply (shouldRunHooks sp s)) (\<lambda>run.
         if \<not> run then io_return ()
         else
           io_seq (io_when (shouldIRQLoadBalancingBeDisabled anns)
                    (setIRQLoadBalancing he sp True IrqSmpAffinityProcFile configFile))
           (io_seq (io_when (shouldCPULoadBalancingBeDisabled anns)
                     (io_bind (libctrManagersForPodAndContainerCgroup he (ID c) (cgroupParent s)) (\<lambda>(podManager, ms).
                       setCPULoadBalancing he shared sp podManager ms True (requestedSharedCPUs anns (metadata_name c)))))
           (io_seq (io_when (shouldCStatesBeConfigured anns \<noteq> None) (setCPUPMQOSResumeLatency sp ''''))
                   (io_when (shouldFreqGovernorBeConfigured anns \<noteq> None) (setCPUFreqGovernor sp ''''))))))"

definition PostStop :: "hook_env \<Rightarrow> Container \<Rightarrow> Sandbox \<Rightarrow> unit io" where
  "PostStop he c s =
     (if spoofed c \<or> ce_v2 (he_cg he) then io_return ()
      else io_bind (libctrManagersForPodAndContainerCgroup he (ID c) (cgroupParent s)) (\<lambda>(_, ms).
             disableCPULoadBalancingV1 he ms))"

section \<open>Saved settings\<close>

lemma save_and_write_ok:
  assumes "save_and_write f d orig v h = (h', Reply u)" and "f \<noteq> orig"
  shows "file_of h' = (file_of h)(orig := (if file_of h orig = None then file_of h f else file_of h orig), f \<mapsto> v)"
    and "same_rights h h'" and "\<not> hf_readonly h f"
    and "file_of h orig = None \<Longrightarrow> \<not> hf_readonly h orig \<and> file_of h f \<noteq> None"
proof -
  obtain b h1 where b: "b = (file_of h orig \<noteq> None)"
    and h1: "io_when (\<not> b) (io_bind (io_read f) (\<lambda>o'. io_seq (io_step (os_MkdirAll d)) (io_step (os_WriteFile orig o')))) h = (h1, Reply ())"
    and w: "os_WriteFile f v h1 = (h', None)"
    using assms(1) by (auto simp: save_and_write_def io_success io_exists_def fileExists_iff)
  have s: "file_of h1 = (file_of h)(orig := (if b then file_of h orig else file_of h f)) \<and> same_rights h h1 \<and>
      (b \<or> \<not> hf_readonly h orig \<and> file_of h f \<noteq> None)"
  proof (cases b)
    case True
    then show ?thesis using h1 by (simp add: io_when_def io_success)
  next
    case False
    then obtain o' h0 where o': "file_of h f = Some o'" "os_MkdirAll d h = (h0, None)" "os_WriteFile orig o' h0 = (h1, None)"
      using h1 by (auto simp: io_when_def io_success os_ReadFile_ok_iff)
    then show ?thesis
      using os_MkdirAll_ok [OF o'(2)] os_WriteFile_ok [OF o'(3)] False by (auto simp: same_rights_def)
  qed
  show "file_of h' = (file_of h)(orig := (if file_of h orig = None then file_of h f else file_of h orig), f \<mapsto> v)"
    using os_WriteFile_ok(1) [OF w] s b by simp
  show "same_rights h h'" "\<not> hf_readonly h f"
    using os_WriteFile_ok(2,3) [OF w] s by (auto simp: same_rights_def)
  show "file_of h orig = None \<Longrightarrow> \<not> hf_readonly h orig \<and> file_of h f \<noteq> None"
    using s b by auto
qed

lemma restore_saved_ok:
  assumes "file_of h orig = Some x" and "file_of h f \<noteq> None" and "f \<noteq> orig"
    and "\<not> hf_unreadable h orig" and "\<not> hf_readonly h f" and "\<not> hf_readonly h orig"
  shows "\<exists>h'. restore_saved f orig h = (h', Reply True) \<and> file_of h' = (file_of h)(f \<mapsto> x, orig := None) \<and> same_rights h h'"
proof -
  obtain h1 where h1: "os_WriteFile f x h = (h1, None)"
    using os_WriteFile_existing [OF assms(2,5)] by blast
  note w = os_WriteFile_ok [OF h1]
  have "file_of h1 orig \<noteq> None" "\<not> hf_readonly h1 orig"
    using w assms(1,3,6) by (auto simp: same_rights_def)
  then obtain h2 where h2: "os_Remove orig h1 = (h2, None)"
    using os_Remove_existing by blast
  have r: "os_ReadFile orig h = Inr x" using assms(1,4) by (simp add: os_ReadFile_ok_iff)
  have "restore_saved f orig h = (h2, Reply True)"
    by (simp add: restore_saved_def r io_seq_def io_bind_def io_step_def io_return_def h1 h2)
  moreover have "file_of h2 = (file_of h)(f \<mapsto> x, orig := None)" using os_Remove_ok(1) [OF h2] w(1) by simp
  moreover have "same_rights h h2" using os_Remove_ok(2) [OF h2] w(2) same_rights_trans by blast
  ultimately show ?thesis by blast
qed

text \<open>The latency and the governor are saved and put back the same way: for every CPU there is
  a file, and a place where its value is saved. The states in between are described by the
  files as they were before, \<open>F\<close>, and the CPUs whose value is saved.\<close>

locale saved_setting =
  fixes cur_file old_file :: "int \<Rightarrow> string"
  assumes cur_inj: "0 \<le> a \<Longrightarrow> 0 \<le> b \<Longrightarrow> cur_file a = cur_file b \<Longrightarrow> a = b"
    and old_inj: "0 \<le> a \<Longrightarrow> 0 \<le> b \<Longrightarrow> old_file a = old_file b \<Longrightarrow> a = b"
    and apart: "0 \<le> a \<Longrightarrow> 0 \<le> b \<Longrightarrow> cur_file a \<noteq> old_file b"
begin

definition holds :: "(string \<Rightarrow> string option) \<Rightarrow> int set \<Rightarrow> host \<Rightarrow> bool" where
  "holds F A h \<longleftrightarrow>
     (\<forall>c\<in>A. F (cur_file c) \<noteq> None \<and> file_of h (old_file c) = F (cur_file c) \<and> file_of h (cur_file c) \<noteq> None \<and>
        \<not> hf_readonly h (cur_file c) \<and> \<not> hf_readonly h (old_file c)) \<and>
     (\<forall>p. (\<forall>c\<in>A. p \<noteq> cur_file c \<and> p \<noteq> old_file c) \<longrightarrow> file_of h p = F p)"

lemma holds_start: "holds (file_of h) {} h"
  by (simp add: holds_def)

lemma holds_end: "holds F {} h \<Longrightarrow> file_of h = F"
  by (auto simp: holds_def)

lemma holds_other:
  assumes "holds F A h" and "c \<notin> A" and "0 \<le> c" and "\<forall>a\<in>A. 0 \<le> a"
  shows "file_of h (cur_file c) = F (cur_file c)" and "file_of h (old_file c) = F (old_file c)"
proof -
  have "\<forall>a\<in>A. cur_file c \<noteq> cur_file a \<and> cur_file c \<noteq> old_file a"
    using assms(2-4) cur_inj apart by metis
  moreover have "\<forall>a\<in>A. old_file c \<noteq> cur_file a \<and> old_file c \<noteq> old_file a"
    using assms(2-4) old_inj apart by metis
  ultimately show "file_of h (cur_file c) = F (cur_file c)" "file_of h (old_file c) = F (old_file c)"
    using assms(1) by (auto simp: holds_def)
qed

lemma save_step:
  assumes "save_and_write (cur_file c) d (old_file c) v h = (h', Reply u)" and "holds F A h"
    and "F (old_file c) = None" and "0 \<le> c" and "\<forall>a\<in>A. 0 \<le> a"
  shows "holds F (insert c A) h'" and "same_rights h h'"
proof -
  have ne: "cur_file c \<noteq> old_file c" using apart assms(4) by blast
  note w = save_and_write_ok [OF assms(1) ne]
  show "same_rights h h'" by (rule w(2))
  have k: "file_of h' p = file_of h p" if "p \<noteq> cur_file c" "p \<noteq> old_file c" for p
    using that by (simp add: w(1))
  have c: "F (cur_file c) \<noteq> None \<and> file_of h' (old_file c) = F (cur_file c) \<and> file_of h' (cur_file c) \<noteq> None \<and>
      \<not> hf_readonly h' (cur_file c) \<and> \<not> hf_readonly h' (old_file c)"
  proof (cases "c \<in> A")
    case True
    then have "F (cur_file c) \<noteq> None" "file_of h (old_file c) = F (cur_file c)" "\<not> hf_readonly h (old_file c)"
      using assms(2) by (auto simp: holds_def)
    then show ?thesis using ne w(2,3) by (auto simp: w(1) same_rights_def)
  next
    case False
    note o = holds_other [OF assms(2) False assms(4,5)]
    have "\<not> hf_readonly h (old_file c)" "file_of h (cur_file c) \<noteq> None"
      using w(4) o(2) assms(3) by auto
    then show ?thesis using ne w(2,3) o assms(3) by (simp add: w(1) same_rights_def)
  qed
  have "F (cur_file a) \<noteq> None \<and> file_of h' (old_file a) = F (cur_file a) \<and> file_of h' (cur_file a) \<noteq> None \<and>
      \<not> hf_readonly h' (cur_file a) \<and> \<not> hf_readonly h' (old_file a)" if "a \<in> A" "a \<noteq> c" for a
  proof -
    have a: "0 \<le> a" using assms(5) that(1) by blast
    then have "file_of h' (cur_file a) = file_of h (cur_file a)" "file_of h' (old_file a) = file_of h (old_file a)"
      using that(2) assms(4) cur_inj old_inj apart k by metis+
    then show ?thesis using assms(2) that(1) w(2) by (simp add: holds_def same_rights_def)
  qed
  moreover have "file_of h' p = F p" if "\<forall>a\<in>insert c A. p \<noteq> cur_file a \<and> p \<noteq> old_file a" for p
    using that assms(2) k [of p] by (simp add: holds_def)
  ultimately show "holds F (insert c A) h'"
    unfolding holds_def using c by blast
qed

lemma restore_step:
  assumes "holds F A h" and "c \<in> A" and "\<forall>a\<in>A. 0 \<le> a" and "\<not> hf_unreadable h (old_file c)"
    and "F (old_file c) = None"
  shows "\<exists>h'. restore_saved (cur_file c) (old_file c) h = (h', Reply True) \<and> holds F (A - {c}) h' \<and> same_rights h h'"
proof -
  have c: "0 \<le> c" using assms(2,3) by blast
  have ne: "cur_file c \<noteq> old_file c" using apart c by blast
  obtain x where x: "file_of h (old_file c) = Some x" "F (cur_file c) = Some x" "file_of h (cur_file c) \<noteq> None"
    "\<not> hf_readonly h (cur_file c)" "\<not> hf_readonly h (old_file c)"
    using assms(1,2) by (auto simp: holds_def)
  obtain h' where h': "restore_saved (cur_file c) (old_file c) h = (h', Reply True)"
    "file_of h' = (file_of h)(cur_file c \<mapsto> x, old_file c := None)" "same_rights h h'"
    using restore_saved_ok [OF x(1,3) ne assms(4) x(4,5)] by blast
  have "F (cur_file a) \<noteq> None \<and> file_of h' (old_file a) = F (cur_file a) \<and> file_of h' (cur_file a) \<noteq> None \<and>
      \<not> hf_readonly h' (cur_file a) \<and> \<not> hf_readonly h' (old_file a)" if a: "a \<in> A - {c}" for a
  proof -
    have "0 \<le> a" "a \<noteq> c" using assms(3) a by auto
    then have "cur_file a \<noteq> cur_file c \<and> cur_file a \<noteq> old_file c \<and> old_file a \<noteq> cur_file c \<and> old_file a \<noteq> old_file c"
      using c cur_inj old_inj apart by metis
    then have "file_of h' (cur_file a) = file_of h (cur_file a)" "file_of h' (old_file a) = file_of h (old_file a)"
      by (simp_all add: h'(2))
    then show ?thesis using assms(1) a h'(3) by (simp add: holds_def same_rights_def)
  qed
  moreover have "file_of h' p = F p" if p: "\<forall>a\<in>A - {c}. p \<noteq> cur_file a \<and> p \<noteq> old_file a" for p
  proof (cases "p = cur_file c \<or> p = old_file c")
    case True
    then show ?thesis using h'(2) x(2) ne assms(5) by auto
  next
    case False
    then have "file_of h p = F p" using p assms(1) by (auto simp: holds_def)
    then show ?thesis using False by (simp add: h'(2))
  qed
  ultimately have "holds F (A - {c}) h'" unfolding holds_def by blast
  then show ?thesis using h' by blast
qed

lemma set_loop:
  assumes "\<And>c h h' b. f c h = (h', Reply b) \<Longrightarrow> b \<and> (\<exists>d v u. save_and_write (cur_file c) d (old_file c) v h = (h', Reply u))"
    and "each_cpu f cs h = (h', Reply u)" and "holds F A h"
    and "\<forall>c\<in>set cs. 0 \<le> c \<and> F (old_file c) = None" and "\<forall>a\<in>A. 0 \<le> a"
  shows "holds F (A \<union> set cs) h' \<and> same_rights h h'"
  using assms(2-5)
proof (induction cs arbitrary: A h)
  case Nil
  then show ?case by (simp add: io_success)
next
  case (Cons c cs)
  obtain b h1 where b: "f c h = (h1, Reply b)"
    and r: "(if b then each_cpu f cs else io_return ()) h1 = (h', Reply u)"
    using Cons.prems(1) by (auto simp: io_success)
  obtain d v w where sw: "b" "save_and_write (cur_file c) d (old_file c) v h = (h1, Reply w)"
    using assms(1) [OF b] by blast
  have c: "0 \<le> c" "F (old_file c) = None" using Cons.prems(3) by simp_all
  note st = save_step [OF sw(2) Cons.prems(2) c(2,1) Cons.prems(4)]
  have "holds F (insert c A \<union> set cs) h' \<and> same_rights h1 h'"
    using r sw(1) st(1) Cons.prems(3,4) c(1) by (intro Cons.IH) simp_all
  then show ?case using st(2) same_rights_trans by auto
qed

lemma restore_loop:
  assumes "holds F A h" and "set cs \<subseteq> A" and "distinct cs" and "\<forall>a\<in>A. 0 \<le> a"
    and "\<forall>c\<in>set cs. \<not> hf_unreadable h (old_file c) \<and> F (old_file c) = None"
  shows "\<exists>h'. each_cpu (\<lambda>c. restore_saved (cur_file c) (old_file c)) cs h = (h', Reply ()) \<and> holds F (A - set cs) h'"
  using assms
proof (induction cs arbitrary: A h)
  case Nil
  then show ?case by (simp add: io_return_def)
next
  case (Cons c cs)
  obtain h1 where h1: "restore_saved (cur_file c) (old_file c) h = (h1, Reply True)" "holds F (A - {c}) h1" "same_rights h h1"
    using restore_step [OF Cons.prems(1) _ Cons.prems(4), of c] Cons.prems(2,5) by auto
  have "\<exists>h'. each_cpu (\<lambda>c. restore_saved (cur_file c) (old_file c)) cs h1 = (h', Reply ()) \<and> holds F (A - {c} - set cs) h'"
    using Cons.prems h1 by (intro Cons.IH) (auto simp: same_rights_def)
  moreover have "A - {c} - set cs = A - set (c # cs)" by auto
  ultimately show ?case using h1(1) by (simp add: io_bind_def)
qed

end

text \<open>The starts of a container, one after the other.\<close>

fun starts :: "(string \<Rightarrow> unit io) \<Rightarrow> string list \<Rightarrow> unit io" where
  "starts f [] = io_return ()"
| "starts f (v # vs) = io_seq (f v) (starts f vs)"

context saved_setting
begin

text \<open>An operation that saves and writes the files of the CPUs, whatever else it checks.\<close>

definition sets :: "int list \<Rightarrow> unit io \<Rightarrow> bool" where
  "sets cs m \<longleftrightarrow> (\<forall>h h' u. m h = (h', Reply u) \<longrightarrow>
      (\<exists>g. each_cpu g cs h = (h', Reply ()) \<and>
        (\<forall>c h h' b. g c h = (h', Reply b) \<longrightarrow> b \<and> (\<exists>d v u. save_and_write (cur_file c) d (old_file c) v h = (h', Reply u)))))"

lemma starts_hold:
  assumes "\<forall>v\<in>set vs. sets cs (f v)"
    and "starts f vs h = (h', Reply u)" and "holds F A h" and "A \<subseteq> set cs"
    and "\<forall>c\<in>set cs. 0 \<le> c \<and> F (old_file c) = None"
  shows "holds F (if vs = [] then A else set cs) h' \<and> same_rights h h'"
  using assms
proof (induction vs arbitrary: A h)
  case Nil
  then show ?case by (simp add: io_success)
next
  case (Cons v vs)
  obtain h1 w where h1: "f v h = (h1, Reply w)" "starts f vs h1 = (h', Reply u)"
    using Cons.prems(2) by (auto simp: io_success)
  obtain g where g: "each_cpu g cs h = (h1, Reply ())"
    "\<And>c h h' b. g c h = (h', Reply b) \<Longrightarrow> b \<and> (\<exists>d v u. save_and_write (cur_file c) d (old_file c) v h = (h', Reply u))"
    using Cons.prems(1) h1(1) unfolding sets_def by (metis list.set_intros(1))
  have A: "\<forall>a\<in>A. 0 \<le> a" "A \<union> set cs = set cs" using Cons.prems(4,5) by auto
  have s: "holds F (set cs) h1 \<and> same_rights h h1"
    using set_loop [OF g(2,1) Cons.prems(3,5) A(1)] A(2) by simp
  have "holds F (if vs = [] then set cs else set cs) h' \<and> same_rights h1 h'"
    using Cons.prems(1,5) h1(2) s by (intro Cons.IH) auto
  then show ?case using s same_rights_trans by auto
qed

text \<open>Whatever values the starts wrote, the stop puts the original ones back.\<close>

lemma stop_restores:
  assumes "\<forall>v\<in>set vs. sets cs (f v)"
    and "starts f vs h = (h', Reply u)" and "vs \<noteq> []" and "distinct cs"
    and "\<forall>c\<in>set cs. 0 \<le> c \<and> file_of h (old_file c) = None \<and> \<not> hf_unreadable h (old_file c)"
  shows "\<exists>h2. each_cpu (\<lambda>c. restore_saved (cur_file c) (old_file c)) cs h' = (h2, Reply ()) \<and> file_of h2 = file_of h"
proof -
  have s: "holds (file_of h) (set cs) h' \<and> same_rights h h'"
    using starts_hold [OF assms(1,2) holds_start] assms(3,5) by auto
  then have "\<forall>c\<in>set cs. \<not> hf_unreadable h' (old_file c) \<and> file_of h (old_file c) = None"
    using assms(5) by (simp add: same_rights_def)
  then obtain h2 where "each_cpu (\<lambda>c. restore_saved (cur_file c) (old_file c)) cs h' = (h2, Reply ())"
    "holds (file_of h) (set cs - set cs) h2"
    using restore_loop [of "file_of h" "set cs" h' cs] s assms(4,5) by blast
  then show ?thesis using holds_end by auto
qed

end

text \<open>A stop that finds the first value already put back ends there, without an error.\<close>

lemma restore_stops_early:
  "hf_nodes h (saved c) = None \<Longrightarrow> each_cpu (\<lambda>c. restore_saved (cur c) (saved c)) (c # cs) h = (h, Reply ())"
  by (simp add: restore_saved_def os_ReadFile_def io_bind_def io_return_def)

section \<open>The files of the settings\<close>

definition latency_file :: "int \<Rightarrow> string" where
  "latency_file c = cpu_dir sysCPUDir c ''power/pm_qos_resume_latency_us''"

definition latency_saved :: "int \<Rightarrow> string" where
  "latency_saved c = filepath_Join [cpu_dir sysCPUSaveDir c ''power'', ''pm_qos_resume_latency_us'']"

definition governor_file :: "int \<Rightarrow> string" where
  "governor_file c = cpu_dir sysCPUDir c ''cpufreq/scaling_governor''"

definition governor_saved :: "int \<Rightarrow> string" where
  "governor_saved c = filepath_Join [cpu_dir sysCPUSaveDir c ''cpufreq'', ''scaling_governor'']"

lemma itoa_inj: "0 \<le> a \<Longrightarrow> 0 \<le> b \<Longrightarrow> itoa a = itoa b \<Longrightarrow> a = b"
  using digits_val_utoa by (metis itoa_def nat_0_le not_less)

lemma cpu_dir_inj:
  assumes "0 \<le> a" and "0 \<le> b" and "cpu_dir base a sub = cpu_dir base b sub"
  shows "a = b"
proof (rule itoa_inj [OF assms(1,2)])
  have "itoa a @ ''/'' @ sub = itoa b @ ''/'' @ sub" using assms(3) by (simp add: cpu_dir_def)
  then show "itoa a = itoa b" by simp
qed

lemma save_dir_join:
  assumes "0 \<le> c" and "plain_component d" and "plain_component n"
  shows "filepath_Join [cpu_dir sysCPUSaveDir c d, n] = cpu_dir sysCPUSaveDir c (d @ ''/'' @ n)"
proof -
  let ?ws = "[''var'', ''run'', ''crio'', ''cpu'', ''cpu'' @ itoa c, d, n]"
  have "CHR ''/'' \<notin> set (itoa c)" using assms(1) by (intro itoa_no_char) (simp_all add: is_digit_def)
  then have "list_all plain_component ?ws" using assms(2,3) by (simp add: plain_component_def)
  then have "path_clean (''/'' @ join_with ''/'' ?ws) = ''/'' @ join_with ''/'' ?ws"
    by (rule path_clean_plain) simp
  then show ?thesis
    using assms(3) by (simp add: filepath_Join_def cpu_dir_def sysCPUSaveDir_def plain_component_def)
qed

lemma saved_paths:
  assumes "0 \<le> c"
  shows "latency_saved c = cpu_dir sysCPUSaveDir c ''power/pm_qos_resume_latency_us''"
    and "governor_saved c = cpu_dir sysCPUSaveDir c ''cpufreq/scaling_governor''"
  using save_dir_join [OF assms, of "''power''" "''pm_qos_resume_latency_us''"]
    save_dir_join [OF assms, of "''cpufreq''" "''scaling_governor''"]
  by (simp_all add: latency_saved_def governor_saved_def plain_component_def)

lemma dirs_apart: "cpu_dir sysCPUDir a s \<noteq> cpu_dir sysCPUSaveDir b t"
  by (simp add: cpu_dir_def sysCPUDir_def sysCPUSaveDir_def)

interpretation latency: saved_setting latency_file latency_saved
proof
  fix a b :: int
  assume ab: "0 \<le> a" "0 \<le> b"
  show "latency_file a = latency_file b \<Longrightarrow> a = b"
    using cpu_dir_inj [OF ab] by (simp add: latency_file_def)
  show "latency_saved a = latency_saved b \<Longrightarrow> a = b"
    using cpu_dir_inj [OF ab] by (simp add: saved_paths ab)
  show "latency_file a \<noteq> latency_saved b"
    using dirs_apart by (simp add: saved_paths ab latency_file_def)
qed

interpretation governor: saved_setting governor_file governor_saved
proof
  fix a b :: int
  assume ab: "0 \<le> a" "0 \<le> b"
  show "governor_file a = governor_file b \<Longrightarrow> a = b"
    using cpu_dir_inj [OF ab] by (simp add: governor_file_def)
  show "governor_saved a = governor_saved b \<Longrightarrow> a = b"
    using cpu_dir_inj [OF ab] by (simp add: saved_paths ab)
  show "governor_file a \<noteq> governor_saved b"
    using dirs_apart by (simp add: saved_paths ab governor_file_def)
qed

text \<open>The two operations as loops over the files.\<close>

lemma latency_sets:
  assumes "spec_cpus sp = Reply cpus" and "v \<noteq> ''''"
  shows "latency.sets (cpu_List cpus) (setCPUPMQOSResumeLatency sp v)"
  unfolding latency.sets_def
proof (intro allI impI)
  fix h h' u
  assume "setCPUPMQOSResumeLatency sp v h = (h', Reply u)"
  then have "each_cpu (\<lambda>cpu. io_seq (save_and_write (latency_file cpu) (cpu_dir sysCPUSaveDir cpu ''power'') (latency_saved cpu) v)
      (io_return True)) (cpu_List cpus) h = (h', Reply u)"
    using assms by (simp add: setCPUPMQOSResumeLatency_def doSetCPUPMQOSResumeLatency_def io_bind_def [of "io_reply _"] io_reply_def
        latency_file_def latency_saved_def Let_def)
  then show "\<exists>g. each_cpu g (cpu_List cpus) h = (h', Reply ()) \<and>
      (\<forall>c h h' b. g c h = (h', Reply b) \<longrightarrow> b \<and> (\<exists>d v u. save_and_write (latency_file c) d (latency_saved c) v h = (h', Reply u)))"
    by (intro exI conjI) (simp, auto simp: io_success)
qed

lemma governor_sets:
  assumes "spec_cpus sp = Reply cpus" and "v \<noteq> ''''"
  shows "governor.sets (cpu_List cpus) (setCPUFreqGovernor sp v)"
  unfolding governor.sets_def
proof (intro allI impI)
  fix h h' u
  assume "setCPUFreqGovernor sp v h = (h', Reply u)"
  then have "each_cpu (\<lambda>cpu. io_seq (isCPUGovernorSupported v sysCPUDir cpu)
      (io_seq (save_and_write (governor_file cpu) (cpu_dir sysCPUSaveDir cpu ''cpufreq'') (governor_saved cpu) v)
        (io_return True))) (cpu_List cpus) h = (h', Reply u)"
    using assms by (simp add: setCPUFreqGovernor_def doSetCPUFreqGovernor_def io_bind_def [of "io_reply _"] io_reply_def
        governor_file_def governor_saved_def Let_def)
  moreover have "isCPUGovernorSupported v d c h = (h1, Reply w) \<Longrightarrow> h1 = h" for d c h h1 w
    by (auto simp: isCPUGovernorSupported_def io_success split: if_splits)
  ultimately show "\<exists>g. each_cpu g (cpu_List cpus) h = (h', Reply ()) \<and>
      (\<forall>c h h' b. g c h = (h', Reply b) \<longrightarrow> b \<and> (\<exists>d v u. save_and_write (governor_file c) d (governor_saved c) v h = (h', Reply u)))"
    by (intro exI conjI) (simp, fastforce simp: io_success)
qed

lemma restoring:
  assumes "spec_cpus sp = Reply cpus"
  shows "setCPUPMQOSResumeLatency sp '''' h = each_cpu (\<lambda>c. restore_saved (latency_file c) (latency_saved c)) (cpu_List cpus) h"
    and "setCPUFreqGovernor sp '''' h = each_cpu (\<lambda>c. restore_saved (governor_file c) (governor_saved c)) (cpu_List cpus) h"
  using assms
  by (simp_all add: setCPUPMQOSResumeLatency_def doSetCPUPMQOSResumeLatency_def setCPUFreqGovernor_def doSetCPUFreqGovernor_def
      io_bind_def [of "io_reply _"] io_reply_def latency_file_def latency_saved_def governor_file_def governor_saved_def Let_def)

section \<open>Properties\<close>

datatype cpu_setting = Latency | Governor

fun set_setting :: "cpu_setting \<Rightarrow> Spec \<Rightarrow> string \<Rightarrow> unit io" where
  "set_setting Latency sp = setCPUPMQOSResumeLatency sp"
| "set_setting Governor sp = setCPUFreqGovernor sp"

fun saved_file :: "cpu_setting \<Rightarrow> int \<Rightarrow> string" where
  "saved_file Latency c = latency_saved c"
| "saved_file Governor c = governor_saved c"

lemma spec_cpus_sets:
  assumes "spec_cpus sp = Reply cpus"
  shows "finite cpus" and "c \<in> cpus \<Longrightarrow> 0 \<le> c"
  using assms cpu_Parse_finite cpu_Parse_nonneg by (auto simp: spec_cpus_def split: option.splits if_splits)

text \<open>C22: However often a container was started, with whatever latencies or governors, stopping
  it succeeds and leaves every file of the host as it was before the first start, provided
  nothing had been saved before and the saved values can be read.\<close>

theorem cpu_settings_restored:
  assumes "spec_cpus sp = Reply cpus" and "vs \<noteq> []" and "'''' \<notin> set vs"
    and "\<forall>c\<in>cpus. file_of h (saved_file k c) = None \<and> \<not> hf_unreadable h (saved_file k c)"
    and "starts (set_setting k sp) vs h = (h1, Reply ())"
  shows "\<exists>h2. set_setting k sp '''' h1 = (h2, Reply ()) \<and> file_of h2 = file_of h"
proof -
  note fin = spec_cpus_sets [OF assms(1)]
  have l: "set (cpu_List cpus) = cpus" "distinct (cpu_List cpus)"
    using fin(1) by (simp_all add: cpu_List_def)
  have v: "\<forall>v\<in>set vs. v \<noteq> ''''" using assms(3) by metis
  show ?thesis
  proof (cases k)
    case Latency
    have "\<forall>v\<in>set vs. latency.sets (cpu_List cpus) (setCPUPMQOSResumeLatency sp v)"
      using latency_sets [OF assms(1)] v by blast
    from latency.stop_restores [OF this _ assms(2) l(2)] show ?thesis
      using assms(4,5) fin(2) l(1) Latency by (simp add: restoring(1) [OF assms(1)])
  next
    case Governor
    have "\<forall>v\<in>set vs. governor.sets (cpu_List cpus) (setCPUFreqGovernor sp v)"
      using governor_sets [OF assms(1)] v by blast
    from governor.stop_restores [OF this _ assms(2) l(2)] show ?thesis
      using assms(4,5) fin(2) l(1) Governor by (simp add: restoring(2) [OF assms(1)])
  qed
qed

definition sample_cpu_spec :: Spec where
  "sample_cpu_spec = \<lparr>sp_Linux = Some \<lparr>lin_Namespaces = [], lin_Resources = Some \<lparr>
       res_CPU = Some \<lparr>cpu_Cpus = ''0-1'', cpu_Mems = '''', cpu_Period = None, cpu_Quota = None, cpu_Shares = Some 2048\<rparr>,
       res_Memory = None, res_Unified = Map.empty, res_HugepageLimits = []\<rparr>\<rparr>, sp_Process = None\<rparr>"

definition sample_host :: host where
  "sample_host = \<lparr>hf_nodes = [latency_file 0 \<mapsto> File ''0'', latency_file 1 \<mapsto> File ''7'', sysCPUSaveDir \<mapsto> Dir],
     hf_unreadable = (\<lambda>_. False), hf_readonly = (\<lambda>_. False), hf_unstatable = (\<lambda>_. False), hf_runs = []\<rparr>"

theorem cpu_settings_restored_witness:
  "\<exists>h1 h2. starts (set_setting Latency sample_cpu_spec) [''n/a'', ''10''] sample_host = (h1, Reply ()) \<and>
     file_of h1 (latency_file 1) = Some ''10'' \<and>
     set_setting Latency sample_cpu_spec '''' h1 = (h2, Reply ()) \<and> file_of h2 (latency_file 1) = Some ''7''"
proof -
  let ?r = "starts (set_setting Latency sample_cpu_spec) [''n/a'', ''10''] sample_host"
  have "cpu_String {0, 1} = ''0-1''" by code_simp
  then have p: "spec_cpus sample_cpu_spec = Reply {0, 1}"
    using cpu_Parse_String [of "{0, 1}"] by (simp add: spec_cpus_def spec_cpu_def sample_cpu_spec_def max_int_def)
  have "snd ?r = Reply ()" by code_simp
  then have r: "?r = (fst ?r, Reply ())" by (metis prod.collapse)
  have n: "\<forall>c\<in>{0, 1}. file_of sample_host (saved_file Latency c) = None \<and> \<not> hf_unreadable sample_host (saved_file Latency c)"
    by code_simp
  obtain h2 where "set_setting Latency sample_cpu_spec '''' (fst ?r) = (h2, Reply ())" "file_of h2 = file_of sample_host"
    using cpu_settings_restored [OF p _ _ n r] by auto
  moreover have "file_of (fst ?r) (latency_file 1) = Some ''10''" by code_simp
  moreover have "file_of sample_host (latency_file 1) = Some ''7''" by code_simp
  ultimately show ?thesis using r by metis
qed

section \<open>CPU sets and quotas\<close>

text \<open>CPUs are added from the top to the bottom and removed the other way round. The revert of a
  failed removal adds them from the bottom, since the list comes back reversed.\<close>

lemma failed_removal_reverted_upwards:
  assumes "update_states he False (rev ms) h = (h1, Fail e)" and "ms \<noteq> []"
    and "update_states he True (rev ms) h1 = (h2, Reply u)"
  shows "apply_states he True ms h = (h2, Fail e)"
  using assms by (simp add: apply_states_def addOrRemoveCpusetFromManagers_def Let_def)

lemma failed_addition_reverted_upwards:
  assumes "update_states he True ms h = (h1, Fail e)" and "ms \<noteq> []"
    and "update_states he False (rev ms) h1 = (h2, Reply u)"
  shows "apply_states he False ms h = (h2, Fail e)"
  using assms by (simp add: apply_states_def addOrRemoveCpusetFromManagers_def Let_def)

text \<open>The quota of a set of CPUs is exact as long as the product fits in 64 bits.\<close>

lemma calculateMaximalQuota_exact:
  assumes "0 \<le> period" and "cpu_Size cpus * 1000 * period < 2 ^ 64"
  shows "calculateMaximalQuota cpus period = cpu_Size cpus * period"
proof -
  define x where "x = cpu_Size cpus * period"
  have x: "0 \<le> x" "cpu_Size cpus * 1000 * period = 1000 * x"
    using assms(1) by (simp_all add: x_def cpu_Size_def)
  have "1000 * x < 2 ^ 64" using assms(2) unfolding x(2) .
  then have m: "(cpu_Size cpus * 1000 * period) mod 2 ^ 64 = 1000 * x" and "in_int64 x"
    unfolding x(2) using x(1) by (simp_all add: in_int64_def)
  then show ?thesis unfolding calculateMaximalQuota_def m x_def [symmetric] by simp
qed

text \<open>A group that has no CPU to give or take is left alone.\<close>

lemma addOrRemove_unchanged:
  assumes "cg_read (mgr_path he m) file h = (h, Reply str)" and "cpu_Parse (trim_space str) = Reply s"
    and "if add then cpus \<subseteq> s else cpus \<inter> s = {}"
  shows "addOrRemoveCpusetFromManager he m cpus add file h = (h, Reply ())"
proof -
  have "(if add then cpu_Union s cpus else cpu_Difference s cpus) = s"
    using assms(3) by (auto simp: cpu_Union_def cpu_Difference_def split: if_splits)
  then show ?thesis
    using assms(1,2) by (simp add: addOrRemoveCpusetFromManager_def io_bind_def io_reply_def io_return_def Let_def)
qed

text \<open>Hooks run only for pods with whole CPUs outside the two lower classes of service.\<close>

lemma hooks_skipped:
  assumes "shouldRunHooks (container_Spec c) s = Reply False"
  shows "PreStart he cfg shared c s h = (h, Reply ())" and "PreStop he cfg shared c s h = (h, Reply ())"
  using assms by (simp_all add: PreStart_def PreStop_def io_bind_def io_reply_def io_return_def Let_def)

section \<open>Interrupts of a container\<close>

text \<open>The bit of every CPU in the mask, after the CPUs of a container were moved.\<close>

definition irq_moved :: "CPUSet \<Rightarrow> bool \<Rightarrow> string \<Rightarrow> string \<Rightarrow> bool" where
  "irq_moved s on old new \<longleftrightarrow> (\<forall>i. bit (mask_value new) i \<longleftrightarrow> (if int i \<in> s then on else bit (mask_value old) i))"

definition irq_complement :: "nat \<Rightarrow> string \<Rightarrow> string \<Rightarrow> bool" where
  "irq_complement n m b \<longleftrightarrow> (\<forall>i. bit (mask_value b) i \<longleftrightarrow> i < n \<and> \<not> bit (mask_value m) i)"

text \<open>A mask the update accepts for a set of CPUs.\<close>

definition mask_fits :: "CPUSet \<Rightarrow> string \<Rightarrow> bool" where
  "mask_fits s m \<longleftrightarrow> hex_mask m \<and> 0 < mask_cpus m \<and> (\<forall>c\<in>s. c < int (mask_cpus m))"

lemma run_command_files: "run_command cmd e h = (h', r) \<Longrightarrow> file_of h' = file_of h \<and> same_rights h h'"
  by (auto simp: run_command_def file_of_def same_rights_def)

lemma retrieve_files:
  "file_of h' = file_of h \<Longrightarrow> same_rights h h' \<Longrightarrow> retrieveIrqBannedCPUMasks f h = Inr v \<Longrightarrow> retrieveIrqBannedCPUMasks f h' = Inr v"
proof -
  assume a: "file_of h' = file_of h" "same_rights h h'" "retrieveIrqBannedCPUMasks f h = Inr v"
  then obtain c where "os_ReadFile f h = Inr c" "v = get_banned c"
    by (auto simp: retrieveIrqBannedCPUMasks_def split: sum.splits)
  moreover have "os_ReadFile f h' = Inr c"
    using a(1,2) \<open>os_ReadFile f h = Inr c\<close> by (simp add: os_ReadFile_ok_iff same_rights_def)
  ultimately show ?thesis by (simp add: retrieveIrqBannedCPUMasks_def)
qed

text \<open>What a move that returned without an error did.\<close>

lemma setIRQLoadBalancing_steps:
  assumes "setIRQLoadBalancing he sp on smp cfg h = (h', Reply u)"
  obtains cpu content m b h1 h2 where "spec_cpu sp = Some cpu" "os_ReadFile smp h = Inr content"
    "UpdateIRQSmpAffinityMask (cpu_Cpus cpu) (trim_space content) on = Reply (m, b)"
    "os_WriteFile smp m h = (h1, None)"
    "if file_of h1 cfg = None then h2 = h1 else updateIrqBalanceConfigFile cfg b h1 = (h2, None)"
    "file_of h' = file_of h2" "same_rights h2 h'"
proof -
  obtain cpu where c: "spec_cpu sp = Some cpu" "cpu_Cpus cpu \<noteq> ''''"
    using assms by (auto simp: setIRQLoadBalancing_def io_success split: option.splits if_splits)
  obtain content m b h1 where w: "os_ReadFile smp h = Inr content"
    "UpdateIRQSmpAffinityMask (cpu_Cpus cpu) (trim_space content) on = Reply (m, b)"
    "os_WriteFile smp m h = (h1, None)"
    and r: "io_bind (io_exists cfg) (\<lambda>ex. io_seq (io_when ex (io_step (updateIrqBalanceConfigFile cfg b)))
        (if \<not> isServiceEnabled he \<or> \<not> ex
         then (if \<not> he_lookPath he then io_return () else run_command (RunOneshot b) (he_oneshot he))
         else restartIrqBalanceService)) h1 = (h', Reply u)"
    using assms c by (auto simp: setIRQLoadBalancing_def io_success)
  obtain h2 where h2: "if file_of h1 cfg = None then h2 = h1 else updateIrqBalanceConfigFile cfg b h1 = (h2, None)"
    and e: "(if \<not> isServiceEnabled he \<or> file_of h1 cfg = None
         then (if \<not> he_lookPath he then io_return () else run_command (RunOneshot b) (he_oneshot he))
         else restartIrqBalanceService) h2 = (h', Reply u)"
    using r by (auto simp: io_success io_exists_def fileExists_iff io_when_def split: if_splits)
  have "file_of h' = file_of h2 \<and> same_rights h2 h'"
    using e run_command_files by (auto simp: restartIrqBalanceService_def io_success split: if_splits)
  then show ?thesis using that c(1) w h2 by blast
qed

text \<open>C21: Moving the CPUs of a container out of or into the interrupt mask, when it returns without
  an error, leaves a mask in which exactly their bits changed, and the configuration of
  irqbalance, where there is one, bans exactly the CPUs that are not in the mask.\<close>

theorem irq_balancing_exact:
  assumes "setIRQLoadBalancing he sp on smp cfg h = (h', Reply ())" and "smp \<noteq> cfg"
    and "spec_cpus sp = Reply s" and "file_of h smp = Some content" and "mask_fits s (trim_space content)"
  shows "\<exists>m b. file_of h' smp = Some m \<and> irq_moved s on (trim_space content) m \<and>
    irq_complement (mask_cpus (trim_space content)) m b \<and>
    (file_of h cfg \<noteq> None \<longrightarrow> retrieveIrqBannedCPUMasks cfg h' = Inr b)"
proof -
  obtain cpu c m b h1 h2 where st: "spec_cpu sp = Some cpu" "os_ReadFile smp h = Inr c"
    "UpdateIRQSmpAffinityMask (cpu_Cpus cpu) (trim_space c) on = Reply (m, b)" "os_WriteFile smp m h = (h1, None)"
    "if file_of h1 cfg = None then h2 = h1 else updateIrqBalanceConfigFile cfg b h1 = (h2, None)"
    "file_of h' = file_of h2" "same_rights h2 h'"
    by (rule setIRQLoadBalancing_steps [OF assms(1)]) blast
  have c: "c = content" using st(2) assms(4) by (simp add: os_ReadFile_ok_iff)
  have p: "cpu_Parse (cpu_Cpus cpu) = Reply s"
    using assms(3) st(1) by (simp add: spec_cpus_def split: if_splits)
  have u: "irq_moved s on (trim_space content) m" "irq_complement (mask_cpus (trim_space content)) m b" "hex_mask b"
    using irq_mask_exact [OF p, of "trim_space content" on] assms(5) st(3) c
    by (auto simp: mask_fits_def irq_moved_def irq_complement_def)
  note w = os_WriteFile_ok [OF st(4)]
  show ?thesis
  proof (cases "file_of h1 cfg = None")
    case True
    then show ?thesis using u w(1) st(5,6) assms(2) by (intro exI [of _ m] exI [of _ b]) simp
  next
    case False
    then have up: "updateIrqBalanceConfigFile cfg b h1 = (h2, None)" using st(5) by simp
    note cf = updateIrqBalanceConfigFile_ok [OF up plain_mask [OF u(3)]]
    have "retrieveIrqBannedCPUMasks cfg h' = Inr b"
      using retrieve_files [OF st(6,7) cf(1)] .
    moreover have "file_of h' smp = Some m"
      using cf(3) [of smp] assms(2) w(1) st(6) by simp
    ultimately show ?thesis using u by blast
  qed
qed

definition sample_hook_env :: hook_env where
  "sample_hook_env = \<lparr>he_cg = \<lparr>ce_v2 = True, ce_new = (\<lambda>_. None),
       ce_path = (\<lambda>m _. ''/sys/fs/cgroup'' @ mg_parent m @ ''/'' @ mg_name m), ce_Set = (\<lambda>_ _. io_return ()),
       ce_Apply = (\<lambda>_. io_return ()), ce_Destroy = (\<lambda>_. io_return ())\<rparr>,
     he_online = None, he_isEnabled = Inr ''enabled'', he_lookPath = True, he_oneshot = None\<rparr>"

definition sample_irq_host :: host where
  "sample_irq_host = \<lparr>hf_nodes = [''/smp'' \<mapsto> File ''ff'', ''/cfg'' \<mapsto> File ''ONESHOT=1''],
     hf_unreadable = (\<lambda>_. False), hf_readonly = (\<lambda>_. False), hf_unstatable = (\<lambda>_. False), hf_runs = []\<rparr>"

theorem irq_balancing_exact_witness:
  "\<exists>h' m b. setIRQLoadBalancing sample_hook_env sample_cpu_spec False ''/smp'' ''/cfg'' sample_irq_host = (h', Reply ()) \<and>
     file_of h' ''/smp'' = Some m \<and> irq_moved {0, 1} False ''ff'' m \<and> retrieveIrqBannedCPUMasks ''/cfg'' h' = Inr b \<and>
     irq_complement 8 m b"
proof -
  let ?r = "setIRQLoadBalancing sample_hook_env sample_cpu_spec False ''/smp'' ''/cfg'' sample_irq_host"
  have "cpu_String {0, 1} = ''0-1''" by code_simp
  then have p: "spec_cpus sample_cpu_spec = Reply {0, 1}"
    using cpu_Parse_String [of "{0, 1}"] by (simp add: spec_cpus_def spec_cpu_def sample_cpu_spec_def max_int_def)
  have "snd ?r = Reply ()" by code_simp
  then have r: "?r = (fst ?r, Reply ())" by (metis prod.collapse)
  have f: "file_of sample_irq_host ''/smp'' = Some ''ff''" "file_of sample_irq_host ''/cfg'' \<noteq> None"
    by (simp_all add: file_of_def sample_irq_host_def)
  have t: "trim_space ''ff'' = ''ff''" "mask_cpus ''ff'' = 8" "hex_mask ''ff''"
    by (simp_all add: trim_space_def trim_by_def is_space_def mask_cpus_def hex_mask_def hex_nibble_def)
  then have "mask_fits {0, 1} (trim_space ''ff'')" by (simp add: mask_fits_def)
  from irq_balancing_exact [OF r _ p f(1) this] show ?thesis
    using f(2) r t by auto
qed

end
