(* ===== verification/Workloads.thy ===== *)
theory Workloads
  imports Annotations Cpu_Set Runtime_Oci Ctr_Factory
begin

text \<open>
  The workloads of the configuration (\<^verbatim>\<open>pkg/config/workloads.go\<close>): which workload the
  annotations of a pod activate, the CPU resources it gives to a container, and the
  annotations it allows; and the server's filter of annotations
  (\<^verbatim>\<open>FilterDisallowedAnnotations\<close> of \<^verbatim>\<open>server/utils.go\<close>), which combines the lists of the
  runtime handler and of the workload.

  The table of workloads is a Go map; it is given here as the list of its entries in the order
  in which a loop happens to meet them. The JSON decoder of the resources is a parameter;
  \<open>None\<close> is the decoded value null.
\<close>

section \<open>Data\<close>

definition milliCPUToCPU :: int where
  "milliCPUToCPU = 1000"

definition defaultQuotaPeriod :: int where
  "defaultQuotaPeriod = 100000"

definition minQuotaPeriod :: int where
  "minQuotaPeriod = 1000"

record work_Resources =
  wr_CPUShares :: int
  wr_CPUQuota :: int
  wr_CPUPeriod :: int
  wr_CPUSet :: string
  wr_CPULimit :: int

record WorkloadConfig =
  wl_ActivationAnnotation :: string
  wl_AnnotationPrefix :: string
  wl_AllowedAnnotations :: "string list"
  wl_DisallowedAnnotations :: "string list"
  wl_Resources :: "work_Resources option"

type_synonym workload_table = "(string \<times> WorkloadConfig) list"

section \<open>Validation\<close>

definition ValidateDefaults :: "work_Resources option \<Rightarrow> unit reply" where
  "ValidateDefaults res =
     (case res of None \<Rightarrow> Reply ()
      | Some r \<Rightarrow>
          (case cpu_Parse (wr_CPUSet r) of
             Reply _ \<Rightarrow>
               if wr_CPUQuota r \<noteq> 0 \<and> wr_CPUQuota r < to_int64 (wr_CPUShares r) then Fail ''cpuquota cannot be less than cpushares''
               else if wr_CPUPeriod r \<noteq> 0 \<and> wr_CPUPeriod r < minQuotaPeriod then Fail ''cpuperiod cannot be less than 1000 microseconds''
               else Reply ()
           | Fail e \<Rightarrow> Fail (''unable to parse cpuset '' @ wr_CPUSet r @ '': '' @ e)
           | Crash \<Rightarrow> Crash | Hang \<Rightarrow> Hang))"

definition ValidateWorkloadAllowedAnnotations :: "WorkloadConfig \<Rightarrow> string + WorkloadConfig" where
  "ValidateWorkloadAllowedAnnotations w =
     (case validateAllowedAndGenerateDisallowedAnnotations (wl_AllowedAnnotations w) of
        Inl e \<Rightarrow> Inl e | Inr ds \<Rightarrow> Inr (w\<lparr>wl_DisallowedAnnotations := ds\<rparr>))"

definition WorkloadConfig_Validate :: "string \<Rightarrow> WorkloadConfig \<Rightarrow> WorkloadConfig \<times> unit reply" where
  "WorkloadConfig_Validate workloadName w =
     (if wl_ActivationAnnotation w = '''' then (w, Fail (''annotation shouldn't be empty for workload '' @ workloadName))
      else case ValidateWorkloadAllowedAnnotations w of
             Inl e \<Rightarrow> (w, Fail e)
           | Inr w' \<Rightarrow> (w', ValidateDefaults (wl_Resources w')))"

fun Workloads_Validate :: "workload_table \<Rightarrow> workload_table \<times> unit reply" where
  "Workloads_Validate [] = ([], Reply ())"
| "Workloads_Validate ((name, w) # ws) =
     (case WorkloadConfig_Validate name w of
        (w', Reply _) \<Rightarrow> (let (ws', r) = Workloads_Validate ws in ((name, w') # ws', r))
      | (w', r) \<Rightarrow> ((name, w') # ws, r))"

section \<open>The workload of a pod\<close>

definition workloadGivenActivationAnnotation :: "workload_table \<Rightarrow> str_map \<Rightarrow> WorkloadConfig option" where
  "workloadGivenActivationAnnotation ws anns =
     map_option snd (find (\<lambda>(_, wc). anns (wl_ActivationAnnotation wc) \<noteq> None) ws)"

definition Workloads_AllowedAnnotations :: "workload_table \<Rightarrow> str_map \<Rightarrow> string list" where
  "Workloads_AllowedAnnotations ws toFind =
     (case workloadGivenActivationAnnotation ws toFind of None \<Rightarrow> [] | Some w \<Rightarrow> wl_AllowedAnnotations w)"

text \<open>The product is computed in 64 bits and may wrap around.\<close>

definition milliCPUToQuota :: "int \<Rightarrow> int \<Rightarrow> int" where
  "milliCPUToQuota milliCPU period =
     (if milliCPU = 0 then 0
      else let p = (if period = 0 then defaultQuotaPeriod else period);
               quota = quot_trunc (to_int64 (milliCPU * p)) milliCPUToCPU
           in if quota < minQuotaPeriod then minQuotaPeriod else quota)"

text \<open>A field the annotation leaves out is read through the pointer to the defaults, which is
  nil when the workload has none.\<close>

definition default_of :: "work_Resources option \<Rightarrow> bool \<Rightarrow> (work_Resources \<Rightarrow> 'a) \<Rightarrow> 'a \<Rightarrow> (string, 'a) outcome" where
  "default_of defaults missing f v =
     (if \<not> missing then Ok v else case defaults of None \<Rightarrow> Panic | Some d \<Rightarrow> Ok (f d))"

definition resourcesFromAnnotation :: "(string \<Rightarrow> (string, work_Resources option) outcome) \<Rightarrow> string \<Rightarrow> string \<Rightarrow> str_map \<Rightarrow>
    work_Resources option \<Rightarrow> (string, work_Resources option) outcome" where
  "resourcesFromAnnotation decode pre ctrName allAnnotations defaults =
     (case allAnnotations (pre @ ''/'' @ ctrName) of
        None \<Rightarrow> Ok defaults
      | Some val \<Rightarrow>
          outcome_bind (decode val) (\<lambda>res.
            case res of None \<Rightarrow> Ok None
            | Some r \<Rightarrow>
                outcome_bind (default_of defaults (wr_CPUSet r = '''') wr_CPUSet (wr_CPUSet r)) (\<lambda>cpuset.
                outcome_bind (default_of defaults (wr_CPUShares r = 0) wr_CPUShares (wr_CPUShares r)) (\<lambda>shares.
                outcome_bind (default_of defaults (wr_CPUQuota r = 0) wr_CPUQuota (wr_CPUQuota r)) (\<lambda>quota.
                outcome_bind (default_of defaults (wr_CPUPeriod r = 0) wr_CPUPeriod (wr_CPUPeriod r)) (\<lambda>period.
                outcome_bind (default_of defaults (wr_CPULimit r = 0) wr_CPULimit (wr_CPULimit r)) (\<lambda>limit.
                Ok (Some \<lparr>wr_CPUShares = shares,
                  wr_CPUQuota = (if limit \<noteq> 0 then milliCPUToQuota limit (to_int64 period) else quota),
                  wr_CPUPeriod = period, wr_CPUSet = cpuset, wr_CPULimit = limit\<rparr>))))))))"

definition MutateSpec :: "work_Resources option \<Rightarrow> SpecGen \<Rightarrow> SpecGen" where
  "MutateSpec res g =
     (case res of None \<Rightarrow> g
      | Some r \<Rightarrow>
          (let c = g_CPU g;
               c1 = (if wr_CPUSet r \<noteq> '''' then c\<lparr>cpu_Cpus := wr_CPUSet r\<rparr> else c);
               c2 = (if wr_CPUShares r \<noteq> 0 then c1\<lparr>cpu_Shares := Some (wr_CPUShares r)\<rparr> else c1);
               c3 = (if wr_CPUQuota r \<noteq> 0 then c2\<lparr>cpu_Quota := Some (wr_CPUQuota r)\<rparr> else c2);
               c4 = (if wr_CPUPeriod r \<noteq> 0 then c3\<lparr>cpu_Period := Some (wr_CPUPeriod r)\<rparr> else c3)
           in g\<lparr>g_CPU := c4\<rparr>))"

definition MutateSpecGivenAnnotations :: "(string \<Rightarrow> (string, work_Resources option) outcome) \<Rightarrow> string \<Rightarrow> SpecGen \<Rightarrow> str_map \<Rightarrow>
    workload_table \<Rightarrow> (string, SpecGen) outcome" where
  "MutateSpecGivenAnnotations decode ctrName g sboxAnnotations ws =
     (case workloadGivenActivationAnnotation ws sboxAnnotations of
        None \<Rightarrow> Ok g
      | Some w \<Rightarrow>
          outcome_bind (resourcesFromAnnotation decode (wl_AnnotationPrefix w) ctrName sboxAnnotations (wl_Resources w))
            (\<lambda>res. Ok (MutateSpec res g)))"

section \<open>The server's filter\<close>

definition FilterDisallowedAnnotations :: "Runtime \<Rightarrow> workload_table \<Rightarrow> str_map \<Rightarrow> str_map \<Rightarrow> string \<Rightarrow> (string, str_map) outcome" where
  "FilterDisallowedAnnotations r ws toFind toFilter handler =
     outcome_bind (AllowedAnnotations r handler) (\<lambda>allowed.
       case Workloads_FilterDisallowedAnnotations (allowed @ Workloads_AllowedAnnotations ws toFind) toFilter of
         Inl e \<Rightarrow> Err e | Inr m \<Rightarrow> Ok m)"

section \<open>Lemmas\<close>

text \<open>When at most one workload is active the order of the table does not matter.\<close>

definition one_active :: "workload_table \<Rightarrow> str_map \<Rightarrow> bool" where
  "one_active ws anns \<longleftrightarrow> (\<forall>x \<in> set ws. \<forall>y \<in> set ws. anns (wl_ActivationAnnotation (snd x)) \<noteq> None \<longrightarrow>
     anns (wl_ActivationAnnotation (snd y)) \<noteq> None \<longrightarrow> x = y)"

lemma find_unique:
  assumes "\<And>x y. x \<in> set xs \<Longrightarrow> y \<in> set xs \<Longrightarrow> P x \<Longrightarrow> P y \<Longrightarrow> x = y" and "set ys = set xs"
  shows "find P ys = find P xs"
proof (cases "find P xs")
  case None
  then have "find P ys = None" using assms(2) by (simp add: find_None_iff)
  then show ?thesis using None by simp
next
  case (Some x)
  then have x: "x \<in> set xs" "P x" by (auto simp: find_Some_iff)
  then have "find P ys \<noteq> None" using assms(2) by (auto simp: find_None_iff)
  then obtain y where y: "find P ys = Some y" by blast
  then have "y \<in> set xs" "P y" using assms(2) by (auto simp: find_Some_iff)
  then show ?thesis using assms(1) [OF _ x(1) _ x(2)] y Some by simp
qed

lemma workload_order_irrelevant:
  assumes "one_active ws anns" and "set ws' = set ws"
  shows "workloadGivenActivationAnnotation ws' anns = workloadGivenActivationAnnotation ws anns"
proof -
  have "find (\<lambda>(_, wc). anns (wl_ActivationAnnotation wc) \<noteq> None) ws' = find (\<lambda>(_, wc). anns (wl_ActivationAnnotation wc) \<noteq> None) ws"
    by (rule find_unique [OF _ assms(2)]) (use assms(1) in \<open>unfold one_active_def split_beta, blast\<close>)
  then show ?thesis by (simp add: workloadGivenActivationAnnotation_def)
qed

lemma milliCPUToQuota_exact:
  assumes "0 < milliCPU" and "0 \<le> period" and "milliCPU * (if period = 0 then 100000 else period) < 2 ^ 63"
  shows "milliCPUToQuota milliCPU period = max 1000 (milliCPU * (if period = 0 then 100000 else period) div 1000)"
proof -
  define p where "p = (if period = 0 then 100000 else period)"
  have "0 \<le> milliCPU * p" using assms(1,2) by (simp add: p_def)
  then have "in_int64 (milliCPU * p)" using assms(3) by (simp add: in_int64_def p_def)
  then show ?thesis
    using assms(1) \<open>0 \<le> milliCPU * p\<close> unfolding milliCPUToQuota_def defaultQuotaPeriod_def p_def [symmetric] Let_def
    by (simp add: quot_trunc_def milliCPUToCPU_def minQuotaPeriod_def max_def)
qed

lemma milliCPUToQuota_min: "milliCPU \<noteq> 0 \<Longrightarrow> 1000 \<le> milliCPUToQuota milliCPU period"
  by (simp add: milliCPUToQuota_def Let_def minQuotaPeriod_def)

text \<open>A limit so large that the product overflows ends as the smallest quota.\<close>

lemma milliCPUToQuota_wraps: "milliCPUToQuota (2 ^ 62) 2 = 1000"
  by (simp add: milliCPUToQuota_def Let_def quot_trunc_def milliCPUToCPU_def minQuotaPeriod_def to_int64_def)

lemma Workloads_Validate_ok:
  "Workloads_Validate ws = (ws', Reply ()) \<Longrightarrow> (n, w) \<in> set ws' \<Longrightarrow>
     wl_ActivationAnnotation w \<noteq> '''' \<and> set (wl_AllowedAnnotations w) \<subseteq> set AllAllowedAnnotations \<and>
     wl_DisallowedAnnotations w = filter (\<lambda>a. a \<notin> set (wl_AllowedAnnotations w)) AllAllowedAnnotations \<and>
     ValidateDefaults (wl_Resources w) = Reply ()"
proof (induction ws arbitrary: ws')
  case (Cons x ws)
  obtain name v where x: "x = (name, v)" by force
  obtain v' r where v: "WorkloadConfig_Validate name v = (v', r)" by force
  obtain ws1 r1 where ws: "Workloads_Validate ws = (ws1, r1)" by force
  have r: "r = Reply ()" "ws' = (name, v') # ws1" "r1 = Reply ()"
    using Cons.prems(1) unfolding x by (cases r; simp add: v ws)+
  have "wl_ActivationAnnotation v' \<noteq> '''' \<and> set (wl_AllowedAnnotations v') \<subseteq> set AllAllowedAnnotations \<and>
     wl_DisallowedAnnotations v' = filter (\<lambda>a. a \<notin> set (wl_AllowedAnnotations v')) AllAllowedAnnotations \<and>
     ValidateDefaults (wl_Resources v') = Reply ()"
    using v r(1)
    by (auto simp: WorkloadConfig_Validate_def ValidateWorkloadAllowedAnnotations_def validateAllowed_iff
        split: if_splits sum.splits)
  then show ?case
    using Cons.IH [of ws1] Cons.prems(2) ws r by auto
qed simp

section \<open>Properties\<close>

text \<open>C9: An experimental annotation reaches a pod only if the runtime handler or the workload of
  the pod allows it: when the filter succeeds, an annotation is kept exactly if no key of the
  list of experimental annotations that neither allows is a prefix of it, and kept
  annotations keep their values. With a list that names an unknown annotation the filter
  fails.\<close>

theorem annotations_filtered:
  assumes "AllowedAnnotations r handler = Ok allowed"
    and "al = set allowed \<union> set (Workloads_AllowedAnnotations ws toFind)"
  shows "case FilterDisallowedAnnotations r ws toFind toFilter handler of
       Ok m \<Rightarrow> al \<subseteq> set AllAllowedAnnotations \<and>
         m = (\<lambda>k. if \<exists>d \<in> set AllAllowedAnnotations - al. has_prefix k d then None else toFilter k)
     | Err _ \<Rightarrow> \<not> al \<subseteq> set AllAllowedAnnotations
     | Panic \<Rightarrow> False"
proof (cases "Workloads_FilterDisallowedAnnotations (allowed @ Workloads_AllowedAnnotations ws toFind) toFilter")
  case (Inl e)
  moreover have "\<not> al \<subseteq> set AllAllowedAnnotations"
    using Inl filter_annotations_iff [of "allowed @ Workloads_AllowedAnnotations ws toFind" toFilter] assms(2) by auto
  ultimately show ?thesis using assms(1) by (simp add: FilterDisallowedAnnotations_def)
next
  case (Inr m)
  from Inr [unfolded filter_annotations_iff] Inr show ?thesis
    using assms by (simp add: FilterDisallowedAnnotations_def)
qed

definition sample_runtime :: Runtime where
  "sample_runtime = \<lparr>Runtimes = [''crun'' \<mapsto> \<lparr>RuntimePath = ''/bin/crun'', rh_RuntimeType = ''oci'', rh_PrivilegedWithoutHostDevices = False,
     PlatformRuntimePaths = Map.empty, rh_AllowedAnnotations = [DevicesAnnotation], rh_DefaultAnnotations = Map.empty\<rparr>],
     DefaultRuntime = ''crun'', runtimeImplMap = Map.empty\<rparr>"

definition sample_workloads :: workload_table where
  "sample_workloads = [(''mgmt'', \<lparr>wl_ActivationAnnotation = ''mgmt'', wl_AnnotationPrefix = ''mgmt.io'',
     wl_AllowedAnnotations = [ShmSizeAnnotation], wl_DisallowedAnnotations = [], wl_Resources = None\<rparr>)]"

theorem annotations_filtered_witness:
  "\<exists>m. FilterDisallowedAnnotations sample_runtime sample_workloads [''mgmt'' \<mapsto> '''']
       [''mgmt'' \<mapsto> '''', ShmSizeAnnotation \<mapsto> ''1Gi'', UmaskAnnotation \<mapsto> ''0''] '''' = Ok m \<and>
     m ShmSizeAnnotation = Some ''1Gi'' \<and> m UmaskAnnotation = None \<and> m ''mgmt'' = Some ''''"
proof -
  let ?f = "[''mgmt'' \<mapsto> '''', ShmSizeAnnotation \<mapsto> ''1Gi'', UmaskAnnotation \<mapsto> ''0'']"
  have a: "AllowedAnnotations sample_runtime '''' = Ok [DevicesAnnotation]"
    by (simp add: AllowedAnnotations_def handler_field_def getRuntimeHandler_def sample_runtime_def)
  have w: "Workloads_AllowedAnnotations sample_workloads [''mgmt'' \<mapsto> ''''] = [ShmSizeAnnotation]"
    by (simp add: Workloads_AllowedAnnotations_def workloadGivenActivationAnnotation_def sample_workloads_def)
  let ?al = "{DevicesAnnotation, ShmSizeAnnotation}"
  let ?ds = "filter (\<lambda>a. a \<noteq> DevicesAnnotation \<and> a \<noteq> ShmSizeAnnotation) AllAllowedAnnotations"
  have s: "(\<exists>d \<in> set AllAllowedAnnotations - ?al. has_prefix k d) = list_ex (has_prefix k) ?ds" for k
    by (auto simp: list_ex_iff)
  have k: "list_ex (has_prefix ShmSizeAnnotation) ?ds = False" "list_ex (has_prefix UmaskAnnotation) ?ds = True"
    "list_ex (has_prefix ''mgmt'') ?ds = False" "?al \<subseteq> set AllAllowedAnnotations"
    "ShmSizeAnnotation \<noteq> UmaskAnnotation" "UmaskAnnotation \<noteq> ''mgmt''" "ShmSizeAnnotation \<noteq> ''mgmt''"
    by code_simp+
  have "case FilterDisallowedAnnotations sample_runtime sample_workloads [''mgmt'' \<mapsto> ''''] ?f '''' of
       Ok m \<Rightarrow> ?al \<subseteq> set AllAllowedAnnotations \<and>
         m = (\<lambda>k. if \<exists>d \<in> set AllAllowedAnnotations - ?al. has_prefix k d then None else ?f k)
     | Err _ \<Rightarrow> \<not> ?al \<subseteq> set AllAllowedAnnotations
     | Panic \<Rightarrow> False"
    by (rule annotations_filtered [OF a]) (simp add: w insert_commute)
  then obtain m where "FilterDisallowedAnnotations sample_runtime sample_workloads [''mgmt'' \<mapsto> ''''] ?f '''' = Ok m"
      and "m = (\<lambda>k. if list_ex (has_prefix k) ?ds then None else ?f k)"
    unfolding s using k(4) by (auto split: outcome.splits)
  then show ?thesis using k by (intro exI [of _ m]) simp
qed

text \<open>C35: The CPU quota computed from a limit in thousandths of a CPU is at least one
  millisecond, and unless the product of limit and period overflows 64 bits it is the limit's
  share of the period, of the default period of 100 milliseconds when none is given.\<close>

theorem cpu_limit_quota:
  assumes "resourcesFromAnnotation decode pre name anns defaults = Ok (Some r)" and "anns (pre @ ''/'' @ name) \<noteq> None"
    and "wr_CPULimit r \<noteq> 0"
  shows "1000 \<le> wr_CPUQuota r \<and>
     (let p = (if wr_CPUPeriod r = 0 then 100000 else wr_CPUPeriod r)
      in 0 < wr_CPULimit r \<and> 0 \<le> wr_CPUPeriod r \<and> wr_CPUPeriod r < 2 ^ 63 \<and> wr_CPULimit r * p < 2 ^ 63
         \<longrightarrow> wr_CPUQuota r = max 1000 (wr_CPULimit r * p div 1000))"
proof -
  have q: "wr_CPUQuota r = milliCPUToQuota (wr_CPULimit r) (to_int64 (wr_CPUPeriod r))"
    using assms by (auto simp: resourcesFromAnnotation_def outcome_bind_Ok_iff split: option.splits)
  show ?thesis
    unfolding q Let_def using milliCPUToQuota_min [OF assms(3)]
      milliCPUToQuota_exact [of "wr_CPULimit r" "wr_CPUPeriod r"]
    by (auto simp: in_int64_def)
qed

definition sample_limit :: work_Resources where
  "sample_limit = \<lparr>wr_CPUShares = 0, wr_CPUQuota = 0, wr_CPUPeriod = 0, wr_CPUSet = '''', wr_CPULimit = 250\<rparr>"

theorem cpu_limit_quota_witness:
  "\<exists>r. resourcesFromAnnotation (\<lambda>_. Ok (Some sample_limit)) ''w'' ''c'' [''w/c'' \<mapsto> ''x'']
     (Some (sample_limit\<lparr>wr_CPULimit := 0, wr_CPUPeriod := 50000\<rparr>)) = Ok (Some r) \<and> wr_CPUQuota r = 12500"
proof -
  let ?r = "sample_limit\<lparr>wr_CPUPeriod := 50000, wr_CPUQuota := 12500\<rparr>"
  have e: "resourcesFromAnnotation (\<lambda>_. Ok (Some sample_limit)) ''w'' ''c'' [''w/c'' \<mapsto> ''x'']
     (Some (sample_limit\<lparr>wr_CPULimit := 0, wr_CPUPeriod := 50000\<rparr>)) = Ok (Some ?r)"
    by (simp add: resourcesFromAnnotation_def default_of_def sample_limit_def milliCPUToQuota_def Let_def quot_trunc_def
        milliCPUToCPU_def minQuotaPeriod_def in_int64_def)
  from cpu_limit_quota [OF e] show ?thesis
    using e by (auto simp: sample_limit_def)
qed

text \<open>C36: A workload without default resources lets an annotation crash the server: when a pod
  activates such a workload and its annotation for a container leaves out one of the
  resources, creating the container's specification dereferences a nil pointer.\<close>

theorem workload_without_defaults_panics:
  assumes "workloadGivenActivationAnnotation ws anns = Some w" and "wl_Resources w = None"
    and "anns (wl_AnnotationPrefix w @ ''/'' @ ctrName) = Some val" and "decode val = Ok (Some r)"
    and "wr_CPUSet r = '''' \<or> wr_CPUShares r = 0 \<or> wr_CPUQuota r = 0 \<or> wr_CPUPeriod r = 0 \<or> wr_CPULimit r = 0"
  shows "MutateSpecGivenAnnotations decode ctrName g anns ws = Panic"
proof -
  have "resourcesFromAnnotation decode (wl_AnnotationPrefix w) ctrName anns None = Panic"
    using assms(3-5) by (auto simp: resourcesFromAnnotation_def default_of_def)
  then show ?thesis using assms(1,2) by (simp add: MutateSpecGivenAnnotations_def)
qed

theorem workload_without_defaults_panics_witness:
  "MutateSpecGivenAnnotations (\<lambda>_. Ok (Some sample_limit)) ''c'' empty_SpecGen [''mgmt'' \<mapsto> '''', ''mgmt.io/c'' \<mapsto> ''x''] sample_workloads = Panic"
  by (rule workload_without_defaults_panics [where w = "snd (hd sample_workloads)" and val = "''x''" and r = sample_limit])
    (simp_all add: sample_workloads_def workloadGivenActivationAnnotation_def sample_limit_def)

end
