(* ===== verification/Devices.thy ===== *)
theory Devices
  imports Prelude
begin

text \<open>
  Device nodes: how the entries of the configuration and of the annotation for devices are
  parsed (\<^verbatim>\<open>internal/config/device/device_linux.go\<close>), and which devices and device rules the
  factory writes to the specification of a container
  (\<^verbatim>\<open>internal/factory/container/device_linux.go\<close>).

  The host's device nodes, the walk over a directory, the join of paths that stays below the
  root, and the CDI library are parameters, collected in the record \<open>dev_env\<close>. A pointer in a
  device or a rule is an option.
\<close>

section \<open>Data\<close>

record LinuxDevice =
  ld_Path :: string
  ld_Type :: string
  ld_Major :: int
  ld_Minor :: int
  ld_FileMode :: "int option"
  ld_UID :: int
  ld_GID :: int

record LinuxDeviceCgroup =
  lr_Allow :: bool
  lr_Type :: string
  lr_Major :: "int option"
  lr_Minor :: "int option"
  lr_Access :: string

record Device =
  dv_Device :: LinuxDevice
  dv_Resource :: LinuxDeviceCgroup

text \<open>What \<^verbatim>\<open>devices.DeviceFromPath\<close> reads of a node.\<close>

record dev_node =
  dn_Type :: string
  dn_Major :: int
  dn_Minor :: int
  dn_FileMode :: int
  dn_Uid :: int
  dn_Gid :: int

datatype dev_error = ErrNotADevice | DevError string

datatype stat_result = Present | Missing | StatFailed

record dev_spec =
  ds_Devices :: "LinuxDevice list"
  ds_Rules :: "LinuxDeviceCgroup list"

record dev_env =
  de_DeviceFromPath :: "string \<Rightarrow> dev_error + dev_node"
  de_Stat :: "string \<Rightarrow> stat_result"
  de_SecureJoin :: "string \<Rightarrow> string + string"
  de_IsDirectory :: "string \<Rightarrow> bool"
  de_Walk :: "string \<Rightarrow> string list"
  de_HostDevices :: "string + (string \<times> dev_node) list"
  de_ParseAnnotations :: "str_map \<Rightarrow> string + string list"
  de_InjectDevices :: "string list \<Rightarrow> dev_spec \<Rightarrow> string + dev_spec"

section \<open>Parsing\<close>

text \<open>A letter may occur once.\<close>

fun legal_modes :: "char list \<Rightarrow> string \<Rightarrow> bool" where
  "legal_modes legal [] = True"
| "legal_modes legal (c # cs) = (c \<in> set legal \<and> legal_modes (remove1 c legal) cs)"

definition isValidDeviceMode :: "string \<Rightarrow> bool" where
  "isValidDeviceMode mode = (mode \<noteq> '''' \<and> legal_modes ''rwm'' mode)"

text \<open>The part that the cases for two and three fields share: a second field that reads as a
  mode is one, also when there is a third.\<close>

definition parse_second :: "string \<Rightarrow> string \<Rightarrow> string \<Rightarrow> string + string \<times> string \<times> string" where
  "parse_second src b permissions =
     (if isValidDeviceMode b then Inr (src, src, b)
      else if b \<noteq> '''' \<and> hd b \<noteq> CHR ''/'' then Inl (''invalid device mode: '' @ b)
      else Inr (src, if b = '''' then src else b, permissions))"

definition parseDevice :: "string \<Rightarrow> string + string \<times> string \<times> string" where
  "parseDevice device =
     (case split_on (CHR '':'') device of
        [a] \<Rightarrow> Inr (a, a, ''rwm'')
      | [a, b] \<Rightarrow> parse_second a b ''rwm''
      | [a, b, m] \<Rightarrow> if \<not> isValidDeviceMode m then Inl (''invalid device mode: '' @ m) else parse_second a b m
      | _ \<Rightarrow> Inl (''invalid device specification: '' @ device))"

definition device_of :: "string \<Rightarrow> string \<Rightarrow> dev_node \<Rightarrow> Device" where
  "device_of dst permissions dev =
     \<lparr>dv_Device = \<lparr>ld_Path = dst, ld_Type = dn_Type dev, ld_Major = dn_Major dev, ld_Minor = dn_Minor dev,
        ld_FileMode = Some (dn_FileMode dev), ld_UID = dn_Uid dev, ld_GID = dn_Gid dev\<rparr>,
      dv_Resource = \<lparr>lr_Allow = True, lr_Type = dn_Type dev, lr_Major = Some (dn_Major dev), lr_Minor = Some (dn_Minor dev),
        lr_Access = permissions\<rparr>\<rparr>"

text \<open>\<open>None\<close>: every device is allowed.\<close>

fun devicesFromStrings :: "dev_env \<Rightarrow> string list \<Rightarrow> string set option \<Rightarrow> string + Device list" where
  "devicesFromStrings env [] allowed = Inr []"
| "devicesFromStrings env (d # ds) allowed =
     (if d = '''' then devicesFromStrings env ds allowed
      else case parseDevice d of
             Inl e \<Rightarrow> Inl e
           | Inr (src, dst, permissions) \<Rightarrow>
               if (case allowed of None \<Rightarrow> False | Some al \<Rightarrow> src \<notin> al)
               then Inl (''device '' @ src @ '' is specified but is not in allowed_devices'')
               else if \<not> has_prefix dst ''/dev/'' then Inl (''invalid device mode: '' @ dst)
               else (case de_DeviceFromPath env src of
                       Inl _ \<Rightarrow> Inl (src @ '' is not a valid device'')
                     | Inr dev \<Rightarrow>
                         (case devicesFromStrings env ds allowed of
                            Inl e \<Rightarrow> Inl e | Inr rest \<Rightarrow> Inr (device_of dst permissions dev # rest))))"

definition LoadDevices :: "dev_env \<Rightarrow> string list \<Rightarrow> Device list \<Rightarrow> Device list \<times> string option" where
  "LoadDevices env devsFromConfig devices =
     (case devicesFromStrings env devsFromConfig None of Inl e \<Rightarrow> (devices, Some e) | Inr devs \<Rightarrow> (devs, None))"

definition DevicesFromAnnotation :: "dev_env \<Rightarrow> string \<Rightarrow> string list \<Rightarrow> string + Device list" where
  "DevicesFromAnnotation env annotation allowedDevices =
     devicesFromStrings env (split_on (CHR '','') annotation) (Some (set allowedDevices))"

section \<open>Devices of a container\<close>

fun gen_AddDevice :: "LinuxDevice \<Rightarrow> LinuxDevice list \<Rightarrow> LinuxDevice list" where
  "gen_AddDevice device [] = [device]"
| "gen_AddDevice device (dev # devs) = (if ld_Path dev = ld_Path device then device # devs else dev # gen_AddDevice device devs)"

definition add_device_rule :: "LinuxDevice \<Rightarrow> LinuxDeviceCgroup \<Rightarrow> dev_spec \<Rightarrow> dev_spec" where
  "add_device_rule d r sp = \<lparr>ds_Devices = gen_AddDevice d (ds_Devices sp), ds_Rules = ds_Rules sp @ [r]\<rparr>"

text \<open>The identifier is cut to 32 bits.\<close>

definition getDeviceUserGroupID :: "int option \<Rightarrow> int \<Rightarrow> bool \<Rightarrow> int" where
  "getDeviceUserGroupID runAsVal hostVal enable =
     (case runAsVal of None \<Rightarrow> hostVal
      | Some v \<Rightarrow> (let i = v mod 2 ^ 32 in if 0 < i \<and> enable then i else hostVal))"

record DeviceConfig =
  dc_ContainerPath :: string
  dc_HostPath :: string
  dc_Permissions :: string

record device_request =
  dq_privileged :: bool
  dq_Devices :: "DeviceConfig list"
  dq_RunAsUser :: "int option"
  dq_RunAsGroup :: "int option"
  dq_CDIDevices :: "string list"
  dq_Annotations :: str_map

definition host_device :: "string \<times> dev_node \<Rightarrow> LinuxDevice" where
  "host_device pn = \<lparr>ld_Path = fst pn, ld_Type = dn_Type (snd pn), ld_Major = dn_Major (snd pn), ld_Minor = dn_Minor (snd pn),
     ld_FileMode = None, ld_UID = dn_Uid (snd pn), ld_GID = dn_Gid (snd pn)\<rparr>"

definition specAddHostDevicesIfPrivileged :: "dev_env \<Rightarrow> device_request \<Rightarrow> bool \<Rightarrow> dev_spec \<Rightarrow> string + dev_spec" where
  "specAddHostDevicesIfPrivileged env q privilegedWithoutHostDevices sp =
     (if \<not> dq_privileged q \<or> privilegedWithoutHostDevices then Inr sp
      else case de_HostDevices env of
             Inl e \<Rightarrow> Inl e
           | Inr hds \<Rightarrow>
               Inr \<lparr>ds_Devices = foldl (\<lambda>ds pn. if dn_Major (snd pn) = 0 \<and> dn_Minor (snd pn) = 0 then ds else gen_AddDevice (host_device pn) ds)
                      (ds_Devices sp) hds,
                    ds_Rules = [\<lparr>lr_Allow = True, lr_Type = '''', lr_Major = None, lr_Minor = None, lr_Access = ''rwm''\<rparr>]\<rparr>)"

text \<open>\<^verbatim>\<open>strings.Replace(s, old, new, 1)\<close>.\<close>

fun replace_first :: "string \<Rightarrow> string \<Rightarrow> string \<Rightarrow> string" where
  "replace_first [] old new = (if old = [] then new else [])"
| "replace_first (c # s) old new =
     (if has_prefix (c # s) old then new @ drop (length old) (c # s) else c # replace_first s old new)"

definition config_rule :: "dev_node \<Rightarrow> string \<Rightarrow> LinuxDeviceCgroup" where
  "config_rule dev permissions = \<lparr>lr_Allow = True, lr_Type = dn_Type dev, lr_Major = Some (dn_Major dev), lr_Minor = Some (dn_Minor dev),
     lr_Access = permissions\<rparr>"

definition config_device :: "string \<Rightarrow> dev_node \<Rightarrow> int \<Rightarrow> int \<Rightarrow> LinuxDevice" where
  "config_device path dev uid gid = \<lparr>ld_Path = path, ld_Type = dn_Type dev, ld_Major = dn_Major dev, ld_Minor = dn_Minor dev,
     ld_FileMode = None, ld_UID = uid, ld_GID = gid\<rparr>"

text \<open>The nodes found below a directory; paths that are not devices are left out.\<close>

fun add_walked :: "dev_env \<Rightarrow> string \<Rightarrow> DeviceConfig \<Rightarrow> string list \<Rightarrow> dev_spec \<Rightarrow> dev_spec" where
  "add_walked env path device [] sp = sp"
| "add_walked env path device (dpath # ps) sp =
     (case de_DeviceFromPath env dpath of
        Inl _ \<Rightarrow> add_walked env path device ps sp
      | Inr child \<Rightarrow>
          add_walked env path device ps
            (add_device_rule (config_device (replace_first dpath path (dc_ContainerPath device)) child (dn_Uid child) (dn_Gid child))
               (config_rule child (dc_Permissions device)) sp))"

definition add_config_device :: "dev_env \<Rightarrow> device_request \<Rightarrow> bool \<Rightarrow> DeviceConfig \<Rightarrow> dev_spec \<Rightarrow> string + dev_spec" where
  "add_config_device env q enable device sp =
     (if dq_privileged q \<and> dc_ContainerPath device \<noteq> dc_HostPath device \<and> de_Stat env (dc_ContainerPath device) = Present
      then Inl ''privileged container was configured with a device container path that already exists on the host''
      else if dq_privileged q \<and> dc_ContainerPath device \<noteq> dc_HostPath device \<and> de_Stat env (dc_ContainerPath device) = StatFailed
      then Inl ''error checking if container path exists on host''
      else case de_SecureJoin env (dc_HostPath device) of
             Inl e \<Rightarrow> Inl e
           | Inr path \<Rightarrow>
               (case de_DeviceFromPath env path of
                  Inr dev \<Rightarrow>
                    Inr (add_device_rule
                      (config_device (dc_ContainerPath device) dev
                         (getDeviceUserGroupID (dq_RunAsUser q) (dn_Uid dev) enable) (getDeviceUserGroupID (dq_RunAsGroup q) (dn_Gid dev) enable))
                      (config_rule dev (dc_Permissions device)) sp)
                | Inl e \<Rightarrow>
                    if e = ErrNotADevice \<and> de_IsDirectory env path then Inr (add_walked env path device (de_Walk env path) sp)
                    else Inr sp))"

fun specAddContainerConfigDevices :: "dev_env \<Rightarrow> device_request \<Rightarrow> bool \<Rightarrow> DeviceConfig list \<Rightarrow> dev_spec \<Rightarrow> string + dev_spec" where
  "specAddContainerConfigDevices env q enable [] sp = Inr sp"
| "specAddContainerConfigDevices env q enable (d # ds) sp =
     (case add_config_device env q enable d sp of
        Inl e \<Rightarrow> Inl e | Inr sp' \<Rightarrow> specAddContainerConfigDevices env q enable ds sp')"

text \<open>A device named both ways is requested once. A failure to refresh the registry is ignored.\<close>

definition specInjectCDIDevices :: "dev_env \<Rightarrow> device_request \<Rightarrow> dev_spec \<Rightarrow> string + dev_spec" where
  "specInjectCDIDevices env q sp =
     (case de_ParseAnnotations env (dq_Annotations q) of
        Inl e \<Rightarrow> Inl (''failed to parse CDI device annotations: '' @ e)
      | Inr annotated \<Rightarrow>
          (let requested = dq_CDIDevices q @ filter (\<lambda>n. n \<notin> set (dq_CDIDevices q)) annotated
           in if requested = [] then Inr sp
              else case de_InjectDevices env requested sp of
                     Inl e \<Rightarrow> Inl (''CDI device injection failed: '' @ e) | Inr sp' \<Rightarrow> Inr sp'))"

definition add_devices :: "Device list \<Rightarrow> dev_spec \<Rightarrow> dev_spec" where
  "add_devices ds sp = foldl (\<lambda>sp d. add_device_rule (dv_Device d) (dv_Resource d) sp) sp ds"

definition SpecAddDevices :: "dev_env \<Rightarrow> Device list \<Rightarrow> Device list \<Rightarrow> bool \<Rightarrow> bool \<Rightarrow> device_request \<Rightarrow> dev_spec \<Rightarrow> string + dev_spec" where
  "SpecAddDevices env configuredDevices annotationDevices privilegedWithoutHostDevices enable q sp =
     (let sp1 = add_devices annotationDevices (add_devices configuredDevices (sp\<lparr>ds_Devices := []\<rparr>))
      in case specAddHostDevicesIfPrivileged env q privilegedWithoutHostDevices sp1 of
           Inl e \<Rightarrow> Inl e
         | Inr sp2 \<Rightarrow>
             (case specAddContainerConfigDevices env q enable (dq_Devices q) sp2 of
                Inl e \<Rightarrow> Inl e
              | Inr sp3 \<Rightarrow> specInjectCDIDevices env q sp3))"

section \<open>Lemmas on parsing\<close>

lemma parseDevice_ok:
  assumes "parseDevice d = Inr (src, dst, perm)"
  shows "src = hd (split_on (CHR '':'') d)" and "isValidDeviceMode perm"
proof -
  have r: "isValidDeviceMode ''rwm''" by code_simp
  show "src = hd (split_on (CHR '':'') d)" "isValidDeviceMode perm"
    using assms r by (auto simp: parseDevice_def parse_second_def split: list.splits if_splits)
qed

lemma devicesFromStrings_Cons:
  assumes "devicesFromStrings env (d # ds) allowed = Inr devs" and "d \<noteq> ''''"
  obtains src dst perm dev rest where "parseDevice d = Inr (src, dst, perm)" "de_DeviceFromPath env src = Inr dev"
    "has_prefix dst ''/dev/''" "\<forall>al. allowed = Some al \<longrightarrow> src \<in> al" "devicesFromStrings env ds allowed = Inr rest"
    "devs = device_of dst perm dev # rest"
  using assms by (auto split: if_splits sum.splits option.splits)

lemma devicesFromStrings_ok:
  "devicesFromStrings env ds allowed = Inr devs \<Longrightarrow> v \<in> set devs \<Longrightarrow>
     \<exists>d src dst perm dev. d \<in> set ds \<and> parseDevice d = Inr (src, dst, perm) \<and> de_DeviceFromPath env src = Inr dev \<and>
       v = device_of dst perm dev \<and> has_prefix dst ''/dev/'' \<and> (\<forall>al. allowed = Some al \<longrightarrow> src \<in> al)"
proof (induction ds arbitrary: devs)
  case (Cons d ds)
  show ?case
  proof (cases "d = ''''")
    case True
    then show ?thesis using Cons.IH [of devs] Cons.prems by auto
  next
    case False
    from Cons.prems(1) False obtain src dst perm dev rest where
      d: "parseDevice d = Inr (src, dst, perm)" "de_DeviceFromPath env src = Inr dev" "has_prefix dst ''/dev/''"
        "\<forall>al. allowed = Some al \<longrightarrow> src \<in> al" "devicesFromStrings env ds allowed = Inr rest" "devs = device_of dst perm dev # rest"
      by (rule devicesFromStrings_Cons)
    show ?thesis
    proof (cases "v = device_of dst perm dev")
      case True
      then show ?thesis using d by auto
    next
      case False
      then show ?thesis using Cons.IH [OF d(5)] Cons.prems(2) d(6) by auto
    qed
  qed
qed simp

lemma legal_modes_iff: "distinct legal \<Longrightarrow> legal_modes legal s \<longleftrightarrow> distinct s \<and> set s \<subseteq> set legal"
  by (induction legal s rule: legal_modes.induct) auto

lemma isValidDeviceMode_iff: "isValidDeviceMode m \<longleftrightarrow> m \<noteq> '''' \<and> distinct m \<and> set m \<subseteq> {CHR ''r'', CHR ''w'', CHR ''m''}"
  by (auto simp: isValidDeviceMode_def legal_modes_iff)

text \<open>The destination is compared with the prefix as it stands, so that it may leave the
  directory again.\<close>

lemma device_destination_escapes:
  "case parseDevice ''/dev/null:/dev/../etc/ld.so.preload'' of Inr (_, dst, _) \<Rightarrow>
     has_prefix dst ''/dev/'' \<and> path_clean dst = ''/etc/ld.so.preload'' | Inl _ \<Rightarrow> False"
  by code_simp

section \<open>Lemmas on the specification\<close>

lemma gen_AddDevice_set: "set (gen_AddDevice d ds) \<subseteq> insert d (set ds)" "d \<in> set (gen_AddDevice d ds)"
  by (induction d ds rule: gen_AddDevice.induct) auto

lemma gen_AddDevice_paths: "distinct (map ld_Path ds) \<Longrightarrow> distinct (map ld_Path (gen_AddDevice d ds))"
proof -
  have "ld_Path ` set (gen_AddDevice d ds) = insert (ld_Path d) (ld_Path ` set ds)" for ds
    by (induction d ds rule: gen_AddDevice.induct) auto
  then show "distinct (map ld_Path ds) \<Longrightarrow> distinct (map ld_Path (gen_AddDevice d ds))"
    by (induction d ds rule: gen_AddDevice.induct) auto
qed

text \<open>A rule covers a device when it allows its type and numbers, or everything.\<close>

definition covers :: "LinuxDeviceCgroup \<Rightarrow> LinuxDevice \<Rightarrow> bool" where
  "covers r d \<longleftrightarrow> lr_Allow r \<and> (lr_Type r = '''' \<or> lr_Type r = ld_Type d) \<and>
     (lr_Major r = None \<or> lr_Major r = Some (ld_Major d)) \<and> (lr_Minor r = None \<or> lr_Minor r = Some (ld_Minor d))"

definition devices_covered :: "dev_spec \<Rightarrow> bool" where
  "devices_covered sp \<longleftrightarrow> distinct (map ld_Path (ds_Devices sp)) \<and> (\<forall>d \<in> set (ds_Devices sp). \<exists>r \<in> set (ds_Rules sp). covers r d)"

lemma add_device_rule_covered: "devices_covered sp \<Longrightarrow> covers r d \<Longrightarrow> devices_covered (add_device_rule d r sp)"
  using gen_AddDevice_set(1) [of d "ds_Devices sp"]
  by (force simp: devices_covered_def add_device_rule_def gen_AddDevice_paths)

lemma add_devices_covered:
  "devices_covered sp \<Longrightarrow> \<forall>d \<in> set ds. covers (dv_Resource d) (dv_Device d) \<Longrightarrow> devices_covered (add_devices ds sp)"
  by (induction ds arbitrary: sp) (simp_all add: add_devices_def add_device_rule_covered)

lemma specAddHostDevices_covered:
  assumes "specAddHostDevicesIfPrivileged env q without sp = Inr sp'" and "devices_covered sp"
  shows "devices_covered sp'"
proof -
  have "distinct (map ld_Path (foldl (\<lambda>ds pn. if dn_Major (snd pn) = 0 \<and> dn_Minor (snd pn) = 0 then ds else gen_AddDevice (host_device pn) ds) ds hds))"
    if "distinct (map ld_Path ds)" for ds :: "LinuxDevice list" and hds :: "(string \<times> dev_node) list"
    using that by (induction hds arbitrary: ds) (simp_all add: gen_AddDevice_paths)
  with assms show ?thesis
    by (auto simp: specAddHostDevicesIfPrivileged_def devices_covered_def covers_def split: if_splits sum.splits)
qed

lemma config_covers: "covers (config_rule dev p) (config_device path dev u g)"
  by (simp add: covers_def config_rule_def config_device_def)

lemma add_walked_covered: "devices_covered sp \<Longrightarrow> devices_covered (add_walked env path device ps sp)"
  by (induction env path device ps sp rule: add_walked.induct)
    (simp_all add: add_device_rule_covered config_covers split: sum.split)

lemma specAddContainerConfigDevices_covered:
  "specAddContainerConfigDevices env q enable ds sp = Inr sp' \<Longrightarrow> devices_covered sp \<Longrightarrow> devices_covered sp'"
proof (induction env q enable ds sp rule: specAddContainerConfigDevices.induct)
  case (2 env q enable d ds sp)
  obtain sp1 where sp1: "add_config_device env q enable d sp = Inr sp1"
    using 2(2) by (auto split: sum.splits)
  then have "devices_covered sp1"
    using 2(3) by (auto simp: add_config_device_def add_device_rule_covered add_walked_covered config_covers
        split: if_splits sum.splits)
  then show ?case using 2(1) [OF sp1] 2(2) sp1 by simp
qed simp

text \<open>Without privileges every rule is one the request was entitled to: of the configuration,
  of the annotation, or of a requested device with the requested permissions.\<close>

definition rule_from :: "dev_env \<Rightarrow> device_request \<Rightarrow> LinuxDeviceCgroup \<Rightarrow> bool" where
  "rule_from env q r \<longleftrightarrow> (\<exists>d \<in> set (dq_Devices q). \<exists>path dev. de_DeviceFromPath env path = Inr dev \<and> r = config_rule dev (dc_Permissions d))"

lemma add_walked_rules:
  "\<forall>r \<in> set (ds_Rules sp). r \<in> R \<or> rule_from env q r \<Longrightarrow> device \<in> set (dq_Devices q) \<Longrightarrow>
     \<forall>r \<in> set (ds_Rules (add_walked env path device ps sp)). r \<in> R \<or> rule_from env q r"
proof (induction env path device ps sp rule: add_walked.induct)
  case (2 env path device dpath ps sp)
  show ?case
  proof (cases "de_DeviceFromPath env dpath")
    case (Inr child)
    then have "rule_from env q (config_rule child (dc_Permissions device))"
      using 2(4) unfolding rule_from_def by blast
    then show ?thesis using 2(2) [OF Inr] 2(3,4) Inr by (simp add: add_device_rule_def)
  qed (use 2 in simp)
qed simp

lemma specAddContainerConfigDevices_rules:
  "specAddContainerConfigDevices env q enable ds sp = Inr sp' \<Longrightarrow> set ds \<subseteq> set (dq_Devices q) \<Longrightarrow>
     \<forall>r \<in> set (ds_Rules sp). r \<in> R \<or> rule_from env q r \<Longrightarrow> \<forall>r \<in> set (ds_Rules sp'). r \<in> R \<or> rule_from env q r"
proof (induction env q enable ds sp rule: specAddContainerConfigDevices.induct)
  case (2 env q enable d ds sp)
  obtain sp1 where sp1: "add_config_device env q enable d sp = Inr sp1"
    using 2(2) by (auto split: sum.splits)
  have d: "d \<in> set (dq_Devices q)" using 2(3) by simp
  have "rule_from env q (config_rule dev (dc_Permissions d))" if "de_DeviceFromPath env path = Inr dev" for path dev
    unfolding rule_from_def using d that by blast
  then have "\<forall>r \<in> set (ds_Rules sp1). r \<in> R \<or> rule_from env q r"
    using sp1 2(4) add_walked_rules [OF 2(4) d]
    by (auto simp: add_config_device_def add_device_rule_def split: if_splits sum.splits)
  then show ?case using 2(1) [OF sp1] 2(2,3) sp1 by simp
qed simp

lemma device_of_covers: "covers (dv_Resource (device_of dst perm dev)) (dv_Device (device_of dst perm dev))"
  by (simp add: covers_def device_of_def)

lemma devicesFromStrings_covers:
  "devicesFromStrings env ds allowed = Inr devs \<Longrightarrow> v \<in> set devs \<Longrightarrow> covers (dv_Resource v) (dv_Device v)"
  using devicesFromStrings_ok device_of_covers by blast

lemma add_devices_rules: "set (ds_Rules (add_devices ds sp)) = set (ds_Rules sp) \<union> dv_Resource ` set ds"
  by (induction ds arbitrary: sp) (auto simp: add_devices_def add_device_rule_def)

section \<open>Properties\<close>

text \<open>C10: A device that a pod asks for by annotation is given to its containers only if its
  path on the host is one of the allowed devices and a device node; it appears in the
  container under a path that starts with /dev/, with the type and numbers of that node, and
  the rule for it allows some of reading, writing and making nodes and nothing else.\<close>

theorem annotated_devices_allowed:
  assumes "DevicesFromAnnotation env annotation allowed = Inr devs" and "v \<in> set devs"
  shows "\<exists>d dev. d \<in> set (split_on (CHR '','') annotation) \<and> hd (split_on (CHR '':'') d) \<in> set allowed \<and>
     de_DeviceFromPath env (hd (split_on (CHR '':'') d)) = Inr dev \<and> has_prefix (ld_Path (dv_Device v)) ''/dev/'' \<and>
     ld_Type (dv_Device v) = dn_Type dev \<and> ld_Major (dv_Device v) = dn_Major dev \<and> ld_Minor (dv_Device v) = dn_Minor dev \<and>
     covers (dv_Resource v) (dv_Device v) \<and> lr_Major (dv_Resource v) = Some (dn_Major dev) \<and> lr_Minor (dv_Resource v) = Some (dn_Minor dev) \<and>
     distinct (lr_Access (dv_Resource v)) \<and> set (lr_Access (dv_Resource v)) \<subseteq> {CHR ''r'', CHR ''w'', CHR ''m''}"
proof -
  from devicesFromStrings_ok [OF assms(1) [unfolded DevicesFromAnnotation_def] assms(2)]
  obtain d src dst perm dev where d: "d \<in> set (split_on (CHR '','') annotation)" "parseDevice d = Inr (src, dst, perm)"
      "de_DeviceFromPath env src = Inr dev" "v = device_of dst perm dev" "has_prefix dst ''/dev/''"
      "\<forall>al. Some (set allowed) = Some al \<longrightarrow> src \<in> al"
    by (elim exE conjE)
  have al: "src \<in> set allowed" using d(6) by simp
  have m: "distinct perm" "set perm \<subseteq> {CHR ''r'', CHR ''w'', CHR ''m''}"
    using parseDevice_ok(2) [OF d(2)] unfolding isValidDeviceMode_iff by blast+
  have v: "ld_Path (dv_Device v) = dst" "ld_Type (dv_Device v) = dn_Type dev" "ld_Major (dv_Device v) = dn_Major dev"
      "ld_Minor (dv_Device v) = dn_Minor dev" "lr_Major (dv_Resource v) = Some (dn_Major dev)" "lr_Minor (dv_Resource v) = Some (dn_Minor dev)"
      "lr_Access (dv_Resource v) = perm" "covers (dv_Resource v) (dv_Device v)"
    unfolding d(4) by (simp_all add: device_of_covers) (simp_all add: device_of_def)
  show ?thesis
    by (rule exI [of _ d], rule exI [of _ dev]) (simp only: v parseDevice_ok(1) [OF d(2), symmetric] d(1,3,5) al m simp_thms)
qed

definition sample_node :: dev_node where
  "sample_node = \<lparr>dn_Type = ''c'', dn_Major = 10, dn_Minor = 229, dn_FileMode = 438, dn_Uid = 0, dn_Gid = 0\<rparr>"

definition sample_dev_env :: dev_env where
  "sample_dev_env = \<lparr>de_DeviceFromPath = (\<lambda>p. if p = ''/dev/fuse'' then Inr sample_node else Inl ErrNotADevice), de_Stat = (\<lambda>_. Missing),
     de_SecureJoin = Inr, de_IsDirectory = (\<lambda>_. False), de_Walk = (\<lambda>_. []), de_HostDevices = Inr [], de_ParseAnnotations = (\<lambda>_. Inr []),
     de_InjectDevices = (\<lambda>_ sp. Inr sp)\<rparr>"

theorem annotated_devices_allowed_witness:
  "\<exists>v. DevicesFromAnnotation sample_dev_env ''/dev/fuse:/dev/f:rw'' [''/dev/fuse''] = Inr [v] \<and> ld_Path (dv_Device v) = ''/dev/f'' \<and>
     set (lr_Access (dv_Resource v)) \<subseteq> {CHR ''r'', CHR ''w'', CHR ''m''}"
proof -
  have e: "DevicesFromAnnotation sample_dev_env ''/dev/fuse:/dev/f:rw'' [''/dev/fuse''] = Inr [device_of ''/dev/f'' ''rw'' sample_node]"
    by code_simp
  have "set (lr_Access (dv_Resource (device_of ''/dev/f'' ''rw'' sample_node))) \<subseteq> {CHR ''r'', CHR ''w'', CHR ''m''}"
    using annotated_devices_allowed [OF e, of "device_of ''/dev/f'' ''rw'' sample_node", OF list.set_intros(1)] by (elim exE conjE)
  then show ?thesis using e by (simp add: device_of_def)
qed


definition sample_device_request :: device_request where
  "sample_device_request = \<lparr>dq_privileged = False, dq_Devices = [\<lparr>dc_ContainerPath = ''/dev/g'', dc_HostPath = ''/dev/fuse'', dc_Permissions = ''r''\<rparr>],
     dq_RunAsUser = Some 1000, dq_RunAsGroup = None, dq_CDIDevices = [], dq_Annotations = Map.empty\<rparr>"


end
