(* ===== verification/Sysctls.thy ===== *)
theory Sysctls
  imports Prelude
begin

text \<open>
  Kernel parameters: the list in the configuration and the check that a parameter is one the
  kernel keeps per namespace (\<^verbatim>\<open>pkg/config/sysctl.go\<close>), and the parameters a pod gets
  (\<^verbatim>\<open>configureGeneratorForSysctls\<close> of \<^verbatim>\<open>server/sandbox_run_linux.go\<close>).
\<close>

type_synonym Sysctl = "string \<times> string"

text \<open>Empty entries are skipped; the key is what stands before the first equals sign.\<close>

fun parse_sysctls :: "string list \<Rightarrow> string + Sysctl list" where
  "parse_sysctls [] = Inr []"
| "parse_sysctls (sysctl # rest) =
     (if sysctl = '''' then parse_sysctls rest
      else case split_two (CHR ''='') sysctl of
             [k, v] \<Rightarrow>
               if trim_space k @ ''='' @ trim_space v \<noteq> sysctl then Inl (sysctl @ '' is invalid, extra spaces found'')
               else (case parse_sysctls rest of Inl e \<Rightarrow> Inl e | Inr kvs \<Rightarrow> Inr ((k, v) # kvs))
           | _ \<Rightarrow> Inl (sysctl @ '' is not in key=value format''))"

definition config_Sysctls :: "string list \<Rightarrow> string + Sysctl list" where
  "config_Sysctls defaultSysctls = parse_sysctls defaultSysctls"

datatype kernel_namespace = IpcNamespace | NetNamespace

definition sysctl_namespaces :: "(string \<times> kernel_namespace) list" where
  "sysctl_namespaces = [(''kernel.sem'', IpcNamespace)]"

text \<open>No key of the table is a prefix of another, so the order in which the loop over the map
  meets them does not matter.\<close>

definition prefixNamespaces :: "(string \<times> kernel_namespace) list" where
  "prefixNamespaces = [(''kernel.shm'', IpcNamespace), (''kernel.msg'', IpcNamespace), (''fs.mqueue.'', IpcNamespace), (''net.'', NetNamespace)]"

definition sysctl_Validate :: "bool \<Rightarrow> bool \<Rightarrow> Sysctl \<Rightarrow> string option" where
  "sysctl_Validate hostNet hostIPC s =
     (case map_of sysctl_namespaces (fst s) of
        Some ns \<Rightarrow> if ns = IpcNamespace \<and> hostIPC then Some (fst s @ '' not allowed with host ipc enabled'') else None
      | None \<Rightarrow>
          (case find (\<lambda>(p, _). has_prefix (fst s) p) prefixNamespaces of
             Some (_, ns) \<Rightarrow>
               if ns = IpcNamespace \<and> hostIPC then Some (fst s @ '' not allowed with host ipc enabled'')
               else if ns = NetNamespace \<and> hostNet then Some (fst s @ '' not allowed with host net enabled'')
               else None
           | None \<Rightarrow> Some (fst s @ '' not whitelisted'')))"

text \<open>One of the two loops: invalid parameters are skipped with a warning, the others are written
  to the specification and to the result.\<close>

fun add_sysctls :: "bool \<Rightarrow> bool \<Rightarrow> Sysctl list \<Rightarrow> str_map \<times> str_map \<Rightarrow> str_map \<times> str_map" where
  "add_sysctls hostNet hostIPC [] st = st"
| "add_sysctls hostNet hostIPC (s # ss) (g, ret) =
     (if sysctl_Validate hostNet hostIPC s \<noteq> None then add_sysctls hostNet hostIPC ss (g, ret)
      else add_sysctls hostNet hostIPC ss (g(fst s \<mapsto> snd s), ret(fst s \<mapsto> snd s)))"

text \<open>A list in the configuration that does not parse counts as empty. The second component of
  the result is the returned map, the first the parameters of the specification. The
  parameters of the request are given in the order of the loop over them.\<close>

definition configureGeneratorForSysctls :: "string list \<Rightarrow> bool \<Rightarrow> bool \<Rightarrow> Sysctl list \<Rightarrow> str_map \<Rightarrow> str_map \<times> str_map" where
  "configureGeneratorForSysctls defaultSysctls hostNetwork hostIPC sysctls g =
     (let defaults = (case config_Sysctls defaultSysctls of Inl _ \<Rightarrow> [] | Inr kvs \<Rightarrow> kvs)
      in add_sysctls hostNetwork hostIPC sysctls (add_sysctls hostNetwork hostIPC defaults (g, Map.empty)))"

section \<open>Lemmas\<close>

text \<open>The namespace that keeps a parameter.\<close>

definition namespace_of :: "string \<Rightarrow> kernel_namespace option" where
  "namespace_of k =
     (if k = ''kernel.sem'' \<or> has_prefix k ''kernel.shm'' \<or> has_prefix k ''kernel.msg'' \<or> has_prefix k ''fs.mqueue.'' then Some IpcNamespace
      else if has_prefix k ''net.'' then Some NetNamespace else None)"

definition sysctl_allowed :: "bool \<Rightarrow> bool \<Rightarrow> string \<Rightarrow> bool" where
  "sysctl_allowed hostNet hostIPC k =
     (case namespace_of k of None \<Rightarrow> False | Some IpcNamespace \<Rightarrow> \<not> hostIPC | Some NetNamespace \<Rightarrow> \<not> hostNet)"

lemma sysctl_Validate_iff: "sysctl_Validate hostNet hostIPC s = None \<longleftrightarrow> sysctl_allowed hostNet hostIPC (fst s)"
  by (auto simp: sysctl_Validate_def sysctl_allowed_def namespace_of_def sysctl_namespaces_def prefixNamespaces_def)

lemma add_sysctls_lookup:
  "snd (add_sysctls hn hi ss st) k =
     (if sysctl_allowed hn hi k then (case map_of (rev ss) k of Some v \<Rightarrow> Some v | None \<Rightarrow> snd st k) else snd st k)"
  "fst (add_sysctls hn hi ss st) k =
     (if sysctl_allowed hn hi k then (case map_of (rev ss) k of Some v \<Rightarrow> Some v | None \<Rightarrow> fst st k) else fst st k)"
  by (induction hn hi ss st rule: add_sysctls.induct)
    (auto simp: sysctl_Validate_iff map_add_def split: option.splits)

lemma parse_sysctls_ok:
  "parse_sysctls ss = Inr kvs \<Longrightarrow> (k, v) \<in> set kvs \<Longrightarrow> k @ ''='' @ v \<in> set ss \<and> CHR ''='' \<notin> set k"
proof (induction ss arbitrary: kvs)
  case (Cons s ss)
  show ?case
  proof (cases "s = ''''")
    case True
    then show ?thesis using Cons.IH [of kvs] Cons.prems by simp
  next
    case False
    then obtain k' v' kvs' where s: "split_two (CHR ''='') s = [k', v']" "parse_sysctls ss = Inr kvs'" "kvs = (k', v') # kvs'"
      using Cons.prems(1) by (auto split: list.splits if_splits sum.splits)
    have "s = k' @ ''='' @ v' \<and> CHR ''='' \<notin> set k'"
      using s(1) set_takeWhileD [of "CHR ''=''" "\<lambda>x. x \<noteq> CHR ''=''" s] takeWhile_dropWhile_id [of "\<lambda>x. x \<noteq> CHR ''=''" s]
        hd_dropWhile [of "\<lambda>x. x \<noteq> CHR ''=''" s]
      by (cases "dropWhile (\<lambda>x. x \<noteq> CHR ''='') s") (auto simp: split_two_def split: if_splits)
    then show ?thesis using Cons.IH [OF s(2)] Cons.prems(2) s(3) by auto
  qed
qed simp

section \<open>Property\<close>



end
