(* ===== verification/Runtime_Config.thy ===== *)
theory Runtime_Config
  imports Workloads Devices Sysctls Cgroups
begin

text \<open>
  The validation of the runtime part of the configuration (\<^verbatim>\<open>pkg/config/config.go\<close> and
  \<^verbatim>\<open>config_linux.go\<close>): the default runtime, the table of runtime handlers, the fields of the
  container monitor, and the checks around them; with the limits
  (\<^verbatim>\<open>internal/config/ulimits\<close>), the probe of the monitor's version
  (\<^verbatim>\<open>internal/config/conmonmgr\<close>) and the validation of the API and root sections.

  Validation changes the configuration as it goes, so a step takes the configuration and the
  files of the host and returns them with its result; the steps of a method run in order
  until one of them fails. The table of handlers is a Go map, given as the list of its entries
  in the order a loop happens to meet them. Programs found in the search path, the output of
  commands, and the loaders of profiles are parameters (\<open>cfg_env\<close>).
\<close>

section \<open>Data\<close>

record handler_features =
  ft_OCIVersionMin :: string
  ft_OCIVersionMax :: string
  ft_MountOptions :: "string list"
  ft_IDMapEnabled :: "bool option"
  ft_RecursiveReadOnlyMounts :: bool

record handler_config = RuntimeHandler +
  rh_RuntimeConfigPath :: string
  rh_RuntimeRoot :: string
  rh_DisallowedAnnotations :: "string list"
  rh_MonitorPath :: string
  rh_MonitorCgroup :: string
  rh_MonitorEnv :: "string list"
  rh_ContainerMinMemory :: string
  rh_NoSyncLog :: bool
  rh_InheritDefaultRuntime :: bool
  rh_features :: handler_features

type_synonym handler_table = "(string \<times> handler_config) list"

record Ulimit =
  ul_Name :: string
  ul_Hard :: int
  ul_Soft :: int

record ConmonManager =
  conmonVersion :: string
  supportsSync :: bool
  supportsLogGlobalSizeMax :: bool

datatype load_result = Loaded | LoadNotExist | LoadFailed string

record cfg_env =
  ev_LookPath :: "string \<Rightarrow> string option"
  ev_Stat :: "string \<Rightarrow> stat_result"
  ev_Output :: "string \<Rightarrow> string \<Rightarrow> string option"
  ev_RAMInBytes :: "string \<Rightarrow> int option"
  ev_BytesSize :: "int \<Rightarrow> string"
  ev_decodeFeatures :: "string \<Rightarrow> handler_features \<Rightarrow> string + handler_features"
  ev_kernelRRO :: bool
  ev_semver :: "string \<Rightarrow> bool"
  ev_semverGTE :: "string \<Rightarrow> string \<Rightarrow> bool"
  ev_parseUlimit :: "string \<Rightarrow> string + string \<times> int \<times> int"
  ev_devices :: dev_env
  ev_timezone :: "string \<Rightarrow> bool"
  ev_ValidateCapabilities :: "string list \<Rightarrow> string option"
  ev_cgroupV2 :: bool
  ev_cdiConfigure :: "string list \<Rightarrow> string option"
  ev_nsInitialize :: "string \<Rightarrow> string \<Rightarrow> string option"
  ev_seccompLoad :: "string \<Rightarrow> load_result"
  ev_seccompDefault :: "string option"
  ev_apparmorLoad :: "string \<Rightarrow> string option"
  ev_blockioLoad :: "string \<Rightarrow> string option"
  ev_rdtLoad :: "string \<Rightarrow> string option"
  ev_dial :: "string \<Rightarrow> bool"

record RuntimeConfig =
  rt_DefaultUlimits :: "string list"
  rt_ulimits :: "Ulimit list"
  rt_AdditionalDevices :: "string list"
  rt_devices :: "Device list"
  rt_Runtimes :: handler_table
  rt_DefaultRuntime :: string
  rt_Timezone :: string
  rt_LogSizeMax :: int
  rt_CtrStopTimeout :: int
  rt_DefaultSysctls :: "string list"
  rt_DefaultCapabilities :: "string list"
  rt_InfraCtrCPUSet :: string
  rt_commandPrefix :: "string list"
  rt_Workloads :: workload_table
  rt_CgroupManagerName :: string
  rt_cgroupManager :: "CgroupManager option"
  rt_HooksDir :: "string list"
  rt_CDISpecDirs :: "string list"
  rt_PinnsPath :: string
  rt_NamespacesDir :: string
  rt_SeccompProfile :: string
  rt_ApparmorProfile :: string
  rt_BlockIOConfigFile :: string
  rt_RdtConfigFile :: string
  rt_ConmonCgroup :: string
  rt_Conmon :: string
  rt_ConmonEnv :: "string list"
  rt_conmonManager :: "ConmonManager option"

definition DefaultRuntime_name :: string where
  "DefaultRuntime_name = ''crun''"

definition DefaultRuntimeType :: string where
  "DefaultRuntimeType = ''oci''"

definition RuntimeTypeVM :: string where
  "RuntimeTypeVM = ''vm''"

definition RuntimeTypePod :: string where
  "RuntimeTypePod = ''pod''"

definition defaultMonitorCgroup :: string where
  "defaultMonitorCgroup = ''system.slice''"

definition defaultContainerMinMemory :: int where
  "defaultContainerMinMemory = 12 * 1024 * 1024"

definition defaultCtrStopTimeout :: int where
  "defaultCtrStopTimeout = 30"

definition OCIBufSize :: int where
  "OCIBufSize = 8192"

section \<open>One handler\<close>

text \<open>The pattern for the binaries of VM runtimes is searched for anywhere in the name.\<close>

definition shim_char :: "char \<Rightarrow> bool" where
  "shim_char c =
     (let n = (of_char c :: nat) in (97 \<le> n \<and> n \<le> 122) \<or> (65 \<le> n \<and> n \<le> 90) \<or> is_digit c \<or> c = CHR ''-'' \<or> c = CHR ''+'')"

definition shim_here :: "string \<Rightarrow> bool" where
  "shim_here s =
     (has_prefix s ''containerd-shim-'' \<and>
      (let t = drop 16 s in list_ex (\<lambda>k. list_all shim_char (take k t) \<and> has_prefix (drop k t) ''-v2'') [1..<Suc (length t)]))"

definition matches_shim :: "string \<Rightarrow> bool" where
  "matches_shim s = list_ex (\<lambda>k. shim_here (drop k s)) [0..<Suc (length s)]"

definition ValidateRuntimeVMBinaryPattern :: "handler_config \<Rightarrow> bool" where
  "ValidateRuntimeVMBinaryPattern r = (if rh_RuntimeType r \<noteq> RuntimeTypeVM then True else matches_shim (filepath_Base (RuntimePath r)))"

definition ValidateRuntimeType :: "string \<Rightarrow> handler_config \<Rightarrow> string option" where
  "ValidateRuntimeType name r =
     (if rh_RuntimeType r \<noteq> '''' \<and> rh_RuntimeType r \<noteq> DefaultRuntimeType \<and> rh_RuntimeType r \<noteq> RuntimeTypeVM \<and> rh_RuntimeType r \<noteq> RuntimeTypePod
      then Some (''invalid runtime_type for runtime '' @ name) else None)"

definition ValidateRuntimePath :: "cfg_env \<Rightarrow> string \<Rightarrow> handler_config \<Rightarrow> handler_config \<times> string option" where
  "ValidateRuntimePath env name r =
     (let check = (\<lambda>r. (r, if ValidateRuntimeVMBinaryPattern r then None else Some (''invalid runtime_path for runtime '' @ name)))
      in if RuntimePath r = ''''
         then (case ev_LookPath env name of
                 None \<Rightarrow> (r, Some (name @ '' not found in $PATH''))
               | Some executable \<Rightarrow> check (r\<lparr>RuntimePath := executable\<rparr>))
         else if ev_Stat env (RuntimePath r) = Missing then (r, Some (''invalid runtime_path for runtime '' @ name))
         else check r)"

definition ValidateRuntimeConfigPath :: "cfg_env \<Rightarrow> string \<Rightarrow> handler_config \<Rightarrow> string option" where
  "ValidateRuntimeConfigPath env name r =
     (if rh_RuntimeConfigPath r = '''' then None
      else if rh_RuntimeType r \<noteq> RuntimeTypeVM then Some ''runtime_config_path can only be used with the 'vm' runtime type''
      else if ev_Stat env (rh_RuntimeConfigPath r) = Missing then Some (''invalid runtime_config_path for runtime '' @ name)
      else None)"

definition ValidateRuntimeAllowedAnnotations :: "handler_config \<Rightarrow> handler_config \<times> string option" where
  "ValidateRuntimeAllowedAnnotations r =
     (case validateAllowedAndGenerateDisallowedAnnotations (rh_AllowedAnnotations r) of
        Inl e \<Rightarrow> (r, Some e) | Inr disallowed \<Rightarrow> (r\<lparr>rh_DisallowedAnnotations := disallowed\<rparr>, None))"

text \<open>The caller only logs the error; the value is then the default.\<close>

definition ValidateContainerMinMemory :: "cfg_env \<Rightarrow> handler_config \<Rightarrow> handler_config \<times> string option" where
  "ValidateContainerMinMemory env r =
     (let r1 = (if rh_ContainerMinMemory r = '''' then r\<lparr>rh_ContainerMinMemory := ev_BytesSize env defaultContainerMinMemory\<rparr> else r)
      in case ev_RAMInBytes env (rh_ContainerMinMemory r1) of
           None \<Rightarrow> (r1\<lparr>rh_ContainerMinMemory := ev_BytesSize env defaultContainerMinMemory\<rparr>, Some ''unable to set runtime memory'')
         | Some _ \<Rightarrow> (r1, None))"

definition ValidateNoSyncLog :: "handler_config \<Rightarrow> string option" where
  "ValidateNoSyncLog r =
     (if \<not> rh_NoSyncLog r then None
      else if rh_RuntimeType r = DefaultRuntimeType \<or> rh_RuntimeType r = '''' then None
      else Some ''no_sync_log is only allowed with runtime type oci'')"

definition handler_Validate :: "cfg_env \<Rightarrow> string \<Rightarrow> handler_config \<Rightarrow> handler_config \<times> string option" where
  "handler_Validate env name r =
     (case ValidateRuntimeType name r of Some e \<Rightarrow> (r, Some e)
      | None \<Rightarrow>
          (case ValidateRuntimePath env name r of (r1, Some e) \<Rightarrow> (r1, Some e)
           | (r1, None) \<Rightarrow>
               (case ValidateRuntimeConfigPath env name r1 of Some e \<Rightarrow> (r1, Some e)
                | None \<Rightarrow>
                    (case ValidateRuntimeAllowedAnnotations r1 of (r2, Some e) \<Rightarrow> (r2, Some e)
                     | (r2, None) \<Rightarrow>
                         (let r3 = fst (ValidateContainerMinMemory env r2) in (r3, ValidateNoSyncLog r3))))))"

text \<open>The document must name the versions of the specification; the fields it has are kept in any
  case.\<close>

definition LoadRuntimeFeatures :: "cfg_env \<Rightarrow> string \<Rightarrow> handler_config \<Rightarrow> handler_config \<times> string option" where
  "LoadRuntimeFeatures env input r =
     (case ev_decodeFeatures env input (rh_features r) of
        Inl e \<Rightarrow> (r, Some (''unable to unmarshal features structure: '' @ e))
      | Inr f \<Rightarrow> (r\<lparr>rh_features := f\<rparr>,
                 if ft_OCIVersionMin f = '''' \<or> ft_OCIVersionMax f = '''' then Some ''runtime features structure is not valid'' else None))"

definition RuntimeSupportsIDMap :: "handler_config \<Rightarrow> bool" where
  "RuntimeSupportsIDMap r = (ft_IDMapEnabled (rh_features r) = Some True)"

definition RuntimeSupportsMountFlag :: "string \<Rightarrow> handler_config \<Rightarrow> bool" where
  "RuntimeSupportsMountFlag flag r = (flag \<in> set (ft_MountOptions (rh_features r)))"

section \<open>The table of handlers\<close>

definition defaultRuntimeHandler :: "cfg_env \<Rightarrow> handler_config" where
  "defaultRuntimeHandler env =
     \<lparr>RuntimePath = '''', rh_RuntimeType = DefaultRuntimeType, rh_PrivilegedWithoutHostDevices = False, PlatformRuntimePaths = Map.empty,
      rh_AllowedAnnotations = [OCISeccompBPFHookAnnotation, DevicesAnnotation], rh_DefaultAnnotations = Map.empty,
      rh_RuntimeConfigPath = '''', rh_RuntimeRoot = ''/run/crun'', rh_DisallowedAnnotations = [], rh_MonitorPath = '''',
      rh_MonitorCgroup = defaultMonitorCgroup, rh_MonitorEnv = [''PATH=/usr/local/sbin:/usr/local/bin:/usr/sbin:/usr/bin:/sbin:/bin''],
      rh_ContainerMinMemory = ev_BytesSize env (500 * 1024), rh_NoSyncLog = False, rh_InheritDefaultRuntime = False,
      rh_features = \<lparr>ft_OCIVersionMin = '''', ft_OCIVersionMax = '''', ft_MountOptions = [], ft_IDMapEnabled = None, ft_RecursiveReadOnlyMounts = False\<rparr>\<rparr>"

definition ValidateDefaultRuntime :: "cfg_env \<Rightarrow> RuntimeConfig \<Rightarrow> RuntimeConfig \<times> string option" where
  "ValidateDefaultRuntime env c =
     (if map_of (rt_Runtimes c) (rt_DefaultRuntime c) \<noteq> None then (c, None)
      else if rt_DefaultRuntime c \<noteq> '''' then (c, Some ''default_runtime set, but no runtime entry table was found'')
      else (let rs = (if map_of (rt_Runtimes c) DefaultRuntime_name = None
                      then rt_Runtimes c @ [(DefaultRuntime_name, defaultRuntimeHandler env)] else rt_Runtimes c)
            in (c\<lparr>rt_Runtimes := rs, rt_DefaultRuntime := DefaultRuntime_name\<rparr>, None)))"

text \<open>What a handler inherits from the default one, which may be that handler itself.\<close>

definition inherit_from :: "cfg_env \<Rightarrow> string \<Rightarrow> handler_config \<Rightarrow> handler_config \<Rightarrow> handler_config" where
  "inherit_from env default_name d r =
     r\<lparr>RuntimePath := (if RuntimePath d = '''' then (case ev_LookPath env default_name of None \<Rightarrow> '''' | Some e \<Rightarrow> e) else RuntimePath d),
       rh_RuntimeType := rh_RuntimeType d, rh_RuntimeConfigPath := rh_RuntimeConfigPath d, rh_RuntimeRoot := rh_RuntimeRoot d\<rparr>"

text \<open>The names are those of the table at the start; each handler is read where the table now
  has it.\<close>

fun inherit_all :: "cfg_env \<Rightarrow> string \<Rightarrow> string list \<Rightarrow> handler_table \<Rightarrow> (string, handler_table) outcome" where
  "inherit_all env default_name [] rs = Ok rs"
| "inherit_all env default_name (name # ns) rs =
     (case map_of rs name of None \<Rightarrow> Panic
      | Some r \<Rightarrow>
          if \<not> rh_InheritDefaultRuntime r then inherit_all env default_name ns rs
          else (case map_of rs default_name of None \<Rightarrow> Panic
                | Some d \<Rightarrow> inherit_all env default_name ns
                             (map (\<lambda>(n, h). (n, if n = name then inherit_from env default_name d h else h)) rs)))"

text \<open>The validated table and the names that failed; the default handler's error ends the loop.\<close>

fun validate_all :: "cfg_env \<Rightarrow> string \<Rightarrow> handler_table \<Rightarrow> handler_table \<times> string list \<times> string option" where
  "validate_all env default_name [] = ([], [], None)"
| "validate_all env default_name ((name, r) # rs) =
     (case handler_Validate env name r of
        (r', None) \<Rightarrow> (let (rs', failed, err) = validate_all env default_name rs in ((name, r') # rs', failed, err))
      | (r', Some e) \<Rightarrow>
          if default_name = name then ((name, r') # rs, [], Some e)
          else (let (rs', failed, err) = validate_all env default_name rs in ((name, r') # rs', name # failed, err)))"

definition initialize_features :: "cfg_env \<Rightarrow> handler_config \<Rightarrow> handler_config" where
  "initialize_features env r =
     (case (ev_Output env (RuntimePath r) ''--version'', ev_Output env (RuntimePath r) ''features'') of
        (Some _, Some out) \<Rightarrow>
          (case LoadRuntimeFeatures env out r of
             (r1, Some _) \<Rightarrow> r1
           | (r1, None) \<Rightarrow> r1\<lparr>rh_features := (rh_features r1)\<lparr>ft_RecursiveReadOnlyMounts := RuntimeSupportsMountFlag ''rro'' r1 \<and> ev_kernelRRO env\<rparr>\<rparr>)
      | _ \<Rightarrow> r)"

definition ValidateRuntimes :: "cfg_env \<Rightarrow> RuntimeConfig \<Rightarrow> RuntimeConfig \<times> unit reply" where
  "ValidateRuntimes env c =
     (case inherit_all env (rt_DefaultRuntime c) (map fst (rt_Runtimes c)) (rt_Runtimes c) of
        Panic \<Rightarrow> (c, Crash) | Err e \<Rightarrow> (c, Fail e)
      | Ok rs \<Rightarrow>
          (case validate_all env (rt_DefaultRuntime c) rs of
             (rs', failed, Some e) \<Rightarrow> (c\<lparr>rt_Runtimes := rs'\<rparr>, Fail e)
           | (rs', failed, None) \<Rightarrow>
               (c\<lparr>rt_Runtimes := map (\<lambda>(n, r). (n, initialize_features env r)) (filter (\<lambda>(n, _). n \<notin> set failed) rs')\<rparr>, Reply ())))"

section \<open>The monitor\<close>

definition validateExecutablePath :: "cfg_env \<Rightarrow> string \<Rightarrow> string \<Rightarrow> string + string" where
  "validateExecutablePath env executable currentPath =
     (if currentPath = '''' then (case ev_LookPath env executable of None \<Rightarrow> Inl (executable @ '' not found'') | Some p \<Rightarrow> Inr p)
      else if ev_Stat env currentPath \<noteq> Present then Inl (''invalid '' @ executable @ '' path'')
      else Inr currentPath)"

definition conmonmgr_New :: "cfg_env \<Rightarrow> string \<Rightarrow> string + ConmonManager" where
  "conmonmgr_New env conmonPath =
     (if \<not> has_prefix conmonPath ''/'' then Inl (''conmon path is not absolute: '' @ conmonPath)
      else case ev_Output env conmonPath ''--version'' of
             None \<Rightarrow> Inl ''get conmon version''
           | Some out \<Rightarrow>
               (let fields = str_fields out
                in if length fields < 3 then Inl ''conmon version output too short''
                   else if \<not> ev_semver env (fields ! 2) then Inl ''parse conmon version''
                   else Inr \<lparr>conmonVersion = fields ! 2, supportsSync = ev_semverGTE env (fields ! 2) ''2.0.19'',
                             supportsLogGlobalSizeMax = (ev_semverGTE env (fields ! 2) ''2.1.2'' \<or>
                               (case ev_Output env conmonPath ''--help'' of None \<Rightarrow> False | Some help \<Rightarrow> str_contains help ''--log-global-size-max''))\<rparr>))"

text \<open>A failed lookup leaves the empty path in the handler, a failed probe no manager.\<close>

definition ValidateConmonPath :: "cfg_env \<Rightarrow> string \<Rightarrow> handler_config \<Rightarrow> RuntimeConfig \<Rightarrow> handler_config \<times> RuntimeConfig \<times> string option" where
  "ValidateConmonPath env executable r c =
     (case validateExecutablePath env executable (rh_MonitorPath r) of
        Inl e \<Rightarrow> (r\<lparr>rh_MonitorPath := ''''\<rparr>, c, Some e)
      | Inr p \<Rightarrow>
          (case conmonmgr_New env p of
             Inl e \<Rightarrow> (r\<lparr>rh_MonitorPath := p\<rparr>, c\<lparr>rt_conmonManager := None\<rparr>, Some e)
           | Inr m \<Rightarrow> (r\<lparr>rh_MonitorPath := p\<rparr>, c\<lparr>rt_conmonManager := Some m\<rparr>, None)))"

definition monitor_fields :: "RuntimeConfig \<Rightarrow> handler_config \<Rightarrow> handler_config" where
  "monitor_fields c r =
     (let r1 = (if rt_ConmonCgroup c \<noteq> '''' then r\<lparr>rh_MonitorCgroup := rt_ConmonCgroup c\<rparr> else r);
          r2 = (if rt_Conmon c \<noteq> '''' then r1\<lparr>rh_MonitorPath := rt_Conmon c\<rparr> else r1);
          r3 = (if length (rt_ConmonEnv c) \<noteq> 0 then r2\<lparr>rh_MonitorEnv := rt_ConmonEnv c\<rparr> else r2)
      in if rh_MonitorCgroup r3 = '''' then r3\<lparr>rh_MonitorCgroup := defaultMonitorCgroup\<rparr> else r3)"

text \<open>The cgroup manager is an interface that is nil before it is configured.\<close>

definition check_monitor_cgroup :: "CgroupManager option \<Rightarrow> handler_config \<Rightarrow> unit reply" where
  "check_monitor_cgroup mgr r =
     (case mgr of None \<Rightarrow> Crash
      | Some m \<Rightarrow>
          if \<not> cm_systemd m
          then (if rh_MonitorCgroup r \<noteq> ''pod'' \<and> rh_MonitorCgroup r \<noteq> ''''
                then Fail ''cgroupfs manager conmon cgroup should be 'pod' or empty'' else Reply ())
          else if \<not> (rh_MonitorCgroup r = ''pod'' \<or> has_suffix (rh_MonitorCgroup r) ''.slice'')
          then Fail ''conmon cgroup should be 'pod' or a systemd slice''
          else Reply ())"

definition TranslateMonitorFieldsForHandler :: "cfg_env \<Rightarrow> bool \<Rightarrow> handler_config \<Rightarrow> RuntimeConfig \<Rightarrow> handler_config \<times> RuntimeConfig \<times> unit reply" where
  "TranslateMonitorFieldsForHandler env onExecution r c =
     (let r1 = monitor_fields c r
      in if \<not> onExecution then (r1, c, Reply ())
         else (case ValidateConmonPath env ''conmon'' r1 c of
                 (r2, c2, Some e) \<Rightarrow> (r2, c2, Fail e)
               | (r2, c2, None) \<Rightarrow> (r2, c2, check_monitor_cgroup (rt_cgroupManager c2) r2)))"

text \<open>The handlers already visited, in order, are in front.\<close>

fun translate_all :: "cfg_env \<Rightarrow> bool \<Rightarrow> handler_table \<Rightarrow> RuntimeConfig \<Rightarrow> handler_table \<times> RuntimeConfig \<times> unit reply" where
  "translate_all env onExecution [] c = ([], c, Reply ())"
| "translate_all env onExecution ((name, r) # rs) c =
     (if rh_RuntimeType r = DefaultRuntimeType \<or> rh_RuntimeType r = ''''
      then (case TranslateMonitorFieldsForHandler env onExecution r c of
              (r', c', Reply _) \<Rightarrow> (let (rs', c'', res) = translate_all env onExecution rs c' in ((name, r') # rs', c'', res))
            | (r', c', res) \<Rightarrow> ((name, r') # rs, c', res))
      else (let (rs', c'', res) = translate_all env onExecution rs c in ((name, r) # rs', c'', res)))"

definition TranslateMonitorFields :: "cfg_env \<Rightarrow> bool \<Rightarrow> RuntimeConfig \<Rightarrow> RuntimeConfig \<times> unit reply" where
  "TranslateMonitorFields env onExecution c =
     (let (rs, c', res) = translate_all env onExecution (rt_Runtimes c) c in (c'\<lparr>rt_Runtimes := rs\<rparr>, res))"

section \<open>The runtime section\<close>

text \<open>Limits are appended to those already loaded.\<close>

fun LoadUlimits :: "cfg_env \<Rightarrow> string list \<Rightarrow> Ulimit list \<Rightarrow> Ulimit list \<times> string option" where
  "LoadUlimits env [] us = (us, None)"
| "LoadUlimits env (u # rest) us =
     (case ev_parseUlimit env u of
        Inl e \<Rightarrow> (us, Some (''unrecognized ulimit '' @ u @ '': '' @ e))
      | Inr (name, hard, soft) \<Rightarrow> LoadUlimits env rest (us @ [\<lparr>ul_Name = ''RLIMIT_'' @ to_upper name, ul_Hard = hard, ul_Soft = soft\<rparr>]))"

definition Capabilities_Validate :: "cfg_env \<Rightarrow> string list \<Rightarrow> string option" where
  "Capabilities_Validate env cps = ev_ValidateCapabilities env (map (\<lambda>cp. ''CAP_'' @ to_upper cp) cps)"

text \<open>\<^verbatim>\<open>utils.IsDirectory\<close> and the use of a directory for hooks: one that exists, or can be made.\<close>

definition usable_hooks_dir :: "string \<Rightarrow> host \<Rightarrow> host \<times> bool" where
  "usable_hooks_dir d h =
     (if hf_unstatable h d then (h, False)
      else case hf_nodes h d of
             Some Dir \<Rightarrow> (h, True)
           | Some (File _) \<Rightarrow> (h, False)
           | None \<Rightarrow> (case os_MkdirAll d h of (h', None) \<Rightarrow> (h', True) | (h', Some _) \<Rightarrow> (h', False)))"

fun usable_hooks_dirs :: "string list \<Rightarrow> host \<Rightarrow> host \<times> string list" where
  "usable_hooks_dirs [] h = (h, [])"
| "usable_hooks_dirs (d # ds) h =
     (let (h1, ok) = usable_hooks_dir d h; (h2, rest) = usable_hooks_dirs ds h1 in (h2, if ok then d # rest else rest))"

type_synonym vstate = "RuntimeConfig \<times> host"
type_synonym vstep = "vstate \<Rightarrow> vstate \<times> unit reply"

definition v_check :: "(RuntimeConfig \<Rightarrow> string option) \<Rightarrow> vstep" where
  "v_check f s = (s, case f (fst s) of None \<Rightarrow> Reply () | Some e \<Rightarrow> Fail e)"

definition v_config :: "(RuntimeConfig \<Rightarrow> RuntimeConfig \<times> unit reply) \<Rightarrow> vstep" where
  "v_config f s = (let (c, r) = f (fst s) in ((c, snd s), r))"

definition v_change :: "(RuntimeConfig \<Rightarrow> RuntimeConfig) \<Rightarrow> vstep" where
  "v_change f s = ((f (fst s), snd s), Reply ())"

definition load_limits :: "cfg_env \<Rightarrow> RuntimeConfig \<Rightarrow> RuntimeConfig \<times> unit reply" where
  "load_limits env c =
     (let (us, e) = LoadUlimits env (rt_DefaultUlimits c) (rt_ulimits c)
      in (c\<lparr>rt_ulimits := us\<rparr>, case e of None \<Rightarrow> Reply () | Some e \<Rightarrow> Fail e))"

definition load_config_devices :: "cfg_env \<Rightarrow> RuntimeConfig \<Rightarrow> RuntimeConfig \<times> unit reply" where
  "load_config_devices env c =
     (let (ds, e) = LoadDevices (ev_devices env) (rt_AdditionalDevices c) (rt_devices c)
      in (c\<lparr>rt_devices := ds\<rparr>, case e of None \<Rightarrow> Reply () | Some e \<Rightarrow> Fail e))"

definition default_runtime_step :: "cfg_env \<Rightarrow> RuntimeConfig \<Rightarrow> RuntimeConfig \<times> unit reply" where
  "default_runtime_step env c = (let (c', e) = ValidateDefaultRuntime env c in (c', case e of None \<Rightarrow> Reply () | Some e \<Rightarrow> Fail e))"

definition check_timezone :: "cfg_env \<Rightarrow> RuntimeConfig \<Rightarrow> string option" where
  "check_timezone env c =
     (if rt_Timezone c \<noteq> '''' \<and> \<not> equal_fold (rt_Timezone c) ''local'' \<and> \<not> ev_timezone env (rt_Timezone c)
      then Some (''invalid timezone: '' @ rt_Timezone c) else None)"

definition check_log_size :: "RuntimeConfig \<Rightarrow> string option" where
  "check_log_size c = (if 0 \<le> rt_LogSizeMax c \<and> rt_LogSizeMax c < OCIBufSize then Some ''log size max should be negative or >= 8192'' else None)"

definition raise_stop_timeout :: "RuntimeConfig \<Rightarrow> RuntimeConfig" where
  "raise_stop_timeout c = (if rt_CtrStopTimeout c < defaultCtrStopTimeout then c\<lparr>rt_CtrStopTimeout := defaultCtrStopTimeout\<rparr> else c)"

definition check_sysctls :: "RuntimeConfig \<Rightarrow> string option" where
  "check_sysctls c = (case config_Sysctls (rt_DefaultSysctls c) of Inl e \<Rightarrow> Some (''invalid default_sysctls: '' @ e) | Inr _ \<Rightarrow> None)"

text \<open>Every later command is prefixed so that it runs on the CPUs of the infra containers.\<close>

definition infra_cpuset_step :: "cfg_env \<Rightarrow> RuntimeConfig \<Rightarrow> RuntimeConfig \<times> unit reply" where
  "infra_cpuset_step env c =
     (if rt_InfraCtrCPUSet c = '''' then (c, Reply ())
      else case cpu_Parse (rt_InfraCtrCPUSet c) of
             Fail e \<Rightarrow> (c, Fail (''invalid infra_ctr_cpuset: '' @ e)) | Crash \<Rightarrow> (c, Crash) | Hang \<Rightarrow> (c, Hang)
           | Reply cpus \<Rightarrow>
               (case ev_LookPath env ''taskset'' of
                  None \<Rightarrow> (c, Fail ''taskset not found in $PATH'')
                | Some executable \<Rightarrow> (c\<lparr>rt_commandPrefix := [executable, ''--cpu-list'', cpu_String cpus]\<rparr>, Reply ())))"

definition workloads_step :: "RuntimeConfig \<Rightarrow> RuntimeConfig \<times> unit reply" where
  "workloads_step c = (let (ws, r) = Workloads_Validate (rt_Workloads c) in (c\<lparr>rt_Workloads := ws\<rparr>, r))"

definition cgroup_manager_step :: "cfg_env \<Rightarrow> RuntimeConfig \<Rightarrow> RuntimeConfig \<times> unit reply" where
  "cgroup_manager_step env c =
     (case SetCgroupManager (ev_cgroupV2 env) (rt_CgroupManagerName c) of
        Inl e \<Rightarrow> (c, Fail (''unable to update cgroup manager: '' @ e)) | Inr m \<Rightarrow> (c\<lparr>rt_cgroupManager := Some m\<rparr>, Reply ()))"

definition hooks_dir_step :: vstep where
  "hooks_dir_step s = (let (h, ds) = usable_hooks_dirs (rt_HooksDir (fst s)) (snd s) in (((fst s)\<lparr>rt_HooksDir := ds\<rparr>, h), Reply ()))"

definition ValidatePinnsPath :: "cfg_env \<Rightarrow> RuntimeConfig \<Rightarrow> RuntimeConfig \<times> unit reply" where
  "ValidatePinnsPath env c =
     (case validateExecutablePath env ''pinns'' (rt_PinnsPath c) of
        Inl e \<Rightarrow> (c\<lparr>rt_PinnsPath := ''''\<rparr>, Fail (''pinns validation: '' @ e)) | Inr p \<Rightarrow> (c\<lparr>rt_PinnsPath := p\<rparr>, Reply ()))"

definition check_seccomp :: "cfg_env \<Rightarrow> RuntimeConfig \<Rightarrow> string option" where
  "check_seccomp env c =
     (case ev_seccompLoad env (rt_SeccompProfile c) of
        Loaded \<Rightarrow> None | LoadFailed e \<Rightarrow> Some (''unable to load seccomp profile: '' @ e) | LoadNotExist \<Rightarrow> ev_seccompDefault env)"

definition execution_steps :: "cfg_env \<Rightarrow> vstep list" where
  "execution_steps env =
     [v_config (cgroup_manager_step env), v_config (ValidateRuntimes env), hooks_dir_step,
      v_check (\<lambda>c. ev_cdiConfigure env (rt_CDISpecDirs c)), v_config (ValidatePinnsPath env),
      v_check (\<lambda>c. ev_nsInitialize env (rt_NamespacesDir c) (rt_PinnsPath c)), v_check (check_seccomp env),
      v_check (\<lambda>c. ev_apparmorLoad env (rt_ApparmorProfile c)), v_check (\<lambda>c. ev_blockioLoad env (rt_BlockIOConfigFile c)),
      v_check (\<lambda>c. ev_rdtLoad env (rt_RdtConfigFile c))]"

definition RuntimeConfig_Validate :: "cfg_env \<Rightarrow> bool \<Rightarrow> vstep" where
  "RuntimeConfig_Validate env onExecution =
     v_steps ([v_config (load_limits env), v_config (load_config_devices env), v_config (default_runtime_step env),
       v_check (check_timezone env), v_check check_log_size, v_change raise_stop_timeout, v_check check_sysctls,
       v_check (\<lambda>c. Capabilities_Validate env (rt_DefaultCapabilities c)), v_config (infra_cpuset_step env), v_config workloads_step] @
       (if onExecution then execution_steps env else []) @
       [v_config (TranslateMonitorFields env onExecution)])"

section \<open>The API and root sections\<close>

record APIConfig =
  api_Listen :: string
  api_GRPCMaxSendMsgSize :: int
  api_GRPCMaxRecvMsgSize :: int
  api_StreamEnableTLS :: bool
  api_StreamTLSCert :: string
  api_StreamTLSKey :: string

definition defaultGRPCMaxMsgSize :: int where
  "defaultGRPCMaxMsgSize = 80 * 1024 * 1024"

text \<open>A socket somebody still answers on is kept.\<close>

definition RemoveUnusedSocket :: "cfg_env \<Rightarrow> string \<Rightarrow> unit io" where
  "RemoveUnusedSocket env path =
     io_seq (io_step (os_MkdirAll (filepath_Dir path)))
       (\<lambda>h. if hf_unstatable h path \<or> hf_nodes h path = None then (h, Reply ())
            else if ev_dial env path then (h, Fail (''already existing connection on '' @ path))
            else io_step (os_Remove path) h)"

definition APIConfig_Validate :: "cfg_env \<Rightarrow> bool \<Rightarrow> APIConfig \<Rightarrow> host \<Rightarrow> APIConfig \<times> host \<times> unit reply" where
  "APIConfig_Validate env onExecution c h =
     (let c1 = (if api_GRPCMaxSendMsgSize c \<le> 0 then c\<lparr>api_GRPCMaxSendMsgSize := defaultGRPCMaxMsgSize\<rparr> else c);
          c2 = (if api_GRPCMaxRecvMsgSize c1 \<le> 0 then c1\<lparr>api_GRPCMaxRecvMsgSize := defaultGRPCMaxMsgSize\<rparr> else c1)
      in if api_StreamEnableTLS c2 \<and> api_StreamTLSCert c2 = '''' then (c2, h, Fail ''stream TLS cert path is empty'')
         else if api_StreamEnableTLS c2 \<and> api_StreamTLSKey c2 = '''' then (c2, h, Fail ''stream TLS key path is empty'')
         else if onExecution then (let (h', r) = RemoveUnusedSocket env (api_Listen c2) h in (c2, h', r))
         else (c2, h, Reply ()))"

definition RootConfig_Validate :: "bool \<Rightarrow> string \<Rightarrow> unit io" where
  "RootConfig_Validate onExecution dir =
     (if \<not> onExecution then io_return ()
      else if \<not> has_prefix dir ''/'' then io_fail ''log_dir is not an absolute path''
      else io_step (os_MkdirAll dir))"

section \<open>Handlers after validation\<close>

definition handler_ok :: "cfg_env \<Rightarrow> handler_config \<Rightarrow> bool" where
  "handler_ok env r \<longleftrightarrow>
     rh_RuntimeType r \<in> {'''', DefaultRuntimeType, RuntimeTypeVM, RuntimeTypePod} \<and> RuntimePath r \<noteq> '''' \<and>
     ValidateRuntimeVMBinaryPattern r \<and> (rh_RuntimeConfigPath r \<noteq> '''' \<longrightarrow> rh_RuntimeType r = RuntimeTypeVM) \<and>
     set (rh_AllowedAnnotations r) \<subseteq> set AllAllowedAnnotations \<and>
     rh_DisallowedAnnotations r = filter (\<lambda>a. a \<notin> set (rh_AllowedAnnotations r)) AllAllowedAnnotations \<and>
     ev_RAMInBytes env (rh_ContainerMinMemory r) \<noteq> None \<and>
     (rh_NoSyncLog r \<longrightarrow> rh_RuntimeType r = DefaultRuntimeType \<or> rh_RuntimeType r = '''')"

text \<open>A program found in the search path has a path, and the printed default size is a size.\<close>

definition env_ok :: "cfg_env \<Rightarrow> bool" where
  "env_ok env \<longleftrightarrow> (\<forall>n p. ev_LookPath env n = Some p \<longrightarrow> p \<noteq> '''') \<and>
     ev_RAMInBytes env (ev_BytesSize env defaultContainerMinMemory) \<noteq> None"

lemma min_memory_ok:
  assumes "env_ok env" and "ValidateContainerMinMemory env r = (r', e)"
  shows "ev_RAMInBytes env (rh_ContainerMinMemory r') \<noteq> None"
    and "\<exists>m. r' = r\<lparr>rh_ContainerMinMemory := m\<rparr>"
proof -
  have "\<exists>m. r = r\<lparr>rh_ContainerMinMemory := m\<rparr>" by (rule exI [of _ "rh_ContainerMinMemory r"]) simp
  then show "\<exists>m. r' = r\<lparr>rh_ContainerMinMemory := m\<rparr>"
    using assms(2) by (auto simp: ValidateContainerMinMemory_def Let_def split: option.splits if_splits)
  show "ev_RAMInBytes env (rh_ContainerMinMemory r') \<noteq> None"
    using assms by (auto simp: ValidateContainerMinMemory_def Let_def env_ok_def split: option.splits if_splits)
qed

lemma runtime_path_ok:
  assumes "env_ok env" and "ValidateRuntimePath env name r = (r', None)"
  shows "RuntimePath r' \<noteq> ''''" and "ValidateRuntimeVMBinaryPattern r'" and "\<exists>p. r' = r\<lparr>RuntimePath := p\<rparr>"
proof -
  have "\<exists>p. r = r\<lparr>RuntimePath := p\<rparr>" by (rule exI [of _ "RuntimePath r"]) simp
  then show "RuntimePath r' \<noteq> ''''" "ValidateRuntimeVMBinaryPattern r'" "\<exists>p. r' = r\<lparr>RuntimePath := p\<rparr>"
    using assms by (auto simp: ValidateRuntimePath_def Let_def env_ok_def split: option.splits if_splits)
qed

lemma handler_Validate_ok:
  assumes env: "env_ok env" and ok: "handler_Validate env name r = (r', None)"
  shows "handler_ok env r'"
proof -
  obtain r1 r2 where t: "ValidateRuntimeType name r = None" and p: "ValidateRuntimePath env name r = (r1, None)"
      and c: "ValidateRuntimeConfigPath env name r1 = None" and a: "ValidateRuntimeAllowedAnnotations r1 = (r2, None)"
      and m: "r' = fst (ValidateContainerMinMemory env r2)" and n: "ValidateNoSyncLog r' = None"
    using ok by (auto simp: handler_Validate_def Let_def split: option.splits prod.splits)
  obtain q where r1: "r1 = r\<lparr>RuntimePath := q\<rparr>" using runtime_path_ok(3) [OF env p] by blast
  obtain ds where ds: "validateAllowedAndGenerateDisallowedAnnotations (rh_AllowedAnnotations r1) = Inr ds" and r2: "r2 = r1\<lparr>rh_DisallowedAnnotations := ds\<rparr>"
    using a by (auto simp: ValidateRuntimeAllowedAnnotations_def split: sum.splits)
  have mem: "ValidateContainerMinMemory env r2 = (r', snd (ValidateContainerMinMemory env r2))" using m by simp
  obtain s where r': "r' = r2\<lparr>rh_ContainerMinMemory := s\<rparr>" using min_memory_ok(2) [OF env mem] by blast
  show ?thesis
    using t c n runtime_path_ok(1,2) [OF env p] min_memory_ok(1) [OF env mem] ds [unfolded validateAllowed_iff]
    by (auto simp: handler_ok_def r' r2 r1 ValidateRuntimeType_def ValidateRuntimeConfigPath_def ValidateNoSyncLog_def
        ValidateRuntimeVMBinaryPattern_def split: if_splits)
qed

lemma handler_ok_updates [simp]:
  "handler_ok env (r\<lparr>rh_features := f\<rparr>) = handler_ok env r" "handler_ok env (r\<lparr>rh_MonitorPath := p\<rparr>) = handler_ok env r"
  "handler_ok env (r\<lparr>rh_MonitorCgroup := p\<rparr>) = handler_ok env r" "handler_ok env (r\<lparr>rh_MonitorEnv := e\<rparr>) = handler_ok env r"
  unfolding handler_ok_def ValidateRuntimeVMBinaryPattern_def by simp_all

lemma LoadRuntimeFeatures_ok: "handler_ok env (fst (LoadRuntimeFeatures env input r)) = handler_ok env r"
  by (cases "ev_decodeFeatures env input (rh_features r)") (simp_all add: LoadRuntimeFeatures_def)

lemma initialize_features_ok: "handler_ok env (initialize_features env r) = handler_ok env r"
proof (cases "ev_Output env (RuntimePath r) ''--version'' = None \<or> ev_Output env (RuntimePath r) ''features'' = None")
  case True
  then have "initialize_features env r = r" by (auto simp: initialize_features_def split: option.split)
  then show ?thesis by simp
next
  case False
  then obtain a out where o: "ev_Output env (RuntimePath r) ''--version'' = Some a" "ev_Output env (RuntimePath r) ''features'' = Some out"
    by auto
  obtain r1 e where l: "LoadRuntimeFeatures env out r = (r1, e)" by force
  then have "handler_ok env r1 = handler_ok env r" using LoadRuntimeFeatures_ok [of env out r] by simp
  then show ?thesis by (cases e) (simp_all add: initialize_features_def o l)
qed

lemma validate_all_ok:
  assumes "env_ok env"
  shows "validate_all env d rs = (rs', failed, None) \<Longrightarrow> distinct (map fst rs) \<Longrightarrow>
     map fst rs' = map fst rs \<and> d \<notin> set failed \<and> set failed \<subseteq> set (map fst rs) \<and>
     (\<forall>(n, r) \<in> set rs'. n \<notin> set failed \<longrightarrow> handler_ok env r)"
proof (induction rs arbitrary: rs' failed)
  case (Cons x rs)
  obtain name r where x: "x = (name, r)" by force
  obtain r' e where v: "handler_Validate env name r = (r', e)" by force
  obtain rs1 f1 e1 where t: "validate_all env d rs = (rs1, f1, e1)" by (metis prod_cases3)
  have e1: "e1 = None" "rs' = (name, r') # rs1" "failed = (if e = None then f1 else name # f1)" "e \<noteq> None \<longrightarrow> d \<noteq> name"
    using Cons.prems(1) by (auto simp: x v t split: option.splits if_splits)
  have IH: "map fst rs1 = map fst rs" "d \<notin> set f1" "set f1 \<subseteq> set (map fst rs)" "\<forall>(n, r) \<in> set rs1. n \<notin> set f1 \<longrightarrow> handler_ok env r"
    using Cons.IH [of rs1 f1] t e1(1) Cons.prems(2) by auto
  have "e = None \<longrightarrow> handler_ok env r'" using handler_Validate_ok [OF assms] v by auto
  moreover have "name \<notin> set (map fst rs1)" using Cons.prems(2) IH(1) by (simp add: x)
  ultimately show ?case using IH e1 by (cases e) (auto simp: x)
qed simp

lemma inherit_all_names: "inherit_all env d ns rs = Ok rs' \<Longrightarrow> map fst rs' = map fst rs"
proof (induction env d ns rs rule: inherit_all.induct)
  case (2 env d name ns rs)
  have "map fst (map (\<lambda>(n, h). (n, if n = name then f h else h)) rs) = map fst rs" for f :: "handler_config \<Rightarrow> handler_config"
    by auto
  with 2 show ?case by (auto split: option.splits if_splits)
qed simp

lemma map_of_ex: "map_of xs k \<noteq> None \<longleftrightarrow> k \<in> fst ` set xs"
  by (simp add: map_of_eq_None_iff)

lemma ValidateRuntimes_ok:
  assumes env: "env_ok env" and ok: "ValidateRuntimes env c = (c', Reply ())"
    and names: "distinct (map fst (rt_Runtimes c))" and def: "rt_DefaultRuntime c \<in> fst ` set (rt_Runtimes c)"
  shows "\<exists>rs. c' = c\<lparr>rt_Runtimes := rs\<rparr> \<and> distinct (map fst rs) \<and> rt_DefaultRuntime c \<in> fst ` set rs \<and> (\<forall>x \<in> set rs. handler_ok env (snd x))"
proof -
  obtain rs1 where i: "inherit_all env (rt_DefaultRuntime c) (map fst (rt_Runtimes c)) (rt_Runtimes c) = Ok rs1"
    using ok by (auto simp: ValidateRuntimes_def split: outcome.splits)
  obtain rs2 failed err where v0: "validate_all env (rt_DefaultRuntime c) rs1 = (rs2, failed, err)"
    by (metis prod_cases3)
  have "err = None" using ok by (cases err) (simp_all add: ValidateRuntimes_def i v0)
  note v = v0 [unfolded this]
  let ?rs = "map (\<lambda>(n, r). (n, initialize_features env r)) (filter (\<lambda>(n, _). n \<notin> set failed) rs2)"
  have c': "c' = c\<lparr>rt_Runtimes := ?rs\<rparr>" using ok i v by (simp add: ValidateRuntimes_def)
  have n1: "map fst rs1 = map fst (rt_Runtimes c)" by (rule inherit_all_names [OF i])
  have k: "map fst rs2 = map fst rs1" "rt_DefaultRuntime c \<notin> set failed" "\<forall>(n, r) \<in> set rs2. n \<notin> set failed \<longrightarrow> handler_ok env r"
    using validate_all_ok [OF env v] names unfolding n1 [symmetric] by simp_all
  have f: "map fst ?rs = map fst (filter (\<lambda>(n, _). n \<notin> set failed) rs2)" by auto
  have "distinct (map fst rs2)" using k(1) n1 names by simp
  then have d: "distinct (map fst ?rs)" unfolding f by (rule distinct_map_filter)
  have "fst ` set ?rs = fst ` set rs2 - set failed" by force
  moreover have "fst ` set rs2 = fst ` set (rt_Runtimes c)" using k(1) n1 by (metis list.set_map)
  ultimately have "rt_DefaultRuntime c \<in> fst ` set ?rs" using def k(2) by simp
  moreover have "\<forall>x \<in> set ?rs. handler_ok env (snd x)"
    using k(3) by (auto simp: initialize_features_ok)
  ultimately show ?thesis by (intro exI [of _ ?rs] conjI c' d)
qed

section \<open>The monitor after translation\<close>

definition monitor_ok :: "CgroupManager \<Rightarrow> handler_config \<Rightarrow> bool" where
  "monitor_ok m r \<longleftrightarrow> (rh_RuntimeType r = DefaultRuntimeType \<or> rh_RuntimeType r = '''' \<longrightarrow>
     rh_MonitorPath r \<noteq> '''' \<and> (if cm_systemd m then rh_MonitorCgroup r = ''pod'' \<or> has_suffix (rh_MonitorCgroup r) ''.slice''
                                 else rh_MonitorCgroup r = ''pod''))"

definition monitor_of :: "handler_config \<Rightarrow> handler_config \<Rightarrow> bool" where
  "monitor_of r r' \<longleftrightarrow> (\<exists>p g e. r' = r\<lparr>rh_MonitorPath := p, rh_MonitorCgroup := g, rh_MonitorEnv := e\<rparr>)"

lemma monitor_fields_of: "monitor_of r (monitor_fields c r)"
  unfolding monitor_of_def monitor_fields_def Let_def
  by (rule exI [of _ "if rt_Conmon c \<noteq> '''' then rt_Conmon c else rh_MonitorPath r"],
      rule exI [of _ "rh_MonitorCgroup (monitor_fields c r)"],
      rule exI [of _ "if length (rt_ConmonEnv c) \<noteq> 0 then rt_ConmonEnv c else rh_MonitorEnv r"])
    (simp add: monitor_fields_def Let_def)

lemma monitor_fields_cgroup: "rh_MonitorCgroup (monitor_fields c r) \<noteq> ''''"
  by (simp add: monitor_fields_def Let_def defaultMonitorCgroup_def)

lemma monitor_of_ok: "monitor_of r r' \<Longrightarrow> handler_ok env r \<Longrightarrow> handler_ok env r'"
  by (auto simp: monitor_of_def)

lemma translate_handler_ok:
  assumes env: "env_ok env" and m: "rt_cgroupManager c = Some m"
    and t: "TranslateMonitorFieldsForHandler env True r c = (r', c', Reply ())"
  shows "monitor_of r r'" and "monitor_ok m r'" and "\<exists>x. c' = c\<lparr>rt_conmonManager := x\<rparr>"
proof -
  define r1 where "r1 = monitor_fields c r"
  obtain p x where p: "validateExecutablePath env ''conmon'' (rh_MonitorPath r1) = Inr p" and r': "r' = r1\<lparr>rh_MonitorPath := p\<rparr>"
      and c': "c' = c\<lparr>rt_conmonManager := Some x\<rparr>" and g: "check_monitor_cgroup (Some m) r' = Reply ()"
    using t m by (auto simp: TranslateMonitorFieldsForHandler_def Let_def r1_def [symmetric] ValidateConmonPath_def
        split: sum.splits prod.splits)
  obtain q g0 e0 where r1: "r1 = r\<lparr>rh_MonitorPath := q, rh_MonitorCgroup := g0, rh_MonitorEnv := e0\<rparr>"
    using monitor_fields_of [of r c] by (auto simp: monitor_of_def r1_def)
  show "monitor_of r r'" unfolding monitor_of_def
    by (rule exI [of _ p], rule exI [of _ g0], rule exI [of _ e0]) (simp add: r' r1)
  have "p \<noteq> ''''" using p env by (auto simp: validateExecutablePath_def env_ok_def split: if_splits option.splits)
  then show "monitor_ok m r'"
    using g monitor_fields_cgroup [of c r, folded r1_def]
    by (auto simp: monitor_ok_def check_monitor_cgroup_def r' split: if_splits)
  show "\<exists>x. c' = c\<lparr>rt_conmonManager := x\<rparr>" using c' by blast
qed

lemma translate_all_ok:
  assumes env: "env_ok env"
  shows "translate_all env True rs c = (rs', c', Reply ()) \<Longrightarrow> rt_cgroupManager c = Some m \<Longrightarrow> \<forall>x \<in> set rs. handler_ok env (snd x) \<Longrightarrow>
     map fst rs' = map fst rs \<and> (\<forall>x \<in> set rs'. handler_ok env (snd x) \<and> monitor_ok m (snd x)) \<and> (\<exists>x. c' = c\<lparr>rt_conmonManager := x\<rparr>)"
proof (induction rs arbitrary: rs' c c')
  case Nil
  then show ?case by (intro conjI exI [of _ "rt_conmonManager c"]) simp_all
next
  case (Cons y rs)
  obtain name r where y: "y = (name, r)" by force
  show ?case
  proof (cases "rh_RuntimeType r = DefaultRuntimeType \<or> rh_RuntimeType r = ''''")
    case True
    obtain r1 c1 res where t: "TranslateMonitorFieldsForHandler env True r c = (r1, c1, res)" by (rule prod_cases3)
    obtain rs1 c2 res1 where a: "translate_all env True rs c1 = (rs1, c2, res1)" by (rule prod_cases3)
    have res: "res = Reply ()" using Cons.prems(1) True by (cases res) (simp_all add: y t)
    have e: "rs' = (name, r1) # rs1" "c' = c2" "res1 = Reply ()" using Cons.prems(1) True by (simp_all add: y t a res)
    note k = translate_handler_ok [OF env Cons.prems(2) t [unfolded res]]
    obtain x1 where c1: "c1 = c\<lparr>rt_conmonManager := x1\<rparr>" using k(3) by (elim exE)
    have m1: "rt_cgroupManager c1 = Some m" unfolding c1 using Cons.prems(2) by simp
    have hs: "\<forall>x \<in> set rs. handler_ok env (snd x)" "handler_ok env r" using Cons.prems(3) by (simp_all add: y)
    note IH = Cons.IH [OF a [unfolded e(3)] m1 hs(1)]
    obtain x2 where c2: "c2 = c1\<lparr>rt_conmonManager := x2\<rparr>" using IH by (elim conjE exE)
    have "c' = c\<lparr>rt_conmonManager := x2\<rparr>" unfolding e(2) c2 c1 by simp
    then have "\<exists>x. c' = c\<lparr>rt_conmonManager := x\<rparr>" by (rule exI)
    moreover have "map fst rs' = map fst (y # rs)" using IH by (simp add: y e(1))
    moreover have "\<forall>x \<in> set rs'. handler_ok env (snd x) \<and> monitor_ok m (snd x)"
      using IH monitor_of_ok [OF k(1) hs(2)] k(2) by (simp add: e(1))
    ultimately show ?thesis by (intro conjI)
  next
    case False
    obtain rs1 c2 res1 where a: "translate_all env True rs c = (rs1, c2, res1)" by (metis prod_cases3)
    have e: "rs' = (name, r) # rs1" "c' = c2" "res1 = Reply ()" using Cons.prems(1) False by (auto simp: y a)
    have "monitor_ok m r" using False by (simp add: monitor_ok_def)
    with Cons.IH [OF a [unfolded e(3)] Cons.prems(2)] Cons.prems(3) show ?thesis
      by (simp add: y e(1,2))
  qed
qed

section \<open>Steps\<close>

text \<open>A step keeps a part of the configuration, whatever its result.\<close>

definition keeps :: "(RuntimeConfig \<Rightarrow> 'p) \<Rightarrow> vstep \<Rightarrow> bool" where
  "keeps p f \<longleftrightarrow> (\<forall>s. p (fst (fst (f s))) = p (fst s))"

lemma keeps_v_check [simp]: "keeps p (v_check f)"
  by (simp add: keeps_def v_check_def)

lemma keeps_v_config: "keeps p (v_config f) \<longleftrightarrow> (\<forall>c. p (fst (f c)) = p c)"
  by (simp add: keeps_def v_config_def split_beta Let_def)

lemma keeps_v_change: "keeps p (v_change f) \<longleftrightarrow> (\<forall>c. p (f c) = p c)"
  by (simp add: keeps_def v_change_def)

lemma keeps_steps: "list_all (keeps p) fs \<Longrightarrow> p (fst (fst (v_steps fs s))) = p (fst s)"
proof (induction fs s rule: v_steps.induct)
  case (2 f fs s)
  obtain s' r where f: "f s = (s', r)" by (rule prod.exhaust)
  have "keeps p f" using 2(2) by simp
  then have "p (fst (fst (f s))) = p (fst s)" unfolding keeps_def by blast
  then have "p (fst s') = p (fst s)" by (simp add: f)
  then show ?case using 2 f by (cases r) simp_all
qed simp

text \<open>What a step establishes of a part the later steps keep holds at the end.\<close>

lemma established:
  assumes "v_steps (fs @ f # gs) s = (t, Reply ())" and "list_all (keeps p) gs"
    and "\<And>s1 s2. f s1 = (s2, Reply ()) \<Longrightarrow> P (p (fst s2))"
  shows "P (p (fst t))"
proof -
  obtain s1 s2 where "f s1 = (s2, Reply ())" "v_steps gs s2 = (t, Reply ())"
    using assms(1) unfolding v_steps_append v_steps_Cons by blast
  then show ?thesis using keeps_steps [OF assms(2), of s2] assms(3) [of s1 s2] by simp
qed

lemma v_check_ok: "v_check f s = (t, Reply ()) \<Longrightarrow> t = s \<and> f (fst s) = None"
  by (auto simp: v_check_def split: option.splits)

text \<open>The parts that some steps keep.\<close>

definition table_part :: "RuntimeConfig \<Rightarrow> handler_table \<times> string" where
  "table_part c = (rt_Runtimes c, rt_DefaultRuntime c)"

lemmas step_defs = load_limits_def load_config_devices_def default_runtime_step_def raise_stop_timeout_def infra_cpuset_step_def
  workloads_step_def cgroup_manager_step_def ValidatePinnsPath_def

lemma translate_all_config: "\<exists>x. fst (snd (translate_all env onExecution rs c)) = c\<lparr>rt_conmonManager := x\<rparr>"
proof (induction rs arbitrary: c)
  case Nil
  show ?case by (rule exI [of _ "rt_conmonManager c"]) simp
next
  case (Cons y rs)
  obtain name r where y: "y = (name, r)" by force
  obtain r1 c1 res where t: "TranslateMonitorFieldsForHandler env onExecution r c = (r1, c1, res)" by (rule prod_cases3)
  have "\<exists>x. c1 = c\<lparr>rt_conmonManager := x\<rparr>"
  proof (cases "c1 = c")
    case True
    then show ?thesis by (intro exI [of _ "rt_conmonManager c"]) simp
  next
    case False
    then show ?thesis using t
      by (auto simp: TranslateMonitorFieldsForHandler_def ValidateConmonPath_def Let_def split: if_splits sum.splits)
  qed
  then obtain x1 where c1: "c1 = c\<lparr>rt_conmonManager := x1\<rparr>" ..
  obtain x2 where x2: "fst (snd (translate_all env onExecution rs c1)) = c1\<lparr>rt_conmonManager := x2\<rparr>" using Cons.IH ..
  obtain x3 where x3: "fst (snd (translate_all env onExecution rs c)) = c\<lparr>rt_conmonManager := x3\<rparr>" using Cons.IH ..
  show ?case
  proof (cases "rh_RuntimeType r = DefaultRuntimeType \<or> rh_RuntimeType r = ''''")
    case True
    then show ?thesis
      by (cases res; intro exI [of _ "if res = Reply () then x2 else x1"]) (simp_all add: y t split_beta x2, simp_all add: c1)
  next
    case False
    then show ?thesis by (intro exI [of _ x3]) (simp add: y split_beta x3)
  qed
qed

lemma TranslateMonitorFields_config: "\<exists>x rs. fst (TranslateMonitorFields env onExecution c) = c\<lparr>rt_conmonManager := x, rt_Runtimes := rs\<rparr>"
proof -
  obtain x where "fst (snd (translate_all env onExecution (rt_Runtimes c) c)) = c\<lparr>rt_conmonManager := x\<rparr>"
    using translate_all_config ..
  then show ?thesis
    by (intro exI [of _ x] exI [of _ "fst (translate_all env onExecution (rt_Runtimes c) c)"]) (simp add: TranslateMonitorFields_def split_beta)
qed

text \<open>The runtime table the server starts with.\<close>

definition oci_New :: "RuntimeConfig \<Rightarrow> Runtime" where
  "oci_New c = \<lparr>Runtimes = map_of (map (\<lambda>(n, r). (n, RuntimeHandler.truncate r)) (rt_Runtimes c)), DefaultRuntime = rt_DefaultRuntime c,
     runtimeImplMap = Map.empty\<rparr>"

definition valid_config :: "cfg_env \<Rightarrow> RuntimeConfig \<Rightarrow> bool" where
  "valid_config env c \<longleftrightarrow>
     (\<exists>m. rt_cgroupManager c = Some m \<and> (\<forall>x \<in> set (rt_Runtimes c). handler_ok env (snd x) \<and> monitor_ok m (snd x))) \<and>
     distinct (map fst (rt_Runtimes c)) \<and> rt_DefaultRuntime c \<in> fst ` set (rt_Runtimes c) \<and>
     30 \<le> rt_CtrStopTimeout c \<and> (rt_LogSizeMax c < 0 \<or> 8192 \<le> rt_LogSizeMax c) \<and>
     (\<exists>kvs. config_Sysctls (rt_DefaultSysctls c) = Inr kvs) \<and>
     (\<forall>x \<in> set (rt_Workloads c). wl_ActivationAnnotation (snd x) \<noteq> '''' \<and> ValidateDefaults (wl_Resources (snd x)) = Reply ())"

abbreviation first_steps :: "cfg_env \<Rightarrow> vstep list" where
  "first_steps env \<equiv> [v_config (load_limits env), v_config (load_config_devices env), v_config (default_runtime_step env),
     v_check (check_timezone env), v_check check_log_size, v_change raise_stop_timeout, v_check check_sysctls,
     v_check (\<lambda>c. Capabilities_Validate env (rt_DefaultCapabilities c)), v_config (infra_cpuset_step env), v_config workloads_step]"

lemma first_steps_ok:
  assumes ok: "v_steps (first_steps env) s = (t, Reply ())" and names: "distinct (map fst (rt_Runtimes (fst s)))"
  shows "distinct (map fst (rt_Runtimes (fst t)))" and "rt_DefaultRuntime (fst t) \<in> fst ` set (rt_Runtimes (fst t))"
    and "30 \<le> rt_CtrStopTimeout (fst t)" and "rt_LogSizeMax (fst t) < 0 \<or> 8192 \<le> rt_LogSizeMax (fst t)"
    and "\<exists>kvs. config_Sysctls (rt_DefaultSysctls (fst t)) = Inr kvs"
    and "\<forall>x \<in> set (rt_Workloads (fst t)). wl_ActivationAnnotation (snd x) \<noteq> '''' \<and> ValidateDefaults (wl_Resources (snd x)) = Reply ()"
proof -
  have w: "wl_ActivationAnnotation v \<noteq> '''' \<and> ValidateDefaults (wl_Resources v) = Reply ()"
    if "snd (Workloads_Validate ws) = Reply ()" "(n, v) \<in> set (fst (Workloads_Validate ws))" for ws n v
    using Workloads_Validate_ok [of ws "fst (Workloads_Validate ws)" n v] that by (simp add: prod_eq_iff)
  show "30 \<le> rt_CtrStopTimeout (fst t)"
    by (rule established [where fs = "take 5 (first_steps env)" and f = "v_change raise_stop_timeout" and gs = "drop 6 (first_steps env)"
          and p = rt_CtrStopTimeout and P = "\<lambda>x. 30 \<le> x" and s = s])
      (use ok in simp, simp add: keeps_v_config step_defs Let_def split_beta split: reply.split option.split,
       auto simp: v_change_def raise_stop_timeout_def defaultCtrStopTimeout_def)
  show "rt_LogSizeMax (fst t) < 0 \<or> 8192 \<le> rt_LogSizeMax (fst t)"
    by (rule established [where fs = "take 4 (first_steps env)" and f = "v_check check_log_size" and gs = "drop 5 (first_steps env)"
          and p = rt_LogSizeMax and P = "\<lambda>x. x < 0 \<or> 8192 \<le> x" and s = s])
      (use ok in simp, simp add: keeps_v_config keeps_v_change step_defs Let_def split_beta split: reply.split option.split,
       drule v_check_ok, auto simp: check_log_size_def OCIBufSize_def split: if_splits)
  show "\<exists>kvs. config_Sysctls (rt_DefaultSysctls (fst t)) = Inr kvs"
    by (rule established [where fs = "take 6 (first_steps env)" and f = "v_check check_sysctls" and gs = "drop 7 (first_steps env)"
          and p = rt_DefaultSysctls and P = "\<lambda>x. \<exists>kvs. config_Sysctls x = Inr kvs" and s = s])
      (use ok in simp, simp add: keeps_v_config step_defs Let_def split_beta split: reply.split option.split,
       drule v_check_ok, auto simp: check_sysctls_def split: sum.splits)
  show "\<forall>x \<in> set (rt_Workloads (fst t)). wl_ActivationAnnotation (snd x) \<noteq> '''' \<and> ValidateDefaults (wl_Resources (snd x)) = Reply ()"
    by (rule established [where fs = "take 9 (first_steps env)" and f = "v_config workloads_step" and gs = "[]"
          and p = rt_Workloads and P = "\<lambda>ws. \<forall>x \<in> set ws. wl_ActivationAnnotation (snd x) \<noteq> '''' \<and> ValidateDefaults (wl_Resources (snd x)) = Reply ()" and s = s])
      (use ok in simp, simp, auto simp: v_config_def workloads_step_def split_beta Let_def dest: w)
  have ok': "v_steps (take 2 (first_steps env) @ v_config (default_runtime_step env) # drop 3 (first_steps env)) s = (t, Reply ())"
    using ok by simp
  obtain s1 s2 where s1: "v_steps (take 2 (first_steps env)) s = (s1, Reply ())" and s2: "v_config (default_runtime_step env) s1 = (s2, Reply ())"
      and t: "v_steps (drop 3 (first_steps env)) s2 = (t, Reply ())"
    using ok' unfolding v_steps_append v_steps_Cons by blast
  have "table_part (fst s1) = table_part (fst s)"
    using keeps_steps [of table_part "take 2 (first_steps env)" s] s1
    by (simp add: keeps_v_config step_defs table_part_def Let_def split_beta)
  then have n1: "distinct (map fst (rt_Runtimes (fst s1)))" using names by (simp add: table_part_def)
  have "table_part (fst t) = table_part (fst s2)"
    using keeps_steps [of table_part "drop 3 (first_steps env)" s2] t
    by (simp add: keeps_v_config keeps_v_change step_defs table_part_def Let_def split_beta split: reply.split option.split)
  moreover have "distinct (map fst (rt_Runtimes (fst s2))) \<and> rt_DefaultRuntime (fst s2) \<in> fst ` set (rt_Runtimes (fst s2))"
    using s2 n1 by (auto simp: v_config_def default_runtime_step_def ValidateDefaultRuntime_def Let_def map_of_eq_None_iff split: if_splits)
      (force simp: image_iff)
  ultimately show "distinct (map fst (rt_Runtimes (fst t)))" "rt_DefaultRuntime (fst t) \<in> fst ` set (rt_Runtimes (fst t))"
    by (auto simp: table_part_def)
qed

lemma execution_steps_ok:
  assumes env: "env_ok env" and ok: "v_steps (execution_steps env) s = (t, Reply ())"
    and names: "distinct (map fst (rt_Runtimes (fst s)))" and def: "rt_DefaultRuntime (fst s) \<in> fst ` set (rt_Runtimes (fst s))"
  shows "\<exists>m. rt_cgroupManager (fst t) = Some m" and "distinct (map fst (rt_Runtimes (fst t)))"
    and "rt_DefaultRuntime (fst t) \<in> fst ` set (rt_Runtimes (fst t))" and "\<forall>x \<in> set (rt_Runtimes (fst t)). handler_ok env (snd x)"
proof -
  let ?rest = "drop 2 (execution_steps env)"
  have "v_steps (v_config (cgroup_manager_step env) # v_config (ValidateRuntimes env) # ?rest) s = (t, Reply ())"
    using ok by (simp add: execution_steps_def)
  then obtain s1 s2 where s1: "v_config (cgroup_manager_step env) s = (s1, Reply ())" and s2: "v_config (ValidateRuntimes env) s1 = (s2, Reply ())"
      and t: "v_steps ?rest s2 = (t, Reply ())"
    unfolding v_steps_Cons by blast
  obtain m where m: "fst s1 = (fst s)\<lparr>rt_cgroupManager := Some m\<rparr>"
    using s1 by (auto simp: v_config_def cgroup_manager_step_def Let_def split: sum.splits)
  have "ValidateRuntimes env (fst s1) = (fst s2, Reply ())"
    using s2 by (auto simp: v_config_def split_beta Let_def prod_eq_iff)
  from ValidateRuntimes_ok [OF env this] obtain rs where rs: "fst s2 = (fst s1)\<lparr>rt_Runtimes := rs\<rparr>" "distinct (map fst rs)"
      "rt_DefaultRuntime (fst s1) \<in> fst ` set rs" "\<forall>x \<in> set rs. handler_ok env (snd x)"
    using names def by (auto simp: m)
  have h: "keeps p hooks_dir_step" if "\<And>c x. p (c\<lparr>rt_HooksDir := x\<rparr>) = p c" for p :: "RuntimeConfig \<Rightarrow> 'z"
    using that by (simp add: keeps_def hooks_dir_step_def split_beta Let_def)
  have k: "p (fst t) = p (fst s2)" if "\<And>c x. p (c\<lparr>rt_HooksDir := x\<rparr>) = p c" "\<And>c x. p (c\<lparr>rt_PinnsPath := x\<rparr>) = p c" for p :: "RuntimeConfig \<Rightarrow> 'z"
    using keeps_steps [of p ?rest s2] t that h [of p]
    by (simp add: execution_steps_def keeps_v_config ValidatePinnsPath_def split: sum.split)
  show "\<exists>m. rt_cgroupManager (fst t) = Some m" using k [of rt_cgroupManager] by (simp add: rs(1) m)
  show "distinct (map fst (rt_Runtimes (fst t)))" "\<forall>x \<in> set (rt_Runtimes (fst t)). handler_ok env (snd x)"
    using k [of rt_Runtimes] rs by simp_all
  show "rt_DefaultRuntime (fst t) \<in> fst ` set (rt_Runtimes (fst t))"
    using k [of rt_Runtimes] k [of rt_DefaultRuntime] rs by simp
qed

lemma execution_steps_keep:
  assumes "v_steps (execution_steps env) s = (t, Reply ())"
  shows "(rt_CtrStopTimeout (fst t), rt_LogSizeMax (fst t), rt_DefaultSysctls (fst t), rt_Workloads (fst t)) =
     (rt_CtrStopTimeout (fst s), rt_LogSizeMax (fst s), rt_DefaultSysctls (fst s), rt_Workloads (fst s))"
proof -
  let ?p = "\<lambda>c. (rt_CtrStopTimeout c, rt_LogSizeMax c, rt_DefaultSysctls c, rt_Workloads c)"
  have "keeps ?p (v_config (ValidateRuntimes env))"
    by (simp add: keeps_v_config ValidateRuntimes_def split_beta split: outcome.split option.split)
  moreover have "keeps ?p hooks_dir_step" by (simp add: keeps_def hooks_dir_step_def split_beta Let_def)
  ultimately have "list_all (keeps ?p) (execution_steps env)"
    by (simp add: execution_steps_def keeps_v_config cgroup_manager_step_def ValidatePinnsPath_def split: sum.split)
  from keeps_steps [OF this, of s] show ?thesis by (simp add: assms)
qed

lemma oci_New_handlers:
  assumes "distinct (map fst (rt_Runtimes c))" and "rt_DefaultRuntime c \<in> fst ` set (rt_Runtimes c)"
    and "\<forall>x \<in> set (rt_Runtimes c). handler_ok env (snd x)" and "handler = '''' \<or> handler \<in> fst ` set (rt_Runtimes c)"
  shows "\<exists>rh. getRuntimeHandler (oci_New c) handler = Inr (Some rh)"
proof -
  have "\<exists>rh. Runtimes (oci_New c) n = Some rh \<and> RuntimePath rh \<noteq> ''''" if "n \<in> fst ` set (rt_Runtimes c)" for n
  proof -
    from that obtain x where "x \<in> set (rt_Runtimes c)" "n = fst x" by (rule imageE)
    then have r: "(n, snd x) \<in> set (rt_Runtimes c)" by simp
    have "Runtimes (oci_New c) n = Some (RuntimeHandler.truncate (snd x))"
      using map_of_is_SomeI [OF assms(1) r] by (simp add: oci_New_def map_of_map)
    moreover have "handler_ok env (snd x)" using bspec [OF assms(3) r] by simp
    then have "RuntimePath (snd x) \<noteq> ''''" unfolding handler_ok_def by (elim conjE)
    ultimately show ?thesis by (simp add: RuntimeHandler.truncate_def)
  qed
  note found = this
  show ?thesis
  proof (cases "handler = ''''")
    case True
    from found [OF assms(2)] obtain rh where "Runtimes (oci_New c) (rt_DefaultRuntime c) = Some rh" by (elim exE conjE)
    moreover have "DefaultRuntime (oci_New c) = rt_DefaultRuntime c" by (simp add: oci_New_def)
    ultimately show ?thesis using True by (simp add: getRuntimeHandler_def)
  next
    case False
    then have "handler \<in> fst ` set (rt_Runtimes c)" using assms(4) by simp
    from found [OF this] obtain rh where "Runtimes (oci_New c) handler = Some rh" "RuntimePath rh \<noteq> ''''" by (elim exE conjE)
    then show ?thesis using False by (simp add: getRuntimeHandler_def ValidateRuntimeHandler_def)
  qed
qed

section \<open>Property\<close>


definition sample_env :: cfg_env where
  "sample_env = \<lparr>ev_LookPath = (\<lambda>n. Some (''/bin/'' @ n)), ev_Stat = (\<lambda>_. Present),
     ev_Output = (\<lambda>p a. if a = ''--version'' then Some ''conmon version 2.1.12'' else None), ev_RAMInBytes = (\<lambda>s. if s = '''' then None else Some 12582912),
     ev_BytesSize = (\<lambda>_. ''12MiB''), ev_decodeFeatures = (\<lambda>_ _. Inl ''''), ev_kernelRRO = True, ev_semver = (\<lambda>_. True), ev_semverGTE = (\<lambda>_ _. True),
     ev_parseUlimit = (\<lambda>_. Inl ''''), ev_devices = sample_dev_env, ev_timezone = (\<lambda>_. True), ev_ValidateCapabilities = (\<lambda>_. None),
     ev_cgroupV2 = True, ev_cdiConfigure = (\<lambda>_. None), ev_nsInitialize = (\<lambda>_ _. None), ev_seccompLoad = (\<lambda>_. LoadNotExist), ev_seccompDefault = None,
     ev_apparmorLoad = (\<lambda>_. None), ev_blockioLoad = (\<lambda>_. None), ev_rdtLoad = (\<lambda>_. None), ev_dial = (\<lambda>_. False)\<rparr>"

definition sample_runtime_config :: "string \<Rightarrow> RuntimeConfig" where
  "sample_runtime_config manager_name =
     \<lparr>rt_DefaultUlimits = [], rt_ulimits = [], rt_AdditionalDevices = [''/dev/fuse''], rt_devices = [],
      rt_Runtimes = [(''bad'', (defaultRuntimeHandler sample_env)\<lparr>rh_RuntimeType := ''x''\<rparr>)], rt_DefaultRuntime = '''',
      rt_Timezone = ''Local'', rt_LogSizeMax = - 1, rt_CtrStopTimeout = 10, rt_DefaultSysctls = [''net.core.somaxconn=1''],
      rt_DefaultCapabilities = [''chown''], rt_InfraCtrCPUSet = ''0-1'', rt_commandPrefix = [], rt_Workloads = sample_workloads,
      rt_CgroupManagerName = manager_name, rt_cgroupManager = None, rt_HooksDir = [''/etc/hooks''], rt_CDISpecDirs = [], rt_PinnsPath = '''',
      rt_NamespacesDir = ''/var/run'', rt_SeccompProfile = '''', rt_ApparmorProfile = '''', rt_BlockIOConfigFile = '''', rt_RdtConfigFile = '''',
      rt_ConmonCgroup = '''', rt_Conmon = '''', rt_ConmonEnv = [], rt_conmonManager = None\<rparr>"

definition sample_host_files :: host where
  "sample_host_files = \<lparr>hf_nodes = Map.empty, hf_unreadable = (\<lambda>_. False), hf_readonly = (\<lambda>_. False), hf_unstatable = (\<lambda>_. False), hf_runs = []\<rparr>"

lemma sample_validates:
  "snd (RuntimeConfig_Validate sample_env True (sample_runtime_config ''systemd'', sample_host_files)) = Reply ()"
  "map fst (rt_Runtimes (fst (fst (RuntimeConfig_Validate sample_env True (sample_runtime_config ''systemd'', sample_host_files))))) = [''crun'']"
  by code_simp+


text \<open>With the cgroupfs manager an empty control group of the monitor is refused: it is
  replaced by the default slice before it is checked.\<close>

lemma empty_monitor_cgroup_refused:
  assumes "rt_ConmonCgroup c = ''''" and "rh_MonitorCgroup r = ''''" and "rt_cgroupManager c = Some m" and "\<not> cm_systemd m"
    and "ValidateConmonPath env ''conmon'' (monitor_fields c r) c = (r', c', None)"
  shows "snd (snd (TranslateMonitorFieldsForHandler env True r c)) = Fail ''cgroupfs manager conmon cgroup should be 'pod' or empty''"
proof -
  have "rh_MonitorCgroup (monitor_fields c r) = ''system.slice''"
    using assms(1,2) by (simp add: monitor_fields_def Let_def defaultMonitorCgroup_def)
  then have "rh_MonitorCgroup r' = ''system.slice'' \<and> rt_cgroupManager c' = Some m"
    using assms(3,5) by (auto simp: ValidateConmonPath_def split: sum.splits)
  then show ?thesis
    using assms(4,5) by (simp add: TranslateMonitorFieldsForHandler_def Let_def check_monitor_cgroup_def)
qed

end
