(* ===== verification/Pod_Creation.thy ===== *)
theory Pod_Creation
  imports Server_Lifecycle Workloads Sysctls
begin

text \<open>
  The request that runs a pod (\<^verbatim>\<open>server/sandbox_run_linux.go\<close>,
  \<^verbatim>\<open>sandbox_run.go\<close>, \<^verbatim>\<open>naming.go\<close>, and the start of a pod's network in
  \<^verbatim>\<open>sandbox_network.go\<close>), with the clean-up it registers as it goes.

  The body of \<^verbatim>\<open>runPodSandbox\<close> is a sequence of phases on the record \<open>run\<close>: the
  server, the resource store, the clean-up functions registered so far, and the local
  variables later phases read. The phases run in the order of the code until one of them fails
  (\<open>v_steps\<close>); then the registered functions run in reverse. A phase that panics runs
  none of them, since no error has been recorded.

  Once the pod has been filed in the server its object is changed there, as the code changes it
  through its pointer. Storage, mounts, namespaces, CNI plugins, the runtime and NRI are the
  operations of the record \<open>pod_env\<close>. Marshalling the values of the request to JSON does
  not fail. Labels, kernel parameters and port mappings are lists in the order of the loops over
  them.
\<close>

section \<open>Data\<close>

datatype pod_ns_mode = NS_POD | NS_CONTAINER | NS_NODE | NS_TARGET

record NamespaceOption =
  no_Network :: pod_ns_mode
  no_Pid :: pod_ns_mode
  no_Ipc :: pod_ns_mode

record cri_PortMapping =
  pq_Protocol :: string
  pq_ContainerPort :: int
  pq_HostPort :: int
  pq_HostIp :: string

text \<open>\<open>rp_Config\<close> has the fields the builder of pods checks; the others are those of
  the same message that only the request reads. \<open>None\<close> for the namespace options is the nil
  pointer.\<close>

record RunPodSandboxRequest =
  rp_Config :: "PodSandboxConfig option"
  rp_NamespaceOptions :: "NamespaceOption option"
  rp_Labels :: "(string \<times> string) list"
  rp_Annotations :: str_map
  rp_Hostname :: string
  rp_PortMappings :: "cri_PortMapping list"
  rp_CgroupParent :: string
  rp_Sysctls :: "Sysctl list"
  rp_Overhead :: "LinuxContainerResources option"
  rp_Resources :: "LinuxContainerResources option"
  rp_RuntimeHandler :: string

record pod_container =
  pc_RunDir :: string
  pc_Dir :: string
  pc_RootFs :: string
  pc_MountLabel :: string
  pc_ProcessLabel :: string
  pc_StopSignal :: string
  pc_Entrypoint :: "string list"
  pc_Cmd :: "string list"

text \<open>The part of a specification that pods use and containers do not, beside the generator.\<close>

record pod_spec =
  pg_gen :: SpecGen
  pg_Hostname :: string
  pg_CgroupsPath :: string
  pg_MountLabel :: string
  pg_RootPath :: string
  pg_Sysctl :: str_map

record pod_encoders =
  en_map :: "str_map \<Rightarrow> string"
  en_podMetadata :: "PodSandboxMetadata option \<Rightarrow> string"
  en_ports :: "PortMapping_spec list \<Rightarrow> string"
  en_nsOpts :: "NamespaceOption \<Rightarrow> string"
  en_resources :: "LinuxContainerResources option \<Rightarrow> string"
  en_time :: "int \<Rightarrow> string"

text \<open>What is passed to the CNI plugins. The limits of the bandwidth are incoming and outgoing,
  \<open>None\<close> where there is none.\<close>

record PodNetwork =
  pn_Name :: string
  pn_Namespace :: string
  pn_UID :: string
  pn_ID :: string
  pn_NetNS :: string
  pn_Bandwidth :: "(int option \<times> int option) option"
  pn_CgroupPath :: string
  pn_PodAnnotations :: str_map

text \<open>The parts of the configuration that are read.\<close>

record pod_config =
  pf_LogDir :: string
  pf_PauseImage :: string
  pf_PauseCommand :: string
  pf_InfraCtrCPUSet :: string
  pf_DropInfraCtr :: bool
  pf_DefaultSysctls :: "string list"
  pf_DefaultCapabilities :: "string list"
  pf_AddInheritableCapabilities :: bool
  pf_Workloads :: workload_table
  pf_seccompDisabled :: bool

record 'e pod_env =
  pe_svc :: "'e services"
  pe_runtime :: Runtime
  pe_cfg :: pod_config
  pe_enc :: pod_encoders
  pe_caps :: cap_library
  pe_defaultSpec :: SpecGen
  pe_now :: int
  pe_Hostname :: "string + string"
  pe_ParseQuantity :: "string \<Rightarrow> string + int"
  pe_AsInt64 :: "string \<Rightarrow> string + int option"
  pe_Pid :: "Container \<Rightarrow> (oci_error, int) outcome"
  pe_Spec :: "pod_spec \<Rightarrow> Spec"
  pe_minMemory :: "string \<Rightarrow> string + int"
  pe_KVMLabel :: "string \<Rightarrow> string + string"
  pe_rootless :: "(SpecGen \<Rightarrow> SpecGen) option"
  pe_waitCNI :: "string \<Rightarrow> 'e \<Rightarrow> 'e \<times> string option"
  pe_CreatePodSandbox :: "string \<Rightarrow> string \<Rightarrow> string \<Rightarrow> string option \<Rightarrow> bool \<Rightarrow> 'e \<Rightarrow> 'e \<times> (string + pod_container)"
  pe_MkdirAll :: "string \<Rightarrow> 'e \<Rightarrow> 'e \<times> string option"
  pe_resolvConf :: "string option \<Rightarrow> string \<Rightarrow> 'e \<Rightarrow> 'e \<times> string option"
  pe_SetupShm :: "string \<Rightarrow> string \<Rightarrow> int \<Rightarrow> 'e \<Rightarrow> 'e \<times> (string + string)"
  pe_Unmount :: "string \<Rightarrow> 'e \<Rightarrow> 'e \<times> string option"
  pe_linkLogs :: "string \<Rightarrow> string \<Rightarrow> 'e \<Rightarrow> 'e"
  pe_setMountLabel :: "string \<Rightarrow> string \<Rightarrow> 'e \<Rightarrow> 'e \<times> string option"
  pe_EnsureSaneLogPath :: "string \<Rightarrow> 'e \<Rightarrow> 'e \<times> string option"
  pe_SandboxCgroupPath :: "string \<Rightarrow> string \<Rightarrow> int \<Rightarrow> 'e \<Rightarrow> string + string \<times> string"
  pe_seccompSetup :: "string option \<Rightarrow> SpecGen \<Rightarrow> 'e \<Rightarrow> 'e \<times> (string + SpecGen \<times> string)"
  pe_NewPodNamespaces :: "str_map \<Rightarrow> (nstype \<times> bool) list \<Rightarrow> 'e \<Rightarrow> 'e \<times> (string + Namespace option list)"
  pe_procNsPath :: "nstype \<Rightarrow> int \<Rightarrow> string"
  pe_SetUpPod :: "PodNetwork \<Rightarrow> 'e \<Rightarrow> 'e \<times> string option"
  pe_NetworkStatus :: "PodNetwork \<Rightarrow> 'e \<Rightarrow> 'e \<times> (string + (string \<times> bool) list \<times> string option)"
  pe_hostportAdd :: "string \<Rightarrow> string \<Rightarrow> PortMapping_spec list \<Rightarrow> string \<Rightarrow> 'e \<Rightarrow> 'e \<times> string option"
  pe_hostnameFile :: "string \<Rightarrow> string \<Rightarrow> string \<Rightarrow> 'e \<Rightarrow> 'e \<times> string option"
  pe_CreateSandboxCgroup :: "string \<Rightarrow> string \<Rightarrow> 'e \<Rightarrow> 'e \<times> string option"
  pe_containerEnv :: "string \<Rightarrow> 'e \<Rightarrow> 'e"
  pe_SaveToFile :: "string \<Rightarrow> pod_spec \<Rightarrow> 'e \<Rightarrow> 'e \<times> string option"
  pe_PreStart :: "Container \<Rightarrow> Sandbox \<Rightarrow> 'e \<Rightarrow> 'e \<times> string option"
  pe_StartContainer :: "Container \<Rightarrow> 'e \<Rightarrow> 'e \<times> Container \<times> string option"
  pe_stateToDisk :: "Container \<Rightarrow> 'e \<Rightarrow> 'e \<times> string option"
  pe_nriRun :: "Sandbox \<Rightarrow> 'e \<Rightarrow> 'e \<times> string option"

text \<open>The run of a request. \<open>ru_undo\<close> has the clean-up functions in the order of their
  registration, \<open>ru_sb\<close> the pod the builder makes; the rest are local variables.\<close>

record 'e run =
  ru_srv :: "'e srv"
  ru_rc :: "'e srv ResourceStore"
  ru_undo :: "'e srv cleanupFunc list"
  ru_sb :: Sandbox
  ru_g :: pod_spec
  ru_labels :: "(string \<times> string) list"
  ru_ann :: str_map
  ru_pc :: pod_container
  ru_processLabel :: string
  ru_mountLabel :: string
  ru_infra :: Container
  ru_ips :: "string list"
  ru_sysctls :: str_map
  ru_seccomp :: string

section \<open>Helpers\<close>

text \<open>A label of the request is kept, a missing one is added at the end.\<close>

definition label_default :: "string \<Rightarrow> string \<Rightarrow> (string \<times> string) list \<Rightarrow> (string \<times> string) list" where
  "label_default k v ls = (if map_of ls k = None then ls @ [(k, v)] else ls)"

definition label_put :: "string \<Rightarrow> string \<Rightarrow> (string \<times> string) list \<Rightarrow> (string \<times> string) list" where
  "label_put k v ls = (if map_of ls k = None then ls @ [(k, v)] else map (\<lambda>(k', v'). (k', if k' = k then v else v')) ls)"

definition populateSandboxLabels :: "(string \<times> string) list \<Rightarrow> string \<Rightarrow> string \<Rightarrow> string \<Rightarrow> (string \<times> string) list" where
  "populateSandboxLabels labels name uid ns =
     label_default ''io.kubernetes.pod.uid'' uid
       (label_default ''io.kubernetes.pod.namespace'' ns (label_default ''io.kubernetes.pod.name'' name labels))"

definition maxLabelSize :: nat where
  "maxLabelSize = 4096"

definition validateLabels :: "(string \<times> string) list \<Rightarrow> string option" where
  "validateLabels labels =
     (case find (\<lambda>(k, v). maxLabelSize < length k + length v) labels of
        None \<Rightarrow> None | Some (k, _) \<Rightarrow> Some (''label key and value greater than maximum size, key: '' @ take 10 k))"

text \<open>The first argument is the flag of the security context, \<open>None\<close> without one.\<close>

definition privilegedSandbox :: "bool option \<Rightarrow> NamespaceOption option \<Rightarrow> bool" where
  "privilegedSandbox sec opts =
     (case sec of None \<Rightarrow> False
      | Some p \<Rightarrow> p \<or> (case opts of None \<Rightarrow> False
                        | Some n \<Rightarrow> no_Network n = NS_NODE \<or> no_Pid n = NS_NODE \<or> no_Ipc n = NS_NODE))"

definition request_handler :: "Runtime \<Rightarrow> string \<Rightarrow> string + string" where
  "request_handler r handler =
     (if handler = '''' then Inr handler
      else case ValidateRuntimeHandler r handler of Inl e \<Rightarrow> Inl e | Inr _ \<Rightarrow> Inr handler)"

definition convertPortMappings :: "cri_PortMapping list \<Rightarrow> PortMapping_spec list" where
  "convertPortMappings ports =
     map (\<lambda>v. \<lparr>pm_protocol = pq_Protocol v, pm_containerPort = pq_ContainerPort v, pm_hostPort = pq_HostPort v, pm_hostIP = pq_HostIp v\<rparr>)
       (filter (\<lambda>v. 0 < pq_HostPort v) ports)"

text \<open>Slicing an identifier of fewer than twelve characters panics.\<close>

definition getHostname :: "string + string \<Rightarrow> string \<Rightarrow> string \<Rightarrow> bool \<Rightarrow> (string, string) outcome" where
  "getHostname os_Hostname i name host =
     (if name \<noteq> '''' then Ok name
      else if host then (case os_Hostname of Inl e \<Rightarrow> Err e | Inr h \<Rightarrow> Ok h)
      else if length i < 12 then Panic else Ok (take 12 i))"

definition makeSandboxContainerName :: "PodSandboxMetadata \<Rightarrow> string" where
  "makeSandboxContainerName m = join_with ''_'' [''k8s'', ''POD'', pm_Name m, pm_Namespace m, pm_Uid m, utoa (pm_Attempt m)]"

definition NeedsInfra :: "bool \<Rightarrow> NamespaceOption \<Rightarrow> bool" where
  "NeedsInfra serverDropsInfra opts = (\<not> serverDropsInfra \<or> no_Pid opts = NS_POD)"

definition PauseCommand :: "pod_config \<Rightarrow> pod_container \<Rightarrow> string + string list" where
  "PauseCommand cfg pc =
     (if pf_PauseCommand cfg \<noteq> '''' then Inr [pf_PauseCommand cfg]
      else if pc_Entrypoint pc = [] \<and> pc_Cmd pc = []
      then Inl (''unable to run pause image: neither Cmd nor Entrypoint specified'')
      else Inr (pc_Entrypoint pc @ pc_Cmd pc))"

section \<open>Steps\<close>

type_synonym 'e phase = "'e run \<Rightarrow> 'e run \<times> unit reply"

definition r_world :: "'e \<Rightarrow> 'e run \<Rightarrow> 'e run" where
  "r_world e r = r\<lparr>ru_srv := (ru_srv r)\<lparr>world := e\<rparr>\<rparr>"

definition r_cs :: "ContainerServer \<Rightarrow> 'e run \<Rightarrow> 'e run" where
  "r_cs c r = r\<lparr>ru_srv := (ru_srv r)\<lparr>cs := c\<rparr>\<rparr>"

text \<open>A change of local variables; a call of the environment that returns an error or nothing;
  one that returns an error or a value for the rest of the step; a value or an error.\<close>

definition r_do :: "('e run \<Rightarrow> 'e run) \<Rightarrow> 'e phase" where
  "r_do f r = (f r, Reply ())"

definition r_env :: "('e run \<Rightarrow> 'e \<Rightarrow> 'e \<times> string option) \<Rightarrow> 'e phase" where
  "r_env f r = (let (e, err) = f r (world (ru_srv r)) in (r_world e r, case err of None \<Rightarrow> Reply () | Some m \<Rightarrow> Fail m))"

definition r_get :: "('e run \<Rightarrow> 'e \<Rightarrow> 'e \<times> (string + 'a)) \<Rightarrow> ('a \<Rightarrow> 'e run \<Rightarrow> 'e run) \<Rightarrow> 'e phase" where
  "r_get f k r =
     (case f r (world (ru_srv r)) of (e, Inl m) \<Rightarrow> (r_world e r, Fail m) | (e, Inr x) \<Rightarrow> (k x (r_world e r), Reply ()))"

definition r_sum :: "('e run \<Rightarrow> string + 'a) \<Rightarrow> ('a \<Rightarrow> 'e run \<Rightarrow> 'e run) \<Rightarrow> 'e phase" where
  "r_sum f k r = (case f r of Inl m \<Rightarrow> (r, Fail m) | Inr x \<Rightarrow> (k x r, Reply ()))"

definition r_out :: "('e run \<Rightarrow> (string, 'a) outcome) \<Rightarrow> ('a \<Rightarrow> 'e run \<Rightarrow> 'e run) \<Rightarrow> 'e phase" where
  "r_out f k r = (case f r of Err m \<Rightarrow> (r, Fail m) | Panic \<Rightarrow> (r, Crash) | Ok x \<Rightarrow> (k x r, Reply ()))"

definition r_check :: "('e run \<Rightarrow> string option) \<Rightarrow> 'e phase" where
  "r_check f r = (r, case f r of None \<Rightarrow> Reply () | Some m \<Rightarrow> Fail m)"

definition r_stage :: "string \<Rightarrow> string \<Rightarrow> 'e phase" where
  "r_stage name st = r_do (\<lambda>r. r\<lparr>ru_rc := SetStageForResource name st (ru_rc r)\<rparr>)"

definition r_undo :: "'e srv cleanupFunc \<Rightarrow> 'e run \<Rightarrow> 'e run" where
  "r_undo f r = r\<lparr>ru_undo := ru_undo r @ [f]\<rparr>"

definition r_sb :: "(Sandbox \<Rightarrow> Sandbox) \<Rightarrow> 'e run \<Rightarrow> 'e run" where
  "r_sb f r = r\<lparr>ru_sb := f (ru_sb r)\<rparr>"

definition r_gen :: "(SpecGen \<Rightarrow> SpecGen) \<Rightarrow> 'e run \<Rightarrow> 'e run" where
  "r_gen f r = r\<lparr>ru_g := (ru_g r)\<lparr>pg_gen := f (pg_gen (ru_g r))\<rparr>\<rparr>"

text \<open>The object of the pod: the one the server files once it is there.\<close>

definition pod_at :: "string \<Rightarrow> Sandbox \<Rightarrow> ContainerServer \<Rightarrow> Sandbox" where
  "pod_at i sb c = (case GetSandbox_cs i c of None \<Rightarrow> sb | Some p \<Rightarrow> p)"

definition the_pod :: "string \<Rightarrow> 'e run \<Rightarrow> Sandbox" where
  "the_pod i r = pod_at i (ru_sb r) (cs (ru_srv r))"

definition r_pod :: "string \<Rightarrow> (Sandbox \<Rightarrow> Sandbox) \<Rightarrow> 'e run \<Rightarrow> 'e run" where
  "r_pod i f r = r_cs (change_pod i f (cs (ru_srv r))) r"

section \<open>Clean-up functions\<close>

definition undo_pod_name :: "string \<Rightarrow> 'e srv cleanupFunc" where
  "undo_pod_name name s = (s\<lparr>cs := ReleasePodName name (cs s)\<rparr>, None)"

definition undo_shm :: "'e pod_env \<Rightarrow> string \<Rightarrow> 'e srv cleanupFunc" where
  "undo_shm env path s =
     (let (e, err) = pe_Unmount env path (world s)
      in (s\<lparr>world := e\<rparr>, case err of None \<Rightarrow> None | Some m \<Rightarrow> Some (''failed to unmount shm for sandbox: '' @ m)))"

definition undo_pod :: "'e pod_env \<Rightarrow> string \<Rightarrow> 'e srv cleanupFunc" where
  "undo_pod env i s =
     (let (c, err) = RemoveSandbox (sv_level (pe_svc env)) i (cs s)
      in (s\<lparr>cs := c\<rparr>, case err of None \<Rightarrow> None | Some m \<Rightarrow> Some (''could not remove pod sandbox: '' @ m)))"

text \<open>As for the index of containers, every error says that there is no such identifier.\<close>

definition undo_pod_index :: "string \<Rightarrow> 'e srv cleanupFunc" where
  "undo_pod_index i s =
     (let (ix, err) = trunc_Delete i (podIDIndex (cs s))
      in (s\<lparr>cs := (cs s)\<lparr>podIDIndex := ix\<rparr>\<rparr>,
          case err of None \<Rightarrow> None | Some (ErrNoSuchId _) \<Rightarrow> None | Some _ \<Rightarrow> Some ''index''))"

definition undo_namespaces :: "'e pod_env \<Rightarrow> string \<Rightarrow> Sandbox \<Rightarrow> 'e srv cleanupFunc" where
  "undo_namespaces env i sb s =
     (let (e, err) = sv_removeNamespaces (pe_svc env) (pod_at i sb (cs s)) (world s)
      in (s\<lparr>world := e\<rparr>, case err of None \<Rightarrow> None | Some m \<Rightarrow> Some (''RunSandbox: failed to cleanup namespace '' @ m)))"

definition undo_network :: "'e pod_env \<Rightarrow> string \<Rightarrow> Sandbox \<Rightarrow> 'e srv cleanupFunc" where
  "undo_network env i sb s =
     (case networkStop (pe_svc env) (pod_at i sb (cs s)) s of
        (s', Reply _) \<Rightarrow> undo_namespaces env i sb s'
      | (s', Fail m) \<Rightarrow> (s', Some (''error stopping network on cleanup: '' @ m))
      | (s', _) \<Rightarrow> (s', Some ''error stopping network on cleanup''))"

definition undo_infra :: "Container \<Rightarrow> 'e srv cleanupFunc" where
  "undo_infra ctr s = (s\<lparr>cs := RemoveInfraContainer_cs ctr (cs s)\<rparr>, None)"

definition undo_started :: "'e pod_env \<Rightarrow> int option \<Rightarrow> Container \<Rightarrow> 'e srv cleanupFunc" where
  "undo_started env deadline ctr s =
     (case stopContainer (pe_svc env) ctr (stopTimeoutFromContext deadline) s of
        (s1, Reply _) \<Rightarrow>
          (case sv_runtimeDelete (pe_svc env) ctr (world s1) of
             (e2, Some m) \<Rightarrow> (s1\<lparr>world := e2\<rparr>, Some (''failed to delete container: '' @ m))
           | (e2, None) \<Rightarrow>
               (case pe_stateToDisk env ctr e2 of
                  (e3, Some m) \<Rightarrow> (s1\<lparr>world := e3\<rparr>, Some (''failed to write container state: '' @ m))
                | (e3, None) \<Rightarrow> (s1\<lparr>world := e3\<rparr>, None)))
      | (s1, _) \<Rightarrow> (s1, Some ''failed to stop container for removal''))"

section \<open>The network of a pod\<close>

definition bandwidth :: "(string \<Rightarrow> string + int option) \<Rightarrow> str_map \<Rightarrow> string \<Rightarrow> string + int" where
  "bandwidth parse anns key =
     (case anns key of None \<Rightarrow> Inr 0
      | Some val \<Rightarrow> (case parse val of Inl e \<Rightarrow> Inl e | Inr None \<Rightarrow> Inr 0 | Inr (Some n) \<Rightarrow> Inr n))"

definition newPodNetwork :: "'e pod_env \<Rightarrow> Sandbox \<Rightarrow> (string, PodNetwork) outcome" where
  "newPodNetwork env sb =
     (case criSandbox sb of None \<Rightarrow> Panic
      | Some p \<Rightarrow>
          (case bandwidth (pe_AsInt64 env) (ps_Annotations p) ''kubernetes.io/egress-bandwidth'' of
             Inl e \<Rightarrow> Err (''failed to parse egress bandwidth: '' @ e)
           | Inr egress \<Rightarrow>
               (case bandwidth (pe_AsInt64 env) (ps_Annotations p) ''kubernetes.io/ingress-bandwidth'' of
                  Inl e \<Rightarrow> Err (''failed to parse ingress bandwidth: '' @ e)
                | Inr ingress \<Rightarrow>
                    (case ps_Metadata p of None \<Rightarrow> Panic
                     | Some m \<Rightarrow>
                         Ok \<lparr>pn_Name = kubeName sb, pn_Namespace = sb_namespace sb, pn_UID = pm_Uid m, pn_ID = sb_ID sb,
                            pn_NetNS = nsPathGivenInfraPid (pe_procNsPath env) (netns sb) NETNS (infraPid (pe_Pid env) (infraContainer sb)),
                            pn_Bandwidth = (if 0 < ingress \<or> 0 < egress
                              then Some (if 0 < ingress then Some ingress else None, if 0 < egress then Some egress else None) else None),
                            pn_CgroupPath = cgroupParent sb, pn_PodAnnotations = ps_Annotations p\<rparr>))))"

text \<open>The ports are mapped to the first address of each family; an address is given with
  whether it is of the sixth version.\<close>

fun add_hostports :: "'e pod_env \<Rightarrow> Sandbox \<Rightarrow> bool \<Rightarrow> bool \<Rightarrow> (string \<times> bool) list \<Rightarrow> 'e \<Rightarrow> 'e \<times> string option" where
  "add_hostports env sb foundIPv4 foundIPv6 [] e = (e, None)"
| "add_hostports env sb foundIPv4 foundIPv6 ((ip, v6) # addrs) e =
     (if portMappings sb = [] \<or> (if v6 then foundIPv6 else foundIPv4) then add_hostports env sb foundIPv4 foundIPv6 addrs e
      else case pe_hostportAdd env (sb_ID sb) (sb_name sb) (portMappings sb) ip e of
             (e', Some m) \<Rightarrow> (e', Some (''failed to add hostport mapping for sandbox: '' @ m))
           | (e', None) \<Rightarrow> add_hostports env sb (foundIPv4 \<or> \<not> v6) (foundIPv6 \<or> v6) addrs e')"

text \<open>The plugin's set-up, the status and the port mappings.\<close>

definition set_up_network :: "'e pod_env \<Rightarrow> PodNetwork \<Rightarrow> Sandbox \<Rightarrow> 'e \<Rightarrow> 'e \<times> (string + string list \<times> string option)" where
  "set_up_network env pn sb e =
     (case pe_SetUpPod env pn e of
        (e1, Some m) \<Rightarrow> (e1, Inl (''failed to create pod network sandbox: '' @ m))
      | (e1, None) \<Rightarrow>
          (case pe_NetworkStatus env pn e1 of
             (e2, Inl m) \<Rightarrow> (e2, Inl (''failed to get network status for pod sandbox: '' @ m))
           | (e2, Inr (addrs, result)) \<Rightarrow>
               (case add_hostports env sb False False addrs e2 of
                  (e3, Some m) \<Rightarrow> (e3, Inl m) | (e3, None) \<Rightarrow> (e3, Inr (map fst addrs, result)))))"

text \<open>An error after the plugin has been called stops the network again; an error of that is
  only logged.\<close>

definition networkStart :: "'e pod_env \<Rightarrow> string \<Rightarrow> 'e run \<Rightarrow> 'e run \<times> (string list \<times> string option) reply" where
  "networkStart env i r =
     (let sb = the_pod i r
      in if hostNetwork sb then (r, Reply ([], None))
         else case newPodNetwork env sb of
                Err m \<Rightarrow> (r, Fail m) | Panic \<Rightarrow> (r, Crash)
              | Ok pn \<Rightarrow>
                  (case set_up_network env pn sb (world (ru_srv r)) of
                     (e, Inr res) \<Rightarrow> (r_world e r, Reply res)
                   | (e, Inl m) \<Rightarrow>
                       (let r1 = r_world e r
                        in (r1\<lparr>ru_srv := fst (networkStop (pe_svc env) sb (ru_srv r1))\<rparr>, Fail m))))"

section \<open>The phases\<close>

text \<open>The parameters of every phase: the environment, the request with its metadata, security
  context and namespace options, the identifier and the name of the pod, and the name of its
  container.\<close>

record 'e pod_args =
  pa_env :: "'e pod_env"
  pa_req :: RunPodSandboxRequest
  pa_meta :: PodSandboxMetadata
  pa_sec :: LinuxSandboxSecurityContext
  pa_opts :: NamespaceOption
  pa_logDirectory :: string
  pa_id :: string
  pa_name :: string
  pa_deadline :: "int option"

abbreviation host_network :: "'e pod_args \<Rightarrow> bool" where
  "host_network a \<equiv> no_Network (pa_opts a) = NS_NODE"

abbreviation host_ipc :: "'e pod_args \<Rightarrow> bool" where
  "host_ipc a \<equiv> no_Ipc (pa_opts a) = NS_NODE"

abbreviation host_pid :: "'e pod_args \<Rightarrow> bool" where
  "host_pid a \<equiv> no_Pid (pa_opts a) = NS_NODE"

abbreviation container_name :: "'e pod_args \<Rightarrow> string" where
  "container_name a \<equiv> makeSandboxContainerName (pa_meta a)"

abbreviation is_privileged :: "'e pod_args \<Rightarrow> bool" where
  "is_privileged a \<equiv> privilegedSandbox (Some (sc_Privileged (pa_sec a))) (Some (pa_opts a))"

definition ph_network_ready :: "'e pod_args \<Rightarrow> 'e phase" where
  "ph_network_ready a = v_steps
     [r_stage (pa_name a) ''sandbox creating'',
      r_do (r_sb (\<lambda>sb. sb\<lparr>hostNetwork := host_network a\<rparr>)),
      (if host_network a then r_do id else r_env (\<lambda>r. pe_waitCNI (pa_env a) (pa_name a))),
      r_stage (pa_name a) ''sandbox network ready'']"

text \<open>The annotations of the request override the defaults of the handler.\<close>

definition handler_annotations :: "'e pod_args \<Rightarrow> string \<Rightarrow> (string, str_map) outcome" where
  "handler_annotations a handler =
     outcome_bind (RuntimeDefaultAnnotations (pe_runtime (pa_env a)) handler) (\<lambda>defaults.
     outcome_bind (FilterDisallowedAnnotations (pe_runtime (pa_env a)) (pf_Workloads (pe_cfg (pa_env a)))
       (rp_Annotations (pa_req a)) (rp_Annotations (pa_req a)) handler) (\<lambda>filtered.
     Ok (defaults ++ filtered)))"

definition ph_handler :: "'e pod_args \<Rightarrow> 'e phase" where
  "ph_handler a = v_steps
     [r_sum (\<lambda>r. request_handler (pe_runtime (pa_env a)) (rp_RuntimeHandler (pa_req a))) (\<lambda>h. r_sb (\<lambda>sb. sb\<lparr>sb_runtimeHandler := h\<rparr>)),
      r_out (\<lambda>r. handler_annotations a (sb_runtimeHandler (ru_sb r)))
        (\<lambda>anns r. r\<lparr>ru_ann := anns, ru_sb := (ru_sb r)\<lparr>usernsMode := get_or '''' anns UsernsModeAnnotation\<rparr>\<rparr>)]"

text \<open>The name is reserved with an identifier of its own, which no container has.\<close>

definition ph_container_name :: "'e pod_args \<Rightarrow> string \<Rightarrow> 'e phase" where
  "ph_container_name a k r =
     (case ReserveContainerName k (container_name a) (cs (ru_srv r)) of
        (c, Some _) \<Rightarrow> (r_cs c r, Fail ''name is reserved'')
      | (c, None) \<Rightarrow> (r_undo (undo_name (container_name a)) (r_cs c r), Reply ()))"

definition ph_storage :: "'e pod_args \<Rightarrow> 'e phase" where
  "ph_storage a = v_steps
     [r_do (r_sb (\<lambda>sb. sb\<lparr>privileged := is_privileged a\<rparr>)),
      r_stage (pa_name a) ''sandbox storage creation'',
      r_get (\<lambda>r. pe_CreatePodSandbox (pa_env a) (pa_name a) (pa_id a) (container_name a) (sc_SelinuxOptions (pa_sec a)) (is_privileged a))
        (\<lambda>pc r. r_undo (undo_storage (pe_svc (pa_env a)) (pa_id a))
           (r\<lparr>ru_pc := pc, ru_processLabel := pc_ProcessLabel pc, ru_mountLabel := pc_MountLabel pc,
              ru_sb := (ru_sb r)\<lparr>processLabel := pc_ProcessLabel pc, mountLabel := pc_MountLabel pc\<rparr>\<rparr>))]"

definition log_directory :: "'e pod_args \<Rightarrow> string" where
  "log_directory a =
     (if pa_logDirectory a = '''' then filepath_Join [pf_LogDir (pe_cfg (pa_env a)), pa_id a] else pa_logDirectory a)"

definition ph_log_dir :: "'e pod_args \<Rightarrow> 'e phase" where
  "ph_log_dir a = v_steps
     [r_check (\<lambda>r. if has_prefix (log_directory a) ''/'' then None else Some ''requested logDir is a relative path''),
      r_env (\<lambda>r. pe_MkdirAll (pa_env a) (log_directory a)),
      r_do (r_sb (\<lambda>sb. sb\<lparr>logDir := log_directory a\<rparr>))]"

definition bind_mount :: "string \<Rightarrow> string \<Rightarrow> string list \<Rightarrow> Mount" where
  "bind_mount src dst opts = \<lparr>mnt_Destination = dst, mnt_Type = ''bind'', mnt_Source = src, mnt_Options = opts\<rparr>"

definition protected_mount :: "string \<Rightarrow> string \<Rightarrow> Mount" where
  "protected_mount src dst = bind_mount src dst [''ro'', ''bind'', ''nodev'', ''nosuid'', ''noexec'']"

definition InitInfraContainer :: "'e pod_args \<Rightarrow> 'e phase" where
  "InitInfraContainer a = v_steps
     [r_sum (\<lambda>r. PauseCommand (pe_cfg (pa_env a)) (ru_pc r)) (\<lambda>cmd. r_gen (\<lambda>_. (pe_defaultSpec (pa_env a))\<lparr>g_Args := cmd\<rparr>)),
      r_do (\<lambda>r. r_sb (\<lambda>sb. sb\<lparr>resolvPath := pc_RunDir (ru_pc r) @ ''/resolv.conf''\<rparr>) r),
      r_env (\<lambda>r. pe_resolvConf (pa_env a) (Option.bind (rp_Config (pa_req a)) cfg_DnsConfig) (resolvPath (ru_sb r))),
      r_do (\<lambda>r. r_gen (AddMount (protected_mount (resolvPath (ru_sb r)) ''/etc/resolv.conf'')) r),
      r_sum (\<lambda>r. SpecSetupCapabilities (pe_caps (pa_env a)) (Some \<lparr>AddCapabilities = [], DropCapabilities = []\<rparr>)
           (pf_DefaultCapabilities (pe_cfg (pa_env a))) (pf_AddInheritableCapabilities (pe_cfg (pa_env a))) (pg_gen (ru_g r)))
        (\<lambda>g. r_gen (\<lambda>_. g))]"

text \<open>Pods that share the processes or the IPC of the host have no SELinux separation.\<close>

definition ph_labels :: "'e pod_args \<Rightarrow> 'e phase" where
  "ph_labels a = v_steps
     [r_check (\<lambda>r. validateLabels (ru_labels r)),
      r_do (\<lambda>r. r\<lparr>ru_labels := label_put ''io.kubernetes.container.name'' ''POD'' (ru_labels r)\<rparr>),
      r_do (\<lambda>r. if host_pid a \<or> host_ipc a then r\<lparr>ru_processLabel := '''', ru_mountLabel := ''''\<rparr> else r),
      r_do (\<lambda>r. r_gen (\<lambda>g. RemoveMount ''/dev/shm'' (g\<lparr>g_SelinuxLabel := ru_processLabel r\<rparr>))
                  (r\<lparr>ru_g := (ru_g r)\<lparr>pg_MountLabel := ru_mountLabel r\<rparr>\<rparr>))]"

definition DefaultShmSize :: int where
  "DefaultShmSize = 64 * 1024 * 1024"

definition shm_size :: "'e pod_env \<Rightarrow> str_map \<Rightarrow> string + int" where
  "shm_size env anns =
     (case anns ShmSizeAnnotation of None \<Rightarrow> Inr DefaultShmSize
      | Some q \<Rightarrow> (case pe_ParseQuantity env q of Inl e \<Rightarrow> Inl (''failed to parse shm size: '' @ e) | Inr n \<Rightarrow> Inr n))"

definition ph_shm :: "'e pod_args \<Rightarrow> 'e phase" where
  "ph_shm a = v_steps
     [r_stage (pa_name a) ''sandbox shm creation'',
      (if host_ipc a then r_do (r_sb (\<lambda>sb. sb\<lparr>shmPath := ''/dev/shm''\<rparr>))
       else r_get (\<lambda>r e. case shm_size (pa_env a) (ru_ann r) of Inl m \<Rightarrow> (e, Inl m)
                          | Inr n \<Rightarrow> pe_SetupShm (pa_env a) (pc_RunDir (ru_pc r)) (ru_mountLabel r) n e)
              (\<lambda>p r. r_undo (undo_shm (pa_env a) p) (r_sb (\<lambda>sb. sb\<lparr>shmPath := p\<rparr>) r))),
      r_do (\<lambda>r. case ru_ann r LinkLogsAnnotation of None \<Rightarrow> r
                | Some v \<Rightarrow> r_world (pe_linkLogs (pa_env a) v (ru_mountLabel r) (world (ru_srv r))) r),
      r_stage (pa_name a) ''sandbox spec configuration'',
      r_do (\<lambda>r. r_gen (AddMount (bind_mount (shmPath (ru_sb r)) ''/dev/shm'' [''rw'', ''bind''])) r)]"

definition ph_ctr_index :: "'e pod_args \<Rightarrow> 'e phase" where
  "ph_ctr_index a r =
     (case trunc_Add (pa_id a) (ctrIDIndex (cs (ru_srv r))) of
        (ix, Some _) \<Rightarrow> (r_cs ((cs (ru_srv r))\<lparr>ctrIDIndex := ix\<rparr>) r, Fail ''index'')
      | (ix, None) \<Rightarrow> (r_undo (undo_index (pa_id a)) (r_cs ((cs (ru_srv r))\<lparr>ctrIDIndex := ix\<rparr>) r), Reply ()))"

definition log_path :: "'e pod_args \<Rightarrow> string" where
  "log_path a = filepath_Join [log_directory a, pa_id a @ ''.log'']"

definition ph_hostname :: "'e pod_args \<Rightarrow> 'e phase" where
  "ph_hostname a = v_steps
     [r_env (\<lambda>r. pe_EnsureSaneLogPath (pa_env a) (log_path a)),
      r_out (\<lambda>r. getHostname (pe_Hostname (pa_env a)) (pa_id a) (rp_Hostname (pa_req a)) (host_network a))
        (\<lambda>h r. r_sb (\<lambda>sb. sb\<lparr>hostname := h\<rparr>) (r\<lparr>ru_g := (ru_g r)\<lparr>pg_Hostname := h\<rparr>\<rparr>))]"

text \<open>The annotations that describe the pod, in the order in which they are written.\<close>

definition pod_annotations :: "'e pod_args \<Rightarrow> 'e run \<Rightarrow> (string \<times> string) list" where
  "pod_annotations a r =
     (let env = pa_env a; enc = pe_enc env; sb = ru_sb r; m = pa_meta a
      in [(crio ''Metadata'', en_podMetadata enc (Some m)), (crio ''Labels'', en_map enc (map_of (ru_labels r))),
          (crio ''Annotations'', en_map enc (ru_ann r)), (crio ''LogPath'', log_path a), (crio ''Name'', pa_name a),
          (crio ''SandboxName'', pa_name a), (crio ''Namespace'', pm_Namespace m), (crio ''ContainerType'', ''sandbox''),
          (crio ''SandboxID'', pa_id a), (crio ''Image'', pf_PauseImage (pe_cfg env)), (crio ''ImageName'', pf_PauseImage (pe_cfg env)),
          (crio ''ContainerName'', container_name a), (crio ''ContainerID'', pa_id a), (crio ''ShmPath'', shmPath sb),
          (crio ''PrivilegedRuntime'', FormatBool (is_privileged a)), (crio ''RuntimeHandler'', sb_runtimeHandler sb),
          (crio ''ResolvPath'', resolvPath sb), (crio ''HostName'', hostname sb), (crio ''NamespaceOptions'', en_nsOpts enc (pa_opts a)),
          (crio ''KubeName'', pm_Name m), (crio ''HostNetwork'', FormatBool (host_network a)), (''io.container.manager'', ''cri-o'')] @
         (if pc_StopSignal (ru_pc r) \<noteq> '''' then [(''org.opencontainers.image.stopSignal'', pc_StopSignal (ru_pc r))] else []))"

definition ph_describe :: "'e pod_args \<Rightarrow> 'e phase" where
  "ph_describe a = v_steps
     [r_do (\<lambda>r. r_gen (add_all (pod_annotations a r)) r),
      r_do (r_sb (\<lambda>sb. sb\<lparr>createdAt := pe_now (pa_env a)\<rparr>)),
      r_out (\<lambda>r. SetCRISandbox (pa_id a) (map_of (ru_labels r)) (ru_ann r) (Some (pa_meta a)) (NewBuilder\<lparr>sandboxRef := Some (ru_sb r)\<rparr>))
        (\<lambda>b r. r\<lparr>ru_sb := (case sandboxRef b of None \<Rightarrow> ru_sb r | Some sb \<Rightarrow> sb)\<rparr>),
      r_do (r_sb (\<lambda>sb. sb\<lparr>portMappings := convertPortMappings (rp_PortMappings (pa_req a))\<rparr>)),
      r_do (\<lambda>r. r_gen (add_all [(crio ''Created'', en_time (pe_enc (pa_env a)) (pe_now (pa_env a))),
                                 (crio ''PortMappings'', en_ports (pe_enc (pa_env a)) (portMappings (ru_sb r)))]) r)]"

definition ph_cgroup :: "'e pod_args \<Rightarrow> 'e phase" where
  "ph_cgroup a = v_steps
     [r_sum (\<lambda>r. case pe_minMemory (pa_env a) (sb_runtimeHandler (ru_sb r)) of Inl m \<Rightarrow> Inl m
               | Inr n \<Rightarrow> pe_SandboxCgroupPath (pa_env a) (rp_CgroupParent (pa_req a)) (pa_id a) n (world (ru_srv r)))
        (\<lambda>(parent, path) r. r_sb (\<lambda>sb. sb\<lparr>cgroupParent := parent\<rparr>)
           (r\<lparr>ru_g := (ru_g r)\<lparr>pg_CgroupsPath := (if path \<noteq> '''' then path else pg_CgroupsPath (ru_g r))\<rparr>\<rparr>)),
      r_do (r_sb (\<lambda>sb. sb\<lparr>podLinuxOverhead := rp_Overhead (pa_req a), podLinuxResources := rp_Resources (pa_req a)\<rparr>)),
      r_do (\<lambda>r. r_gen (add_all [(crio ''CgroupParent'', cgroupParent (ru_sb r)),
                                 (PodLinuxOverheadAnnotation, en_resources (pe_enc (pa_env a)) (rp_Overhead (pa_req a))),
                                 (PodLinuxResourcesAnnotation, en_resources (pe_enc (pa_env a)) (rp_Resources (pa_req a)))]) r)]"

definition ph_seccomp :: "'e pod_args \<Rightarrow> 'e phase" where
  "ph_seccomp a = v_steps
     [(if is_privileged a then r_do (\<lambda>r. r\<lparr>ru_seccomp := ''Unconfined''\<rparr>)
       else r_get (\<lambda>r. pe_seccompSetup (pa_env a) (sc_Seccomp (pa_sec a)) (pg_gen (ru_g r)))
              (\<lambda>(g, ref) r. r_gen (\<lambda>_. g) (r\<lparr>ru_seccomp := ref\<rparr>))),
      r_do (\<lambda>r. r_sb (\<lambda>sb. sb\<lparr>hostnamePath := pc_RunDir (ru_pc r) @ ''/hostname'',
          nsOpts := Some (en_nsOpts (pe_enc (pa_env a)) (pa_opts a)), sb_seccompProfilePath := ru_seccomp r\<rparr>) r)]"

definition ph_add_pod :: "'e pod_args \<Rightarrow> 'e phase" where
  "ph_add_pod a r =
     (case GetSandbox (NewBuilder\<lparr>sandboxRef := Some (ru_sb r)\<rparr>) of
        Err m \<Rightarrow> (r, Fail m) | Panic \<Rightarrow> (r, Crash)
      | Ok (_, sb) \<Rightarrow>
          (case AddSandbox (sv_level (pe_svc (pa_env a))) sb (cs (ru_srv r)) of
             (c, Some m) \<Rightarrow> (r_cs c r, Fail m)
           | (c, None) \<Rightarrow> (r_undo (undo_pod (pa_env a) (pa_id a)) (r_cs c r), Reply ())))"

definition ph_pod_index :: "'e pod_args \<Rightarrow> 'e phase" where
  "ph_pod_index a r =
     (case trunc_Add (pa_id a) (podIDIndex (cs (ru_srv r))) of
        (ix, Some _) \<Rightarrow> (r_cs ((cs (ru_srv r))\<lparr>podIDIndex := ix\<rparr>) r, Fail ''index'')
      | (ix, None) \<Rightarrow> (r_undo (undo_pod_index (pa_id a)) (r_cs ((cs (ru_srv r))\<lparr>podIDIndex := ix\<rparr>) r), Reply ()))"

text \<open>The annotations and labels of the request come after the server's own and override them.\<close>

definition ph_user_annotations :: "'e pod_args \<Rightarrow> 'e phase" where
  "ph_user_annotations a = v_steps
     [r_do (\<lambda>r. r_gen (\<lambda>g. g\<lparr>g_Annotations := g_Annotations g ++ ru_ann r ++ map_of (ru_labels r)\<rparr>) r),
      r_do (\<lambda>r. let (g, ret) = configureGeneratorForSysctls (pf_DefaultSysctls (pe_cfg (pa_env a))) (host_network a) (host_ipc a)
                               (rp_Sysctls (pa_req a)) (pg_Sysctl (ru_g r))
                in r\<lparr>ru_g := (ru_g r)\<lparr>pg_Sysctl := g\<rparr>, ru_sysctls := ret\<rparr>),
      r_stage (pa_name a) ''sandbox namespace creation'']"

text \<open>The network, IPC and host name namespaces are made, or shared with the host, and joined.
  After an error the namespaces that were made are left to the clean-up.\<close>

definition configureGeneratorForSandboxNamespaces :: "'e pod_args \<Rightarrow> 'e phase" where
  "configureGeneratorForSandboxNamespaces a = v_steps
     [r_sum (\<lambda>r. if host_pid a then RemoveLinuxNamespace ''pid'' (pg_gen (ru_g r)) else Inr (pg_gen (ru_g r))) (\<lambda>g. r_gen (\<lambda>_. g)),
      (\<lambda>r. case pe_NewPodNamespaces (pa_env a) (ru_sysctls r) [(IPCNS, host_ipc a), (NETNS, host_network a), (UTSNS, False)] (world (ru_srv r)) of
             (e, Inl m) \<Rightarrow> (r_world e r, Fail m)
           | (e, Inr nss) \<Rightarrow>
               (case AddManagedNamespaces nss (the_pod (pa_id a) r) of
                  Ok sb \<Rightarrow> (r_pod (pa_id a) (\<lambda>p. p\<lparr>netns := netns sb, ipcns := ipcns sb, utsns := utsns sb, userns := userns sb\<rparr>) (r_world e r), Reply ())
                | _ \<Rightarrow> (r_world e r, Crash))),
      (\<lambda>r. case ConfigureGeneratorGivenNamespacePaths
                  (NamespacePaths (pe_Pid (pa_env a)) (pe_procNsPath (pa_env a)) (the_pod (pa_id a) r)) (pg_gen (ru_g r)) of
             Inl m \<Rightarrow> (r_undo (undo_namespaces (pa_env a) (pa_id a) (the_pod (pa_id a) r)) r, Fail m)
           | Inr g \<Rightarrow> (r_gen (\<lambda>_. g) r, Reply ()))]"

definition ph_network :: "'e pod_args \<Rightarrow> 'e phase" where
  "ph_network a = v_steps
     [r_stage (pa_name a) ''sandbox network creation'',
      (\<lambda>r. let sb = the_pod (pa_id a) r
           in case networkStart (pa_env a) (pa_id a) r of
                (r1, Reply (addrs, result)) \<Rightarrow>
                  (r_gen (\<lambda>g. case result of None \<Rightarrow> g | Some res \<Rightarrow> AddAnnotation (crio ''CNIResult'') res g)
                     (r_undo (undo_network (pa_env a) (pa_id a) sb) (r1\<lparr>ru_ips := addrs\<rparr>)), Reply ())
              | (r1, Fail m) \<Rightarrow> (r_undo (undo_namespaces (pa_env a) (pa_id a) sb) r1, Fail m)
              | (r1, _) \<Rightarrow> (r1, Crash))]"

definition PodInfraOOMAdj :: int where
  "PodInfraOOMAdj = - 998"

definition PodInfraCPUshares :: int where
  "PodInfraCPUshares = 2"

definition ph_resources :: "'e pod_args \<Rightarrow> 'e phase" where
  "ph_resources a = v_steps
     [r_stage (pa_name a) ''sandbox storage start'',
      r_do (\<lambda>r. r_gen (\<lambda>g. AddAnnotation (crio ''MountPoint'') (pc_RootFs (ru_pc r))
          (g\<lparr>g_OOMScoreAdj := Some PodInfraOOMAdj,
             g_CPU := (g_CPU g)\<lparr>cpu_Shares := Some PodInfraCPUshares,
               cpu_Cpus := (if pf_InfraCtrCPUSet (pe_cfg (pa_env a)) \<noteq> '''' then pf_InfraCtrCPUSet (pe_cfg (pa_env a)) else cpu_Cpus (g_CPU g))\<rparr>\<rparr>)) r),
      r_env (\<lambda>r. pe_hostnameFile (pa_env a) (hostnamePath (ru_sb r)) (hostname (ru_sb r) @ [CHR 10]) (ru_mountLabel r)),
      r_do (\<lambda>r. r_gen (\<lambda>g. (case pe_rootless (pa_env a) of None \<Rightarrow> id | Some f \<Rightarrow> f)
          (AddAnnotation (crio ''HostnamePath'') (hostnamePath (ru_sb r)) (AddMount (protected_mount (hostnamePath (ru_sb r)) ''/etc/hostname'') g)))
          (r\<lparr>ru_g := (ru_g r)\<lparr>pg_RootPath := pc_RootFs (ru_pc r)\<rparr>\<rparr>)),
      r_do (\<lambda>r. r_pod (pa_id a) (\<lambda>p. p\<lparr>nsOpts := Some (en_nsOpts (pe_enc (pa_env a)) (pa_opts a))\<rparr>) r),
      r_do (\<lambda>r. r_gen (\<lambda>g. AddAnnotation (crio ''SeccompProfilePath'') (ru_seccomp r)
          (if pf_seccompDisabled (pe_cfg (pa_env a)) then g\<lparr>g_Seccomp := None\<rparr> else g)) r)]"

text \<open>A pod is kernel separated when its runtime is a virtual machine, by type or by name.\<close>

definition podIsKernelSeparated :: "Runtime \<Rightarrow> string \<Rightarrow> string \<Rightarrow> bool" where
  "podIsKernelSeparated r runtimeType handler =
     (runtimeType = ''vm'' \<or> str_contains (to_lower handler) ''kata'' \<or> (handler = '''' \<and> str_contains (to_lower (DefaultRuntime r)) ''kata''))"

definition infra_object :: "'e pod_args \<Rightarrow> bool \<Rightarrow> 'e run \<Rightarrow> Container" where
  "infra_object a kept r =
     (if kept
      then NewContainer (pa_id a) (container_name a) (pc_RunDir (ru_pc r)) (log_path a) (map_of (ru_labels r)) (g_Annotations (pg_gen (ru_g r)))
             (ru_ann r) (pf_PauseImage (pe_cfg (pa_env a))) None None '''' None (pa_id a) False False False (sb_runtimeHandler (ru_sb r))
             (pc_Dir (ru_pc r)) (pe_now (pa_env a)) (pc_StopSignal (ru_pc r))
      else NewSpoofedContainer (pa_id a) (container_name a) (map_of (ru_labels r)) (pa_id a) (pe_now (pa_env a)) (pc_RunDir (ru_pc r)))"

definition ph_infra :: "'e pod_args \<Rightarrow> 'e phase" where
  "ph_infra a r =
     (case RuntimeType (pe_runtime (pa_env a)) (sb_runtimeHandler (ru_sb r)) of
        Err m \<Rightarrow> (r, Fail m) | Panic \<Rightarrow> (r, Crash)
      | Ok runtimeType \<Rightarrow>
          (let separated = podIsKernelSeparated (pe_runtime (pa_env a)) runtimeType (sb_runtimeHandler (ru_sb r));
               kept = (NeedsInfra (pf_DropInfraCtr (pe_cfg (pa_env a))) (pa_opts a) \<or> separated);
               spec = (\<lambda>r. r\<lparr>ru_infra := SetSpec (pe_Spec (pa_env a) (ru_g r)) (SetMountPoint (pc_RootFs (ru_pc r)) (infra_object a kept r))\<rparr>)
           in if kept
              then (if separated
                    then r_sum (\<lambda>r. pe_KVMLabel (pa_env a) (ru_processLabel r))
                           (\<lambda>l r. spec (r_gen (\<lambda>g. g\<lparr>g_SelinuxLabel := l\<rparr>) (r\<lparr>ru_processLabel := l\<rparr>))) r
                    else (spec r, Reply ()))
              else v_steps [r_do (r_gen (AddAnnotation (crio ''Spoofed'') ''true'')),
                            r_env (\<lambda>r. pe_CreateSandboxCgroup (pa_env a) (cgroupParent (ru_sb r)) (pa_id a)),
                            r_do spec] r))"

text \<open>The infra container becomes part of the pod; its file of environment settings is written
  without heed to errors.\<close>

definition ph_set_infra :: "'e pod_args \<Rightarrow> 'e phase" where
  "ph_set_infra a r =
     (case SetInfraContainer (Some (ru_infra r)) (the_pod (pa_id a) r) of
        (_, Some m) \<Rightarrow> (r, Fail m)
      | (_, None) \<Rightarrow>
          (let path = path_join (c_dir (ru_infra r)) ''.containerenv'';
               new = (containerEnvPath (the_pod (pa_id a) r) = '''')
           in (r_pod (pa_id a) (\<lambda>p. p\<lparr>infraContainer := Some (ru_infra r), containerEnvPath := (if new then path else containerEnvPath p)\<rparr>)
                 (if new then r_world (pe_containerEnv (pa_env a) path (world (ru_srv r))) r else r), Reply ())))"

definition ph_save :: "'e pod_args \<Rightarrow> 'e phase" where
  "ph_save a = v_steps
     [r_env (\<lambda>r. pe_SaveToFile (pa_env a) (filepath_Join [pc_Dir (ru_pc r), ''config.json'']) (ru_g r)),
      r_env (\<lambda>r. pe_SaveToFile (pa_env a) (filepath_Join [pc_RunDir (ru_pc r), ''config.json'']) (ru_g r)),
      r_do (\<lambda>r. r_undo (undo_infra (ru_infra r)) (r_cs (AddInfraContainer (ru_infra r) (cs (ru_srv r))) r)),
      r_stage (pa_name a) ''sandbox container runtime creation'']"

text \<open>The runtime changes the object of the infra container, to which the pod and the store of
  infra containers point.\<close>

definition r_infra :: "'e pod_args \<Rightarrow> Container \<Rightarrow> 'e run \<Rightarrow> 'e run" where
  "r_infra a ctr r = r_pod (pa_id a) (\<lambda>p. p\<lparr>infraContainer := Some ctr\<rparr>) (r_cs (AddInfraContainer ctr (cs (ru_srv r))) (r\<lparr>ru_infra := ctr\<rparr>))"

text \<open>The clean-up that stops the container is registered only when it has been started.\<close>

definition ph_start :: "'e pod_args \<Rightarrow> 'e phase" where
  "ph_start a = v_steps
     [(\<lambda>r. let (e, ctr, err) = sv_runtimeCreate (pe_svc (pa_env a)) (ru_infra r) (world (ru_srv r))
           in (r_infra a ctr (r_world e r), case err of None \<Rightarrow> Reply () | Some m \<Rightarrow> Fail m)),
      r_env (\<lambda>r. pe_PreStart (pa_env a) (ru_infra r) (the_pod (pa_id a) r)),
      (\<lambda>r. case pe_StartContainer (pa_env a) (ru_infra r) (world (ru_srv r)) of
             (e, ctr, Some m) \<Rightarrow> (r_infra a ctr (r_world e r), Fail m)
           | (e, ctr, None) \<Rightarrow> (r_undo (undo_started (pa_env a) (pa_deadline a) ctr) (r_infra a ctr (r_world e r)), Reply ())),
      r_do (\<lambda>r. r_world (fst (pe_stateToDisk (pa_env a) (ru_infra r) (world (ru_srv r)))) r),
      r_do (\<lambda>r. r_gen (add_all (ip_annotations (ru_ips r))) r),
      r_do (\<lambda>r. r_pod (pa_id a) (AddIPs (ru_ips r)) r),
      r_env (\<lambda>r. pe_nriRun (pa_env a) (the_pod (pa_id a) r))]"

section \<open>The request\<close>

definition run_phases :: "'e pod_args \<Rightarrow> string \<Rightarrow> 'e phase list" where
  "run_phases a k =
     [ph_network_ready a, ph_handler a, ph_container_name a k, ph_storage a, ph_log_dir a, InitInfraContainer a, ph_labels a, ph_shm a,
      r_env (\<lambda>r. pe_setMountLabel (pa_env a) (pa_id a) (ru_mountLabel r)), ph_ctr_index a, ph_hostname a, ph_describe a, ph_cgroup a,
      ph_seccomp a, ph_add_pod a, ph_pod_index a, ph_user_annotations a, configureGeneratorForSandboxNamespaces a, ph_network a,
      ph_resources a, ph_infra a, ph_set_infra a, ph_save a, ph_start a]"

definition cleaner_of :: "'e srv cleanupFunc list \<Rightarrow> 'e srv ResourceCleaner" where
  "cleaner_of fs = foldl (\<lambda>cl f. cleaner_Add f cl) NewResourceCleaner fs"

definition empty_run :: "'e srv \<Rightarrow> 'e srv ResourceStore \<Rightarrow> 'e srv cleanupFunc list \<Rightarrow> Sandbox \<Rightarrow> SpecGen \<Rightarrow> (string \<times> string) list \<Rightarrow> 'e run" where
  "empty_run s rc undo sb g labels = \<lparr>ru_srv = s, ru_rc = rc, ru_undo = undo, ru_sb = sb,
     ru_g = \<lparr>pg_gen = g, pg_Hostname = '''', pg_CgroupsPath = '''', pg_MountLabel = '''', pg_RootPath = '''', pg_Sysctl = Map.empty\<rparr>,
     ru_labels = labels, ru_ann = Map.empty,
     ru_pc = \<lparr>pc_RunDir = '''', pc_Dir = '''', pc_RootFs = '''', pc_MountLabel = '''', pc_ProcessLabel = '''', pc_StopSignal = '''',
              pc_Entrypoint = [], pc_Cmd = []\<rparr>,
     ru_processLabel = '''', ru_mountLabel = '''', ru_infra = zero_Container, ru_ips = [], ru_sysctls = Map.empty, ru_seccomp = ''''\<rparr>"

text \<open>How the request ends: the server, the resource store, the error of the clean-up (which is
  only logged) and the reply. \<open>expired\<close>: the context of the request is done when the pod
  runs, and the pod is left in the resource store for the next attempt.\<close>

type_synonym 'e run_result = "'e srv \<times> 'e srv ResourceStore \<times> string option \<times> string reply"

definition finish_run :: "bool \<Rightarrow> 'e pod_args \<Rightarrow> 'e run \<times> unit reply \<Rightarrow> 'e run_result" where
  "finish_run expired a res =
     (case res of
        (r, Fail m) \<Rightarrow> (let (s, err) = Cleanup (cleaner_of (ru_undo r)) (ru_srv r) in (s, ru_rc r, err, Fail m))
      | (r, Crash) \<Rightarrow> (ru_srv r, ru_rc r, None, Crash)
      | (r, Hang) \<Rightarrow> (ru_srv r, ru_rc r, None, Hang)
      | (r, Reply _) \<Rightarrow>
          if expired
          then (case rs_Put (pa_name a) (Some (pa_id a)) (Some (cleaner_of (ru_undo r))) (ru_rc r) of
                  Inl PutBlocks \<Rightarrow> (ru_srv r, ru_rc r, None, Hang)
                | Inl _ \<Rightarrow> (ru_srv r, ru_rc r, None, Fail ''context done'')
                | Inr rc \<Rightarrow> (ru_srv r, rc, None, Fail ''context done''))
          else (let r1 = r_pod (pa_id a) sb_SetCreated r
                in (ru_srv r1, rs_Delete (pa_name a) (ru_rc r1), None, Reply (pa_id a))))"

text \<open>The name belongs to another request or pod.\<close>

definition run_duplicate :: "wait_end \<Rightarrow> string \<Rightarrow> 'e srv \<Rightarrow> 'e srv ResourceStore \<Rightarrow> 'e run_result" where
  "run_duplicate we name s rc =
     (case PodIDForName name (cs s) of
        Inl _ \<Rightarrow> (s, rc, None, Fail ''failed to get ID of pod with reserved name'')
      | Inr reservedID \<Rightarrow>
          if (case GetSandbox_cs reservedID (cs s) of None \<Rightarrow> False | Some sb \<Rightarrow> sb_created sb) then (s, rc, None, Reply reservedID)
          else (case getResourceOrWait we name rc of
                  (rc1, Inr cachedID) \<Rightarrow> (s\<lparr>cs := change_pod cachedID sb_SetCreated (cs s)\<rparr>, rc1, None, Reply cachedID)
                | (rc1, Inl m) \<Rightarrow> (s, rc1, None, Fail m)))"

text \<open>The two random identifiers are the parameters \<open>i\<close> and \<open>k\<close>.\<close>

definition runPodSandbox :: "'e pod_env \<Rightarrow> string \<Rightarrow> string \<Rightarrow> bool \<Rightarrow> wait_end \<Rightarrow> int option \<Rightarrow> RunPodSandboxRequest \<Rightarrow> 'e srv \<Rightarrow> 'e srv ResourceStore \<Rightarrow>
    'e run_result" where
  "runPodSandbox env i k expired we deadline q s rc =
     (case SetConfig (rp_Config q) NewBuilder of
        Inl m \<Rightarrow> (s, rc, None, Fail (''setting sandbox config: '' @ m))
      | Inr b \<Rightarrow>
          (case GenerateNameAndID i b of
             Err m \<Rightarrow> (s, rc, None, Fail (''setting pod sandbox name and id: '' @ m)) | Panic \<Rightarrow> (s, rc, None, Crash)
           | Ok b' \<Rightarrow>
               (case (Option.bind (b_config b') cfg_Metadata, Option.bind (b_config b') (\<lambda>cf. Option.bind (cfg_Linux cf) lc_SecurityContext),
                      sandboxRef b') of
                  (Some m, Some sec, Some sb0) \<Rightarrow>
                    (let name = sb_name sb0;
                         sb = sb0\<lparr>sb_namespace := pm_Namespace m, kubeName := pm_Name m, sb_containers := New_store\<rparr>;
                         a = \<lparr>pa_env = env, pa_req = q, pa_meta = m, pa_sec = sec,
                              pa_opts = (case rp_NamespaceOptions q of None \<Rightarrow> \<lparr>no_Network = NS_POD, no_Pid = NS_POD, no_Ipc = NS_POD\<rparr> | Some n \<Rightarrow> n),
                              pa_logDirectory = (case b_config b' of None \<Rightarrow> '''' | Some cf \<Rightarrow> cfg_LogDirectory cf), pa_id = i, pa_name = name, pa_deadline = deadline\<rparr>
                     in case ReservePodName i name (cs s) of
                          (c, Some _) \<Rightarrow> run_duplicate we name (s\<lparr>cs := c\<rparr>) rc
                        | (c, None) \<Rightarrow>
                            finish_run expired a (v_steps (run_phases a k)
                              (empty_run (s\<lparr>cs := c\<rparr>) rc [undo_pod_name name] sb (pe_defaultSpec env)
                                 (populateSandboxLabels (rp_Labels q) (pm_Name m) (pm_Uid m) (pm_Namespace m)))))
                | _ \<Rightarrow> (s, rc, None, Crash))))"

section \<open>What the clean-up restores\<close>

text \<open>The server without the pod, its infra container and the log of released labels.\<close>

definition server_rest :: "string \<Rightarrow> ContainerServer \<Rightarrow> ContainerServer" where
  "server_rest i c = c\<lparr>sandboxes := store_Delete i (sandboxes c), infraContainers := store_Delete i (infraContainers c), releasedLabels := []\<rparr>"

definition infra_id :: "'e pod_args \<Rightarrow> Container \<Rightarrow> bool" where
  "infra_id a x \<longleftrightarrow> ID x = pa_id a \<and> Sandbox_of x = pa_id a \<and> c_name x = container_name a"

definition fits :: "'e pod_args \<Rightarrow> string \<Rightarrow> bool \<Rightarrow> Sandbox \<Rightarrow> bool" where
  "fits a l nf p \<longleftrightarrow> sb_ID p = pa_id a \<and> sb_name p = pa_name a \<and> sb_containers p = New_store \<and> processLabel p = l \<and>
     (nf \<longrightarrow> (\<exists>y. infraContainer p = Some y \<and> infra_id a y))"

text \<open>A state of the server in the course of a request: the rest is \<open>x\<close>, and the pod with
  the process label \<open>l\<close> (\<open>pf\<close>) and its infra container (\<open>nf\<close>) are filed or not.\<close>

definition in_stage :: "'e pod_args \<Rightarrow> ContainerServer \<Rightarrow> string \<Rightarrow> bool \<Rightarrow> bool \<Rightarrow> ContainerServer \<Rightarrow> bool" where
  "in_stage a x l pf nf c \<longleftrightarrow> server_rest (pa_id a) c = x \<and> GetContainer (pa_id a) c = None \<and>
     (if pf then \<exists>p. GetSandbox_cs (pa_id a) c = Some p \<and> fits a l nf p else GetSandbox_cs (pa_id a) c = None) \<and>
     (store_Get (pa_id a) (infraContainers c) \<noteq> None) = nf"

lemma store_Delete_Add_same [simp]: "store_Delete i (store_Add i v st) = store_Delete i st"
  by (cases st) (simp add: store_Delete_def store_Add_def delete_update_same)

lemma server_rest_simps [simp]:
  "server_rest i (c\<lparr>ctrNameIndex := r\<rparr>) = (server_rest i c)\<lparr>ctrNameIndex := r\<rparr>" "server_rest i (c\<lparr>ctrIDIndex := ix\<rparr>) = (server_rest i c)\<lparr>ctrIDIndex := ix\<rparr>"
  "server_rest i (c\<lparr>podNameIndex := r\<rparr>) = (server_rest i c)\<lparr>podNameIndex := r\<rparr>" "server_rest i (c\<lparr>podIDIndex := ix\<rparr>) = (server_rest i c)\<lparr>podIDIndex := ix\<rparr>"
  "server_rest i (c\<lparr>processLevels := pl\<rparr>) = (server_rest i c)\<lparr>processLevels := pl\<rparr>" "server_rest i (c\<lparr>releasedLabels := rl\<rparr>) = server_rest i c"
  "server_rest i (put_sandbox i sb c) = server_rest i c" "server_rest i (change_pod i f c) = server_rest i c"
  "server_rest i (c\<lparr>sandboxes := store_Delete i (sandboxes c)\<rparr>) = server_rest i c"
  "server_rest i (c\<lparr>infraContainers := store_Add i v (infraContainers c)\<rparr>) = server_rest i c"
  "server_rest i (c\<lparr>infraContainers := store_Delete i (infraContainers c)\<rparr>) = server_rest i c"
  "ctrNameIndex (server_rest i c) = ctrNameIndex c" "ctrIDIndex (server_rest i c) = ctrIDIndex c" "podNameIndex (server_rest i c) = podNameIndex c"
  "podIDIndex (server_rest i c) = podIDIndex c" "processLevels (server_rest i c) = processLevels c" "containers (server_rest i c) = containers c"
  by (simp_all add: server_rest_def put_sandbox_def change_pod_def store_Delete_absent split: option.split)

lemma in_stage_field:
  assumes "in_stage a y l pf nf c"
  shows "in_stage a (y\<lparr>ctrNameIndex := n\<rparr>) l pf nf (c\<lparr>ctrNameIndex := n\<rparr>)" "in_stage a (y\<lparr>ctrIDIndex := ix\<rparr>) l pf nf (c\<lparr>ctrIDIndex := ix\<rparr>)"
    "in_stage a (y\<lparr>podNameIndex := n\<rparr>) l pf nf (c\<lparr>podNameIndex := n\<rparr>)" "in_stage a (y\<lparr>podIDIndex := ix\<rparr>) l pf nf (c\<lparr>podIDIndex := ix\<rparr>)"
  using assms by (auto simp: in_stage_def GetContainer_def GetSandbox_cs_def)

lemma in_stage_rest: "in_stage a x l pf nf c \<Longrightarrow> ctrNameIndex c = ctrNameIndex x \<and> ctrIDIndex c = ctrIDIndex x \<and> podNameIndex c = podNameIndex x \<and>
  podIDIndex c = podIDIndex x \<and> processLevels c = processLevels x"
  by (auto simp: in_stage_def)

text \<open>A change of the pod that keeps what identifies it.\<close>

definition keeps_pod :: "'e pod_args \<Rightarrow> bool \<Rightarrow> (Sandbox \<Rightarrow> Sandbox) \<Rightarrow> bool" where
  "keeps_pod a nf f \<longleftrightarrow> (\<forall>l p. fits a l nf p \<longrightarrow> fits a l nf (f p))"

lemma in_stage_change_pod: "keeps_pod a nf f \<Longrightarrow> in_stage a x l pf nf c \<Longrightarrow> in_stage a x l pf nf (change_pod (pa_id a) f c)"
  by (cases pf) (auto simp: in_stage_def keeps_pod_def)

text \<open>A change of the server a request or its clean-up may make without notice.\<close>

definition mild :: "'e pod_args \<Rightarrow> bool \<Rightarrow> bool \<Rightarrow> ContainerServer \<Rightarrow> ContainerServer \<Rightarrow> bool" where
  "mild a pf nf c c' \<longleftrightarrow> (\<forall>x l. in_stage a x l pf nf c \<longrightarrow> in_stage a x l pf nf c')"

lemma mild_refl [simp]: "mild a pf nf c c"
  by (simp add: mild_def)

lemma mild_trans: "mild a pf nf c d \<Longrightarrow> mild a pf nf d e \<Longrightarrow> mild a pf nf c e"
  by (simp add: mild_def)

lemma mild_change_pod: "keeps_pod a nf f \<Longrightarrow> mild a pf nf c (change_pod (pa_id a) f c)"
  by (simp add: mild_def in_stage_change_pod)

definition mild_undo :: "'e pod_args \<Rightarrow> bool \<Rightarrow> bool \<Rightarrow> 'e srv cleanupFunc \<Rightarrow> bool" where
  "mild_undo a pf nf g \<longleftrightarrow> (\<forall>s. mild a pf nf (cs s) (cs (fst (g s))))"

lemma mild_retry:
  assumes "mild_undo a pf nf g"
  shows "mild a pf nf (cs s) (cs (fst (retry g s)))"
proof -
  have "mild a pf nf (cs s) (cs (attempt g n s))" for n
  proof (induction n)
    case (Suc n)
    have "attempt g (Suc n) s = fst (g (attempt g n s))" by (simp add: attempt_def)
    then show ?case using mild_trans [OF Suc] assms by (simp add: mild_undo_def)
  qed (simp add: attempt_def)
  then show ?thesis
    using assms unfolding retry_def ExponentialBackoff_retry
    by (auto simp: mild_undo_def split: option.split intro: mild_trans)
qed

text \<open>The registered functions, run in reverse, lead from one state back to another.\<close>

definition undoable :: "'e pod_args \<Rightarrow> 'e srv cleanupFunc list \<Rightarrow> ContainerServer \<Rightarrow> string \<Rightarrow> bool \<Rightarrow> bool \<Rightarrow> ContainerServer \<Rightarrow> bool" where
  "undoable a fs x l pf nf x0 \<longleftrightarrow>
     (\<forall>s s'. in_stage a x l pf nf (cs s) \<longrightarrow> run_funcs (map retry (rev fs)) s = (s', None) \<longrightarrow> (\<exists>l'. in_stage a x0 l' False False (cs s')))"

lemma undoable_Nil: "undoable a [] x l False False x"
  by (auto simp: undoable_def)

lemma undoable_push:
  assumes "undoable a fs y l' pf' nf' x0"
    and "\<And>s s'. in_stage a x l pf nf (cs s) \<Longrightarrow> retry g s = (s', None) \<Longrightarrow> in_stage a y l' pf' nf' (cs s')"
  shows "undoable a (fs @ [g]) x l pf nf x0"
  using assms by (auto simp: undoable_def split: prod.splits option.splits)

lemma undoable_mild:
  assumes "undoable a fs x l pf nf x0" and "\<And>g. g \<in> set gs \<Longrightarrow> mild_undo a pf nf g"
  shows "undoable a (fs @ gs) x l pf nf x0"
  using assms(2)
proof (induction gs rule: rev_induct)
  case (snoc g gs)
  have m: "mild a pf nf (cs s) (cs (fst (retry g s)))" for s
    by (rule mild_retry) (simp add: snoc.prems)
  have "undoable a ((fs @ gs) @ [g]) x l pf nf x0"
  proof (rule undoable_push)
    show "undoable a (fs @ gs) x l pf nf x0" using snoc by simp
    show "in_stage a x l pf nf (cs s')" if "in_stage a x l pf nf (cs s)" "retry g s = (s', None)" for s s'
      using m [of s] that by (simp add: mild_def)
  qed
  then show ?case by simp
qed (simp add: assms(1))

subsection \<open>Phases\<close>

text \<open>A run in a stage, whose clean-up leads back to \<open>x0\<close>.\<close>

definition staged :: "'e pod_args \<Rightarrow> ContainerServer \<Rightarrow> ContainerServer \<Rightarrow> string \<Rightarrow> bool \<Rightarrow> bool \<Rightarrow> 'e run \<Rightarrow> bool" where
  "staged a x0 x l pf nf r \<longleftrightarrow> in_stage a x l pf nf (cs (ru_srv r)) \<and> undoable a (ru_undo r) x l pf nf x0"

definition revocable :: "'e pod_args \<Rightarrow> ContainerServer \<Rightarrow> 'e run \<Rightarrow> bool" where
  "revocable a x0 r \<longleftrightarrow> (\<exists>x l pf nf. staged a x0 x l pf nf r)"

text \<open>From a state with \<open>P\<close> a phase leads to one with \<open>Q\<close>, or fails in one with \<open>R\<close>.\<close>

definition triple :: "('e run \<Rightarrow> bool) \<Rightarrow> ('e run \<Rightarrow> bool) \<Rightarrow> 'e phase \<Rightarrow> ('e run \<Rightarrow> bool) \<Rightarrow> bool" where
  "triple R P f Q \<longleftrightarrow> (\<forall>r. P r \<longrightarrow> (case f r of (r', Reply _) \<Rightarrow> Q r' | (r', Fail _) \<Rightarrow> R r' | _ \<Rightarrow> True))"

lemma triple_Nil: "triple R P (v_steps []) P"
  by (simp add: triple_def)

lemma triple_Cons: "triple R P f Q \<Longrightarrow> triple R Q (v_steps fs) S \<Longrightarrow> triple R P (v_steps (f # fs)) S"
  unfolding triple_def by (fastforce split: prod.splits reply.splits)

lemma triple_conseq: "triple R P f Q \<Longrightarrow> (\<And>r. P' r \<Longrightarrow> P r) \<Longrightarrow> (\<And>r. Q r \<Longrightarrow> Q' r) \<Longrightarrow> triple R P' f Q'"
  unfolding triple_def by (fastforce split: prod.splits reply.splits)

text \<open>A phase that changes the server only mildly and registers only functions that do so; it
  keeps the property \<open>L\<close> of the local variables.\<close>

definition quiet :: "'e pod_args \<Rightarrow> bool \<Rightarrow> bool \<Rightarrow> ('e run \<Rightarrow> bool) \<Rightarrow> 'e phase \<Rightarrow> bool" where
  "quiet a pf nf L f \<longleftrightarrow> (\<forall>r. L r \<longrightarrow> L (fst (f r)) \<and> mild a pf nf (cs (ru_srv r)) (cs (ru_srv (fst (f r)))) \<and>
     (\<exists>gs. ru_undo (fst (f r)) = ru_undo r @ gs \<and> (\<forall>g \<in> set gs. mild_undo a pf nf g)))"

lemma quietI:
  assumes "\<And>r. L r \<Longrightarrow> L (fst (f r))" and "\<And>r. L r \<Longrightarrow> mild a pf nf (cs (ru_srv r)) (cs (ru_srv (fst (f r))))"
    and "\<And>r. L r \<Longrightarrow> ru_undo (fst (f r)) = ru_undo r"
  shows "quiet a pf nf L f"
  using assms by (simp add: quiet_def)

lemma quiet_triple:
  assumes "quiet a pf nf L f"
  shows "triple (revocable a x0) (\<lambda>r. L r \<and> staged a x0 x l pf nf r) f (\<lambda>r. L r \<and> staged a x0 x l pf nf r)"
proof -
  have "L (fst (f r)) \<and> staged a x0 x l pf nf (fst (f r))" if L: "L r" and st: "staged a x0 x l pf nf r" for r
  proof -
    obtain gs where "ru_undo (fst (f r)) = ru_undo r @ gs" "\<forall>g \<in> set gs. mild_undo a pf nf g" "L (fst (f r))"
        "mild a pf nf (cs (ru_srv r)) (cs (ru_srv (fst (f r))))"
      using assms L unfolding quiet_def by blast
    with st show ?thesis
      using undoable_mild [of a "ru_undo r" x l pf nf x0 gs] by (simp add: staged_def mild_def)
  qed
  then have *: "L r \<and> staged a x0 x l pf nf r \<Longrightarrow> f r = (r', z) \<Longrightarrow> L r' \<and> staged a x0 x l pf nf r'" for r r' z
    by (metis fst_conv)
  show ?thesis
    unfolding triple_def revocable_def
  proof (intro allI impI)
    fix r assume r: "L r \<and> staged a x0 x l pf nf r"
    obtain r' z where z: "f r = (r', z)" by (rule prod.exhaust)
    from * [OF r z] have st: "L r'" "staged a x0 x l pf nf r'" by simp_all
    then have "\<exists>x l pf nf. staged a x0 x l pf nf r'" by blast
    with st show "case f r of (r', Reply _) \<Rightarrow> L r' \<and> staged a x0 x l pf nf r' | (r', Fail _) \<Rightarrow> \<exists>x l pf nf. staged a x0 x l pf nf r' | _ \<Rightarrow> True"
      unfolding z by (simp split: reply.split)
  qed
qed

lemma quiet_steps:
  assumes "\<And>f. f \<in> set fs \<Longrightarrow> quiet a pf nf L f"
  shows "quiet a pf nf L (v_steps fs)"
proof -
  have "L r \<Longrightarrow> L (fst (v_steps fs r)) \<and> mild a pf nf (cs (ru_srv r)) (cs (ru_srv (fst (v_steps fs r)))) \<and>
     (\<exists>gs. ru_undo (fst (v_steps fs r)) = ru_undo r @ gs \<and> (\<forall>g \<in> set gs. mild_undo a pf nf g))" for r
    using assms
  proof (induction fs r rule: v_steps.induct)
    case (2 f fs r)
    obtain r' z where z: "f r = (r', z)" by (rule prod.exhaust)
    obtain gs where g: "L r'" "mild a pf nf (cs (ru_srv r)) (cs (ru_srv r'))" "ru_undo r' = ru_undo r @ gs"
        "\<forall>g \<in> set gs. mild_undo a pf nf g"
      using 2(2,3) [unfolded quiet_def] z by (metis fst_conv list.set_intros(1))
    show ?case
    proof (cases z)
      case (Reply u)
      have "L (fst (v_steps fs r')) \<and> mild a pf nf (cs (ru_srv r')) (cs (ru_srv (fst (v_steps fs r')))) \<and>
         (\<exists>gs. ru_undo (fst (v_steps fs r')) = ru_undo r' @ gs \<and> (\<forall>g \<in> set gs. mild_undo a pf nf g))"
        by (rule 2(1) [OF z [symmetric] Reply g(1)]) (use 2(3) in simp)
      then obtain gs' where "L (fst (v_steps fs r'))" "mild a pf nf (cs (ru_srv r')) (cs (ru_srv (fst (v_steps fs r'))))"
         "ru_undo (fst (v_steps fs r')) = ru_undo r' @ gs'" "\<forall>g \<in> set gs'. mild_undo a pf nf g" by blast
      then show ?thesis
        using g z Reply by (auto intro: mild_trans intro!: exI [of _ "gs @ gs'"])
    qed (use g z in auto)
  qed simp
  then show ?thesis by (simp add: quiet_def)
qed

lemma run_simps [simp]:
  "ru_undo (r_world e r) = ru_undo r" "ru_undo (r_cs c r) = ru_undo r" "cs (ru_srv (r_world e r)) = cs (ru_srv r)"
  "cs (ru_srv (r_cs c r)) = c" "ru_srv (r_sb f r) = ru_srv r" "ru_undo (r_sb f r) = ru_undo r" "ru_srv (r_gen g r) = ru_srv r"
  "ru_undo (r_gen g r) = ru_undo r" "ru_srv (r_undo u r) = ru_srv r" "ru_undo (r_undo u r) = ru_undo r @ [u]"
  "cs (ru_srv (r_pod i f r)) = change_pod i f (cs (ru_srv r))" "ru_undo (r_pod i f r) = ru_undo r"
  "ru_sb (r_world e r) = ru_sb r" "ru_sb (r_cs c r) = ru_sb r" "ru_sb (r_sb f r) = f (ru_sb r)" "ru_sb (r_gen g r) = ru_sb r"
  "ru_sb (r_undo u r) = ru_sb r" "ru_sb (r_pod i f r) = ru_sb r"
  "ru_infra (r_world e r) = ru_infra r" "ru_infra (r_cs c r) = ru_infra r" "ru_infra (r_sb f r) = ru_infra r" "ru_infra (r_gen g r) = ru_infra r"
  "ru_infra (r_undo u r) = ru_infra r" "ru_infra (r_pod i f r) = ru_infra r"
  by (simp_all add: r_world_def r_cs_def r_sb_def r_gen_def r_undo_def r_pod_def)

text \<open>The pod the builder makes.\<close>

definition builds :: "'e pod_args \<Rightarrow> 'e run \<Rightarrow> bool" where
  "builds a r \<longleftrightarrow> criSandbox (ru_sb r) \<noteq> None \<and> sb_ID (ru_sb r) = pa_id a \<and> sb_name (ru_sb r) = pa_name a \<and> sb_containers (ru_sb r) = New_store"

lemmas step_simps = r_do_def r_env_def r_get_def r_sum_def r_out_def r_check_def r_stage_def builds_def sb_ID_def

lemma quiet_simple:
  assumes "\<And>r. cs (ru_srv (fst (f r))) = cs (ru_srv r)" and "\<And>r. ru_undo (fst (f r)) = ru_undo r" and "\<And>r. L r \<Longrightarrow> L (fst (f r))"
  shows "quiet a pf nf L f"
  by (rule quietI) (simp_all add: assms)

lemma mild_undo_world: "(\<And>s. cs (fst (g s)) = cs s) \<Longrightarrow> mild_undo a pf nf g"
  by (simp add: mild_undo_def)

lemma undo_world_cs [simp]:
  "cs (fst (undo_storage svc i s)) = cs s" "cs (fst (undo_shm env p s)) = cs s" "cs (fst (undo_namespaces env i sb s)) = cs s"
  by (simp_all add: undo_storage_def undo_shm_def undo_namespaces_def split_beta)

lemma quiet_get:
  assumes "\<And>x r. cs (ru_srv (k x r)) = cs (ru_srv r)" and "\<And>x r. \<exists>g. ru_undo (k x r) = ru_undo r @ [g] \<and> mild_undo a pf nf g"
    and "\<And>x e r. L r \<Longrightarrow> L (r_world e r) \<and> L (k x (r_world e r))"
  shows "quiet a pf nf L (r_get f k)"
  unfolding quiet_def
proof (intro allI impI)
  fix r assume L: "L r"
  obtain e z where z: "f r (world (ru_srv r)) = (e, z)" by (rule prod.exhaust)
  show "L (fst (r_get f k r)) \<and> mild a pf nf (cs (ru_srv r)) (cs (ru_srv (fst (r_get f k r)))) \<and>
      (\<exists>gs. ru_undo (fst (r_get f k r)) = ru_undo r @ gs \<and> (\<forall>g \<in> set gs. mild_undo a pf nf g))"
  proof (cases z)
    case (Inl m)
    then show ?thesis using assms(3) [OF L] z by (simp add: r_get_def)
  next
    case (Inr x)
    obtain g where g: "ru_undo (k x (r_world e r)) = ru_undo (r_world e r) @ [g]" "mild_undo a pf nf g"
      using assms(2) [of x "r_world e r"] by blast
    then show ?thesis
      using assms(1) [of x "r_world e r"] assms(3) [OF L, of e x] z Inr by (simp add: r_get_def)
  qed
qed

text \<open>The kinds of steps.\<close>

lemma quiet_do:
  "(\<And>r. cs (ru_srv (f r)) = cs (ru_srv r)) \<Longrightarrow> (\<And>r. ru_undo (f r) = ru_undo r) \<Longrightarrow> (\<And>r. L r \<Longrightarrow> L (f r)) \<Longrightarrow> quiet a pf nf L (r_do f)"
  by (rule quiet_simple) (simp_all add: r_do_def)

lemma quiet_env: "(\<And>e r. L r \<Longrightarrow> L (r_world e r)) \<Longrightarrow> quiet a pf nf L (r_env f)"
  by (rule quiet_simple) (simp_all add: r_env_def split_beta)

lemma quiet_check: "quiet a pf nf L (r_check f)"
  by (rule quiet_simple) (simp_all add: r_check_def)

lemma quiet_sum:
  "(\<And>x r. cs (ru_srv (k x r)) = cs (ru_srv r)) \<Longrightarrow> (\<And>x r. ru_undo (k x r) = ru_undo r) \<Longrightarrow> (\<And>x r. L r \<Longrightarrow> L (k x r)) \<Longrightarrow>
    quiet a pf nf L (r_sum f k)"
  by (rule quiet_simple) (simp_all add: r_sum_def split: sum.split)

lemma quiet_out:
  "(\<And>x r. cs (ru_srv (k x r)) = cs (ru_srv r)) \<Longrightarrow> (\<And>x r. ru_undo (k x r) = ru_undo r) \<Longrightarrow>
    (\<And>x r. L r \<Longrightarrow> f r = Ok x \<Longrightarrow> L (k x r)) \<Longrightarrow> quiet a pf nf L (r_out f k)"
  by (rule quiet_simple) (simp_all add: r_out_def split: outcome.split)

lemma quiet_get_only:
  "(\<And>x r. cs (ru_srv (k x r)) = cs (ru_srv r)) \<Longrightarrow> (\<And>x r. ru_undo (k x r) = ru_undo r) \<Longrightarrow> (\<And>e r. L r \<Longrightarrow> L (r_world e r)) \<Longrightarrow>
    (\<And>x r. L r \<Longrightarrow> L (k x r)) \<Longrightarrow> quiet a pf nf L (r_get f k)"
  by (rule quiet_simple) (auto simp: r_get_def split: prod.split sum.split)

lemma quiet_list: "list_all (quiet a pf nf L) fs \<Longrightarrow> quiet a pf nf L (v_steps fs)"
  by (rule quiet_steps) (simp add: list_all_iff)

lemma builds_simps [simp]:
  "builds a (r_world e r) = builds a r" "builds a (r_cs c r) = builds a r" "builds a (r_gen g r) = builds a r"
  "builds a (r_undo u r) = builds a r" "builds a (r_pod i f r) = builds a r"
  "builds a (r\<lparr>ru_rc := rc\<rparr>) = builds a r" "builds a (r\<lparr>ru_g := sp\<rparr>) = builds a r" "builds a (r\<lparr>ru_labels := ls\<rparr>) = builds a r"
  "builds a (r\<lparr>ru_ann := an\<rparr>) = builds a r" "builds a (r\<lparr>ru_pc := pc\<rparr>) = builds a r" "builds a (r\<lparr>ru_processLabel := pl\<rparr>) = builds a r"
  "builds a (r\<lparr>ru_mountLabel := ml\<rparr>) = builds a r" "builds a (r\<lparr>ru_seccomp := sc\<rparr>) = builds a r"
  by (simp_all add: builds_def)

lemma builds_sb:
  "(\<And>sb. criSandbox (f sb) = criSandbox sb \<and> sb_name (f sb) = sb_name sb \<and> sb_containers (f sb) = sb_containers sb) \<Longrightarrow>
    builds a (r_sb f r) = builds a r"
  by (simp add: builds_def sb_ID_def)

lemma builds_CRI:
  assumes "builds a r" and "SetCRISandbox i labels anns md (NewBuilder\<lparr>sandboxRef := Some (ru_sb r)\<rparr>) = Ok b"
  shows "builds a (r\<lparr>ru_sb := (case sandboxRef b of None \<Rightarrow> ru_sb r | Some sb \<Rightarrow> sb)\<rparr>)"
  using assms by (auto simp: builds_def SetCRISandbox_def sb_ID_def split: if_splits)

lemmas quiet_intros = quiet_do quiet_env quiet_check quiet_sum quiet_out quiet_get_only builds_sb

lemma quiet_stage: "(\<And>r rc. L (r\<lparr>ru_rc := rc\<rparr>) = L r) \<Longrightarrow> quiet a pf nf L (r_stage name st)"
  unfolding r_stage_def by (rule quiet_do) simp_all

lemma quiet_prepare:
  "quiet a pf nf (builds a) (ph_network_ready a)" "quiet a pf nf (builds a) (ph_log_dir a)"
  "quiet a pf nf (builds a) (InitInfraContainer a)" "quiet a pf nf (builds a) (ph_labels a)" "quiet a pf nf (builds a) (ph_hostname a)"
  "quiet a pf nf (builds a) (r_env (\<lambda>r. pe_setMountLabel (pa_env a) (pa_id a) (ru_mountLabel r)))"
  unfolding ph_network_ready_def ph_log_dir_def InitInfraContainer_def ph_labels_def ph_hostname_def
  by (simp_all add: quiet_list quiet_stage quiet_intros)

lemma quiet_handler: "quiet a pf nf (builds a) (ph_handler a)"
proof -
  have "quiet a pf nf (builds a) (r_out f (\<lambda>anns r. r\<lparr>ru_ann := anns, ru_sb := (ru_sb r)\<lparr>usernsMode := get_or '''' anns UsernsModeAnnotation\<rparr>\<rparr>))" for f
    by (rule quiet_out) (simp_all add: builds_def sb_ID_def)
  then show ?thesis
    unfolding ph_handler_def by (simp add: quiet_list quiet_intros)
qed

lemma quiet_describe: "quiet a pf nf (builds a) (ph_describe a)" "quiet a pf nf (builds a) (ph_cgroup a)" "quiet a pf nf (builds a) (ph_seccomp a)"
  unfolding ph_describe_def ph_cgroup_def ph_seccomp_def
  by (simp_all add: quiet_list quiet_intros builds_CRI split_beta)

lemma quiet_storage: "quiet a pf nf (builds a) (ph_storage a)" "quiet a pf nf (builds a) (ph_shm a)"
proof -
  have 1: "quiet a pf nf (builds a)
     (r_get f (\<lambda>pc r. r_undo (undo_storage svc i) (r\<lparr>ru_pc := pc, ru_processLabel := pc_ProcessLabel pc, ru_mountLabel := pc_MountLabel pc,
              ru_sb := (ru_sb r)\<lparr>processLabel := pc_ProcessLabel pc, mountLabel := pc_MountLabel pc\<rparr>\<rparr>)))" for f svc i
    by (rule quiet_get) (simp_all add: mild_undo_world builds_def sb_ID_def)
  have 2: "quiet a pf nf (builds a) (r_get f (\<lambda>p r. r_undo (undo_shm env p) (r_sb (\<lambda>sb. sb\<lparr>shmPath := p\<rparr>) r)))" for f env
    by (rule quiet_get) (simp_all add: mild_undo_world builds_sb)
  have 3: "quiet a pf nf (builds a) (r_do (\<lambda>r. case ru_ann r LinkLogsAnnotation of None \<Rightarrow> r
                | Some v \<Rightarrow> r_world (pe_linkLogs (pa_env a) v (ru_mountLabel r) (world (ru_srv r))) r))"
    by (rule quiet_do) (simp_all split: option.split)
  show "quiet a pf nf (builds a) (ph_storage a)" "quiet a pf nf (builds a) (ph_shm a)"
    unfolding ph_storage_def ph_shm_def by (simp_all add: quiet_list quiet_stage quiet_intros 1 2 3)
qed

subsection \<open>Acquisitions\<close>

text \<open>A phase that acquires something: it fails without a change, or it changes the rest and
  registers a function that takes the change back.\<close>

lemma acquire:
  assumes "\<And>r r' m. staged a x0 x l pf nf r \<Longrightarrow> L r \<Longrightarrow> f r = (r', Fail m) \<Longrightarrow> ru_undo r' = ru_undo r \<and> in_stage a x l pf nf (cs (ru_srv r'))"
    and "\<And>r r'. staged a x0 x l pf nf r \<Longrightarrow> L r \<Longrightarrow> f r = (r', Reply ()) \<Longrightarrow>
      L' r' \<and> (\<exists>g. ru_undo r' = ru_undo r @ [g] \<and> in_stage a y l' pf' nf' (cs (ru_srv r')) \<and>
        (\<forall>s s'. in_stage a y l' pf' nf' (cs s) \<longrightarrow> retry g s = (s', None) \<longrightarrow> in_stage a x l pf nf (cs s')))"
  shows "triple (revocable a x0) (\<lambda>r. L r \<and> staged a x0 x l pf nf r) f (\<lambda>r. L' r \<and> staged a x0 y l' pf' nf' r)"
  unfolding triple_def
proof (intro allI impI)
  fix r assume r: "L r \<and> staged a x0 x l pf nf r"
  obtain r' z where z: "f r = (r', z)" by (rule prod.exhaust)
  show "case f r of (r', Reply _) \<Rightarrow> L' r' \<and> staged a x0 y l' pf' nf' r' | (r', Fail _) \<Rightarrow> revocable a x0 r' | _ \<Rightarrow> True"
  proof (cases z)
    case (Reply u)
    obtain g where g: "L' r'" "ru_undo r' = ru_undo r @ [g]" "in_stage a y l' pf' nf' (cs (ru_srv r'))"
        "\<forall>s s'. in_stage a y l' pf' nf' (cs s) \<longrightarrow> retry g s = (s', None) \<longrightarrow> in_stage a x l pf nf (cs s')"
      using assms(2) [of r r'] r z Reply by auto
    moreover have "undoable a (ru_undo r @ [g]) y l' pf' nf' x0"
      by (rule undoable_push [of a "ru_undo r" x l pf nf]) (use r g(4) in \<open>auto simp: staged_def\<close>)
    ultimately show ?thesis using z Reply by (simp add: staged_def)
  next
    case (Fail m)
    then have "staged a x0 x l pf nf r'" using assms(1) [of r r' m] r z by (simp add: staged_def)
    then show ?thesis using z Fail by (auto simp: revocable_def)
  qed (use z in simp_all)
qed

text \<open>An acquisition that replaces one field of the server by \<open>v\<close>, when it is possible
  (\<open>ok\<close>), and whose clean-up puts \<open>w\<close> back.\<close>

lemma acquire_field:
  assumes field: "\<And>u y c. in_stage a y l pf nf c \<Longrightarrow> in_stage a (upd u y) l pf nf (upd u c)" and restore: "upd w (upd v x) = x"
    and run: "\<And>r. staged a x0 x l pf nf r \<Longrightarrow> if ok then f r = (r_undo g (r_cs (upd v (cs (ru_srv r))) r), Reply ())
       else f r = (r_cs (cs (ru_srv r)) r, Fail m)"
    and L: "\<And>r c u. L r \<Longrightarrow> L (r_undo u (r_cs c r))"
    and undo: "\<And>s. ok \<Longrightarrow> in_stage a (upd v x) l pf nf (cs s) \<Longrightarrow> g s = (s\<lparr>cs := upd w (cs s)\<rparr>, None)"
  shows "triple (revocable a x0) (\<lambda>r. L r \<and> staged a x0 x l pf nf r) f (\<lambda>r. L r \<and> staged a x0 (upd v x) l pf nf r)"
proof (rule acquire)
  fix r r' m' assume st: "staged a x0 x l pf nf r" and f: "f r = (r', Fail m')"
  then show "ru_undo r' = ru_undo r \<and> in_stage a x l pf nf (cs (ru_srv r'))"
    using run [OF st] by (auto simp: staged_def split: if_splits)
next
  fix r r' assume st: "staged a x0 x l pf nf r" and "L r" and f: "f r = (r', Reply ())"
  then have ok and r': "r' = r_undo g (r_cs (upd v (cs (ru_srv r))) r)" using run [OF st] by (auto split: if_splits)
  have "in_stage a x l pf nf (cs s')" if "in_stage a (upd v x) l pf nf (cs s)" "retry g s = (s', None)" for s s'
    using undo [OF \<open>ok\<close> that(1)] that(2) field [OF that(1), of w] by (auto simp: retry_ok restore)
  then show "L r' \<and> (\<exists>g. ru_undo r' = ru_undo r @ [g] \<and> in_stage a (upd v x) l pf nf (cs (ru_srv r')) \<and>
      (\<forall>s s'. in_stage a (upd v x) l pf nf (cs s) \<longrightarrow> retry g s = (s', None) \<longrightarrow> in_stage a x l pf nf (cs s')))"
    using r' st field L [OF \<open>L r\<close>] by (auto simp: staged_def)
qed

lemma staged_rest:
  assumes "staged a x0 x l pf nf r"
  shows "ctrNameIndex (cs (ru_srv r)) = ctrNameIndex x" "ctrIDIndex (cs (ru_srv r)) = ctrIDIndex x" "podIDIndex (cs (ru_srv r)) = podIDIndex x"
    "processLevels (cs (ru_srv r)) = processLevels x"
  using assms by (auto simp: staged_def dest: in_stage_rest)

lemma acquire_container_name:
  assumes reg: "registrar_inv (ctrNameIndex x)" and k: "names (ctrNameIndex x) (container_name a) \<noteq> Some k"
  shows "triple (revocable a x0) (\<lambda>r. builds a r \<and> staged a x0 x l pf nf r) (ph_container_name a k)
    (\<lambda>r. builds a r \<and> staged a x0 (x\<lparr>ctrNameIndex := fst (Reserve (container_name a) k (ctrNameIndex x))\<rparr>) l pf nf r)"
proof (rule acquire_field [where upd = "\<lambda>n c. c\<lparr>ctrNameIndex := n\<rparr>" and w = "ctrNameIndex x" and g = "undo_name (container_name a)" and
      ok = "names (ctrNameIndex x) (container_name a) = None" and m = "''name is reserved''"], goal_cases)
  case (3 r)
  have same: "(cs (ru_srv r))\<lparr>ctrNameIndex := ctrNameIndex x\<rparr> = cs (ru_srv r)" by (simp add: staged_rest(1) [OF 3, symmetric])
  from 3 show ?case
    using k
    by (auto simp: same ph_container_name_def ReserveContainerName_def Let_def Reserve_def staged_rest split: option.split)
next
  case (5 s)
  have "ctrNameIndex (cs s) = fst (Reserve (container_name a) k (ctrNameIndex x))" using in_stage_rest [OF 5(2)] by simp
  then show ?case using Release_Reserve [OF reg 5(1)] by (simp add: undo_name_def ReleaseContainerName_def)
qed (simp_all add: in_stage_field)

lemma acquire_ctr_index:
  assumes "trunc_inv (ctrIDIndex x)"
  shows "triple (revocable a x0) (\<lambda>r. builds a r \<and> staged a x0 x l pf nf r) (ph_ctr_index a)
    (\<lambda>r. builds a r \<and> staged a x0 (x\<lparr>ctrIDIndex := fst (trunc_Add (pa_id a) (ctrIDIndex x))\<rparr>) l pf nf r)"
proof (rule acquire_field [where upd = "\<lambda>n c. c\<lparr>ctrIDIndex := n\<rparr>" and w = "ctrIDIndex x" and g = "undo_index (pa_id a)" and
      ok = "snd (trunc_Add (pa_id a) (ctrIDIndex x)) = None" and m = "''index''"], goal_cases)
  case (3 r)
  have same: "(cs (ru_srv r))\<lparr>ctrIDIndex := ctrIDIndex x\<rparr> = cs (ru_srv r)" by (simp add: staged_rest(2) [OF 3, symmetric])
  from 3 show ?case
    using trunc_Add_failed [OF assms, of "pa_id a"]
    by (auto simp: same ph_ctr_index_def staged_rest split: prod.split option.split)
next
  case (5 s)
  then show ?case
    using in_stage_rest [OF 5(2)] trunc_Delete_Add [OF assms 5(1)] by (simp add: undo_index_ok)
qed (simp_all add: in_stage_field)

lemma undo_pod_index_ok: "undo_pod_index i s = (s\<lparr>cs := (cs s)\<lparr>podIDIndex := fst (trunc_Delete i (podIDIndex (cs s)))\<rparr>\<rparr>, None)"
  by (auto simp: undo_pod_index_def trunc_Delete_def Let_def split: prod.splits)

lemma acquire_pod_index:
  assumes "trunc_inv (podIDIndex x)"
  shows "triple (revocable a x0) (\<lambda>r. builds a r \<and> staged a x0 x l pf nf r) (ph_pod_index a)
    (\<lambda>r. builds a r \<and> staged a x0 (x\<lparr>podIDIndex := fst (trunc_Add (pa_id a) (podIDIndex x))\<rparr>) l pf nf r)"
proof (rule acquire_field [where upd = "\<lambda>n c. c\<lparr>podIDIndex := n\<rparr>" and w = "podIDIndex x" and g = "undo_pod_index (pa_id a)" and
      ok = "snd (trunc_Add (pa_id a) (podIDIndex x)) = None" and m = "''index''"], goal_cases)
  case (3 r)
  have same: "(cs (ru_srv r))\<lparr>podIDIndex := podIDIndex x\<rparr> = cs (ru_srv r)" by (simp add: staged_rest(3) [OF 3, symmetric])
  from 3 show ?case
    using trunc_Add_failed [OF assms, of "pa_id a"]
    by (auto simp: same ph_pod_index_def staged_rest split: prod.split option.split)
next
  case (5 s)
  then show ?case
    using in_stage_rest [OF 5(2)] trunc_Delete_Add [OF assms 5(1)] by (simp add: undo_pod_index_ok)
qed (simp_all add: in_stage_field)

text \<open>The level of the pod's label is counted once more, and once less by the clean-up.\<close>

definition count_level :: "string \<Rightarrow> ContainerServer \<Rightarrow> ContainerServer" where
  "count_level lv x = x\<lparr>processLevels := (processLevels x)(lv \<mapsto> get_or 0 (processLevels x) lv + 1)\<rparr>"

lemma undo_pod_back:
  assumes pos: "\<And>lv. processLevels x lv \<noteq> Some 0" and lv: "sv_level (pe_svc env) l = Some lv"
    and st: "in_stage a (count_level lv x) l True False (cs s)"
  shows "snd (undo_pod env (pa_id a) s) = None \<and> in_stage a x l' False False (cs (fst (undo_pod env (pa_id a) s)))"
proof -
  obtain p where p: "GetSandbox_cs (pa_id a) (cs s) = Some p" "processLabel p = l" using st by (auto simp: in_stage_def fits_def)
  have pl: "processLevels (cs s) = (processLevels x)(lv \<mapsto> get_or 0 (processLevels x) lv + 1)"
    using in_stage_rest [OF st] by (simp add: count_level_def)
  have x: "server_rest (pa_id a) (cs s) = count_level lv x" using st by (simp add: in_stage_def)
  have restored: "(count_level lv x)\<lparr>processLevels := processLevels x\<rparr> = x" by (simp add: count_level_def)
  obtain rl where rm: "RemoveSandbox (sv_level (pe_svc env)) (pa_id a) (cs s) =
      ((cs s)\<lparr>processLevels := processLevels x, releasedLabels := rl, sandboxes := store_Delete (pa_id a) (sandboxes (cs s))\<rparr>, None)"
  proof (cases "processLevels x lv")
    case None
    then have "map_delete lv ((processLevels x)(lv \<mapsto> n)) = processLevels x" for n by (auto simp: map_delete_def)
    then show ?thesis
      using that [of "releasedLabels (cs s) @ [processLabel p]"] p lv pl None by (simp add: RemoveSandbox_def removeSandboxPlatform_def)
  next
    case (Some n)
    then have "(processLevels x)(lv \<mapsto> n) = processLevels x" by auto
    then show ?thesis
      using that [of "releasedLabels (cs s)"] p lv pl Some pos [of lv] by (simp add: RemoveSandbox_def removeSandboxPlatform_def)
  qed
  have "server_rest (pa_id a) ((cs s)\<lparr>processLevels := processLevels x, releasedLabels := rl, sandboxes := store_Delete (pa_id a) (sandboxes (cs s))\<rparr>) =
      (server_rest (pa_id a) (cs s))\<lparr>processLevels := processLevels x\<rparr>"
    by (simp add: server_rest_def store_Delete_absent)
  then show ?thesis
    using st x restored by (simp add: undo_pod_def rm in_stage_def GetContainer_def GetSandbox_cs_def)
qed

lemma acquire_pod:
  assumes pos: "\<And>lv. processLevels x lv \<noteq> Some 0" and lv: "sv_level (pe_svc (pa_env a)) l' = Some lv"
  shows "triple (revocable a x0) (\<lambda>r. (builds a r \<and> processLabel (ru_sb r) = l') \<and> staged a x0 x l False False r) (ph_add_pod a)
    (\<lambda>r. builds a r \<and> staged a x0 (count_level lv x) l' True False r)"
proof (rule acquire)
  fix r r' m assume "builds a r \<and> processLabel (ru_sb r) = l'" "ph_add_pod a r = (r', Fail m)"
  then show "ru_undo r' = ru_undo r \<and> in_stage a x l False False (cs (ru_srv r'))"
    using lv by (auto simp: ph_add_pod_def GetSandbox_def AddSandbox_def addSandboxPlatform_def builds_def)
next
  fix r r' assume st: "staged a x0 x l False False r" and b: "builds a r \<and> processLabel (ru_sb r) = l'" and f: "ph_add_pod a r = (r', Reply ())"
  have r': "r' = r_undo (undo_pod (pa_env a) (pa_id a)) (r_cs (count_level lv (put_sandbox (pa_id a) (ru_sb r) (cs (ru_srv r)))) r)"
    using f b lv by (auto simp: ph_add_pod_def GetSandbox_def AddSandbox_def addSandboxPlatform_def builds_def count_level_def put_sandbox_def)
  have "fits a l' False (ru_sb r)" using b by (simp add: fits_def builds_def)
  then have "in_stage a (count_level lv x) l' True False (cs (ru_srv r'))"
    using st r' by (auto simp: staged_def in_stage_def count_level_def GetContainer_def GetSandbox_cs_def put_sandbox_def server_rest_def)
  moreover have "in_stage a x l False False (cs s')" if "in_stage a (count_level lv x) l' True False (cs s)"
      "retry (undo_pod (pa_env a) (pa_id a)) s = (s', None)" for s s'
    using undo_pod_back [OF pos lv that(1), of l] retry_ok [of "undo_pod (pa_env a) (pa_id a)" s] that(2) by simp
  ultimately show "builds a r' \<and> (\<exists>g. ru_undo r' = ru_undo r @ [g] \<and> in_stage a (count_level lv x) l' True False (cs (ru_srv r')) \<and>
      (\<forall>s s'. in_stage a (count_level lv x) l' True False (cs s) \<longrightarrow> retry g s = (s', None) \<longrightarrow> in_stage a x l False False (cs s')))"
    using r' b by auto
qed

subsection \<open>The filed pod\<close>

lemma in_stage_pod: "in_stage a x l True nf c \<Longrightarrow> sb_ID (pod_at (pa_id a) sb c) = pa_id a"
  by (auto simp: in_stage_def pod_at_def fits_def)

lemma keeps_pod_update:
  "keeps_pod a nf (\<lambda>p. p\<lparr>networkStopped := b\<rparr>)" "keeps_pod a nf (\<lambda>p. p\<lparr>nsOpts := o'\<rparr>)" "keeps_pod a nf (AddIPs addrs)"
  "keeps_pod a nf (\<lambda>p. p\<lparr>netns := n1, ipcns := n2, utsns := n3, userns := n4\<rparr>)" "keeps_pod a nf sb_SetCreated"
  by (simp_all add: keeps_pod_def fits_def sb_ID_def AddIPs_def sb_SetCreated_def)

lemma networkStop_mild: "mild a True nf (cs s) (cs (fst (networkStop svc (pod_at (pa_id a) sb (cs s)) s)))"
  unfolding mild_def
proof (intro allI impI)
  fix x l assume st: "in_stage a x l True nf (cs s)"
  have "networkStop svc (pod_at (pa_id a) sb (cs s)) s = (fst (networkStop svc (pod_at (pa_id a) sb (cs s)) s), snd (networkStop svc (pod_at (pa_id a) sb (cs s)) s))"
    by simp
  from networkStop_cs [OF this] show "in_stage a x l True nf (cs (fst (networkStop svc (pod_at (pa_id a) sb (cs s)) s)))"
    using st in_stage_change_pod [OF keeps_pod_update(1) [of a nf True] st] in_stage_pod [OF st] by auto
qed

lemma undo_network_mild: "mild_undo a True nf (undo_network env (pa_id a) sb)"
  unfolding mild_undo_def
proof
  fix s
  obtain s' z where z: "networkStop (pe_svc env) (pod_at (pa_id a) sb (cs s)) s = (s', z)" by (rule prod.exhaust)
  have "mild a True nf (cs s) (cs s')" using networkStop_mild [of a nf s "pe_svc env" sb] z by simp
  then show "mild a True nf (cs s) (cs (fst (undo_network env (pa_id a) sb s)))"
    using z by (cases z) (simp_all add: undo_network_def)
qed

lemma networkStart_mild:
  assumes "networkStart env (pa_id a) r = (r', z)"
  shows "mild a True nf (cs (ru_srv r)) (cs (ru_srv r'))" and "ru_undo r' = ru_undo r" and "builds a r' = builds a r"
proof -
  have "mild a True nf (cs (ru_srv r)) (cs (fst (networkStop (pe_svc env) (the_pod (pa_id a) r) (ru_srv (r_world e r)))))" for e
    using networkStop_mild [of a nf "ru_srv (r_world e r)" "pe_svc env" "ru_sb r"] by (simp add: the_pod_def)
  then show "mild a True nf (cs (ru_srv r)) (cs (ru_srv r'))" "ru_undo r' = ru_undo r" "builds a r' = builds a r"
    using assms by (auto simp: networkStart_def Let_def builds_def split: if_splits outcome.splits prod.splits sum.splits)
qed

lemma quiet_registers:
  assumes "\<And>r. L r \<Longrightarrow> L (fst (f r)) \<and> mild a pf nf (cs (ru_srv r)) (cs (ru_srv (fst (f r)))) \<and>
    (ru_undo (fst (f r)) = ru_undo r \<or> (\<exists>g. ru_undo (fst (f r)) = ru_undo r @ [g] \<and> mild_undo a pf nf g))"
  shows "quiet a pf nf L f"
  unfolding quiet_def
proof (intro allI impI)
  fix r assume "L r"
  from assms [OF this] show "L (fst (f r)) \<and> mild a pf nf (cs (ru_srv r)) (cs (ru_srv (fst (f r)))) \<and>
     (\<exists>gs. ru_undo (fst (f r)) = ru_undo r @ gs \<and> (\<forall>g \<in> set gs. mild_undo a pf nf g))"
    by (metis append_Nil2 empty_iff empty_set set_ConsD)
qed

lemma builds_late [simp]:
  "builds a (r\<lparr>ru_infra := y\<rparr>) = builds a r" "builds a (r\<lparr>ru_ips := addrs\<rparr>) = builds a r" "builds a (r\<lparr>ru_sysctls := sy\<rparr>) = builds a r"
  by (simp_all add: builds_def)

lemma quiet_namespaces: "quiet a True nf (builds a) (ph_user_annotations a)" "quiet a True nf (builds a) (configureGeneratorForSandboxNamespaces a)"
proof -
  have 1: "quiet a True nf (builds a) (r_do (\<lambda>r. let (g, ret) = configureGeneratorForSysctls d hn hi sy (pg_Sysctl (ru_g r))
                in r\<lparr>ru_g := (ru_g r)\<lparr>pg_Sysctl := g\<rparr>, ru_sysctls := ret\<rparr>))" for d hn hi sy
    by (rule quiet_do) (simp_all add: split_beta builds_def)
  have 2: "quiet a True nf (builds a) (\<lambda>r. case f r (world (ru_srv r)) of
             (e, Inl m) \<Rightarrow> (r_world e r, Fail m)
           | (e, Inr nss) \<Rightarrow>
               (case AddManagedNamespaces nss (the_pod (pa_id a) r) of
                  Ok sb \<Rightarrow> (r_pod (pa_id a) (\<lambda>p. p\<lparr>netns := netns sb, ipcns := ipcns sb, utsns := utsns sb, userns := userns sb\<rparr>) (r_world e r), Reply ())
                | _ \<Rightarrow> (r_world e r, Crash)))" for f
    by (rule quietI) (auto simp: mild_change_pod keeps_pod_update split: prod.split sum.split outcome.split)
  have 3: "quiet a True nf (builds a) (\<lambda>r. case f r of
             Inl m \<Rightarrow> (r_undo (undo_namespaces (pa_env a) (pa_id a) (the_pod (pa_id a) r)) r, Fail m)
           | Inr g \<Rightarrow> (r_gen (\<lambda>_. g) r, Reply ()))" for f
    by (rule quiet_registers) (simp add: mild_undo_world split: sum.split)
  show "quiet a True nf (builds a) (ph_user_annotations a)" "quiet a True nf (builds a) (configureGeneratorForSandboxNamespaces a)"
    unfolding ph_user_annotations_def configureGeneratorForSandboxNamespaces_def
    by (rule quiet_list, simp only: list.pred_inject simp_thms, intro conjI,
        (rule 1 2 3 | (rule quiet_stage quiet_do quiet_sum; simp))+)+
qed

lemma quiet_network: "quiet a True nf (builds a) (ph_network a)"
proof -
  have "quiet a True nf (builds a) (\<lambda>r. let sb = the_pod (pa_id a) r
           in case networkStart (pa_env a) (pa_id a) r of
                (r1, Reply (addrs, result)) \<Rightarrow>
                  (r_gen (\<lambda>g. case result of None \<Rightarrow> g | Some res \<Rightarrow> AddAnnotation (crio ''CNIResult'') res g)
                     (r_undo (undo_network (pa_env a) (pa_id a) sb) (r1\<lparr>ru_ips := addrs\<rparr>)), Reply ())
              | (r1, Fail m) \<Rightarrow> (r_undo (undo_namespaces (pa_env a) (pa_id a) sb) r1, Fail m)
              | (r1, _) \<Rightarrow> (r1, Crash))" (is "quiet _ _ _ _ ?f")
  proof (rule quiet_registers)
    fix r :: "'a run" assume "builds a r"
    obtain r1 z where z: "networkStart (pa_env a) (pa_id a) r = (r1, z)" by (rule prod.exhaust)
    show "builds a (fst (?f r)) \<and> mild a True nf (cs (ru_srv r)) (cs (ru_srv (fst (?f r)))) \<and>
      (ru_undo (fst (?f r)) = ru_undo r \<or> (\<exists>g. ru_undo (fst (?f r)) = ru_undo r @ [g] \<and> mild_undo a True nf g))"
      using networkStart_mild [OF z] z \<open>builds a r\<close>
      by (cases z) (simp_all add: mild_undo_world undo_network_mild split_beta)
  qed
  then show ?thesis unfolding ph_network_def by (simp add: quiet_list quiet_stage)
qed

lemma quiet_resources: "quiet a True nf (builds a) (ph_resources a)"
proof -
  have "quiet a True nf (builds a) (r_do (\<lambda>r. r_pod (pa_id a) (\<lambda>p. p\<lparr>nsOpts := o'\<rparr>) r))" for o'
    by (rule quietI) (simp_all add: r_do_def mild_change_pod keeps_pod_update)
  then show ?thesis
    unfolding ph_resources_def by (simp add: quiet_list quiet_stage quiet_intros)
qed

subsection \<open>The infra container\<close>

lemma triple_and: "triple R P f Q \<Longrightarrow> (\<And>r r' u. P r \<Longrightarrow> f r = (r', Reply u) \<Longrightarrow> Q' r') \<Longrightarrow> triple R P f (\<lambda>r. Q' r \<and> Q r)"
  unfolding triple_def by (fastforce split: prod.splits reply.splits)

lemma infra_object_id: "infra_id a (SetSpec sp (SetMountPoint mp (infra_object a kept r)))"
  by (cases kept) (simp_all add: infra_id_def infra_object_def SetSpec_def SetRuntimeUser_def SetResources_def SetMountPoint_def NewContainer_def
      NewSpoofedContainer_def ID_def Sandbox_of_def Let_def split: option.split)

lemma quiet_infra: "quiet a True nf (builds a) (ph_infra a)"
  by (rule quietI)
    (auto simp: ph_infra_def Let_def r_sum_def r_do_def r_env_def split: outcome.split sum.split prod.split option.split)

lemma ph_infra_id: "ph_infra a r = (r', Reply u) \<Longrightarrow> infra_id a (ru_infra r')"
  by (auto simp: ph_infra_def Let_def r_sum_def r_do_def r_env_def infra_object_id split: outcome.splits sum.splits prod.splits option.splits if_splits)

text \<open>The filed pod has the infra container.\<close>

definition infra_set :: "'e pod_args \<Rightarrow> 'e run \<Rightarrow> bool" where
  "infra_set a r \<longleftrightarrow> infra_id a (ru_infra r) \<and>
     (\<forall>p. GetSandbox_cs (pa_id a) (cs (ru_srv r)) = Some p \<longrightarrow> infraContainer p = Some (ru_infra r))"

lemma infra_set_simps [simp]:
  "infra_set a (r_world e r) = infra_set a r" "infra_set a (r\<lparr>ru_rc := rc\<rparr>) = infra_set a r" "infra_set a (r_gen g r) = infra_set a r"
  "infra_set a (r_undo u r) = infra_set a r"
  by (simp_all add: infra_set_def)

lemma set_infra_triple:
  "triple (revocable a x0) (\<lambda>r. infra_id a (ru_infra r) \<and> builds a r \<and> staged a x0 x l True False r) (ph_set_infra a)
     (\<lambda>r. infra_set a r \<and> staged a x0 x l True False r)"
proof -
  have "quiet a True False (\<lambda>r. infra_id a (ru_infra r)) (ph_set_infra a)"
  proof (rule quietI)
    fix r :: "'a run"
    have "keeps_pod a False (\<lambda>p. p\<lparr>infraContainer := Some y, containerEnvPath := h p\<rparr>)"
        "keeps_pod a False (\<lambda>p. p\<lparr>infraContainer := Some y\<rparr>)" for y h
      by (simp_all add: keeps_pod_def fits_def sb_ID_def)
    then show "mild a True False (cs (ru_srv r)) (cs (ru_srv (fst (ph_set_infra a r))))"
      by (auto simp: ph_set_infra_def Let_def mild_change_pod split: prod.split option.split)
  qed (auto simp: ph_set_infra_def Let_def split: prod.split option.split)
  from quiet_triple [OF this, of x0 x l]
  have "triple (revocable a x0) (\<lambda>r. infra_id a (ru_infra r) \<and> staged a x0 x l True False r) (ph_set_infra a)
     (\<lambda>r. infra_set a r \<and> infra_id a (ru_infra r) \<and> staged a x0 x l True False r)"
    by (rule triple_and) (auto simp: ph_set_infra_def Let_def infra_set_def split: prod.splits option.splits)
  then show ?thesis by (rule triple_conseq) auto
qed

lemma acquire_infra:
  "triple (revocable a x0) (\<lambda>r. infra_set a r \<and> staged a x0 x l True False r)
     (r_do (\<lambda>r. r_undo (undo_infra (ru_infra r)) (r_cs (AddInfraContainer (ru_infra r) (cs (ru_srv r))) r)))
     (\<lambda>r. infra_id a (ru_infra r) \<and> staged a x0 x l True True r)"
proof (rule acquire)
  fix r r' :: "'a run" assume st: "staged a x0 x l True False r" and i: "infra_set a r"
    and f: "r_do (\<lambda>r. r_undo (undo_infra (ru_infra r)) (r_cs (AddInfraContainer (ru_infra r) (cs (ru_srv r))) r)) r = (r', Reply ())"
  have id: "ID (ru_infra r) = pa_id a" using i by (simp add: infra_set_def infra_id_def)
  have r': "r' = r_undo (undo_infra (ru_infra r)) (r_cs (AddInfraContainer (ru_infra r) (cs (ru_srv r))) r)" using f by (simp add: r_do_def)
  have "in_stage a x l True False (cs s')" if "in_stage a x l True True (cs s)" "retry (undo_infra (ru_infra r)) s = (s', None)" for s s'
    using that id retry_ok [of "undo_infra (ru_infra r)" s]
    by (auto simp: undo_infra_def RemoveInfraContainer_cs_def in_stage_def GetContainer_def GetSandbox_cs_def fits_def)
  moreover have "in_stage a x l True True (cs (ru_srv r'))"
    using st i id r' by (auto simp: staged_def in_stage_def AddInfraContainer_def GetContainer_def GetSandbox_cs_def fits_def infra_set_def)
  ultimately show "infra_id a (ru_infra r') \<and> (\<exists>g. ru_undo r' = ru_undo r @ [g] \<and> in_stage a x l True True (cs (ru_srv r')) \<and>
      (\<forall>s s'. in_stage a x l True True (cs s) \<longrightarrow> retry g s = (s', None) \<longrightarrow> in_stage a x l True False (cs s')))"
    using r' i by (auto simp: infra_set_def)
qed (simp add: r_do_def)

lemma save_triple:
  "triple (revocable a x0) (\<lambda>r. infra_set a r \<and> staged a x0 x l True False r) (ph_save a)
     (\<lambda>r. infra_id a (ru_infra r) \<and> staged a x0 x l True True r)"
proof -
  have "quiet a True True (\<lambda>r. infra_id a (ru_infra r)) (r_stage n st)" for n st
    by (rule quiet_stage) simp
  moreover have "quiet a True False (infra_set a) (r_env f)" for f
    by (rule quiet_env) simp
  ultimately show ?thesis
    unfolding ph_save_def
    by (intro triple_Cons [OF quiet_triple] triple_Cons [OF acquire_infra] triple_Nil)
qed

text \<open>Starting the container, like creating and stopping it, keeps what identifies it.\<close>

definition start_ok :: "'e pod_env \<Rightarrow> bool" where
  "start_ok env \<longleftrightarrow> services_ok (pe_svc env) \<and> (\<forall>ctr e. same_identity (fst (snd (pe_StartContainer env ctr e))) ctr)"

lemma infra_id_same: "same_identity y z \<Longrightarrow> infra_id a z \<Longrightarrow> infra_id a y"
  by (simp add: same_identity_def infra_id_def)

lemma in_stage_changed: "in_stage a x l True nf c \<Longrightarrow> infra_id a y \<Longrightarrow> changed y c = c"
  by (auto simp: in_stage_def infra_id_def changed_def fits_def sb_GetContainer_def)

lemma undo_started_mild:
  fixes env :: "'b pod_env"
  assumes "services_ok (pe_svc env)" and "infra_id a y"
  shows "mild_undo a True True (undo_started env d y)"
  unfolding mild_undo_def mild_def
proof (intro allI impI)
  fix s :: "'b srv" and x l assume st: "in_stage a x l True True (cs s)"
  obtain s1 z where z: "stopContainer (pe_svc env) y (stopTimeoutFromContext d) s = (s1, z)" by (rule prod.exhaust)
  from stopContainer_touched [OF assms(1) z] have "cs s1 = cs s"
    using in_stage_changed [OF st] infra_id_same [OF _ assms(2)] by (auto simp: touched_def)
  then show "in_stage a x l True True (cs (fst (undo_started env d y s)))"
    using st by (auto simp: undo_started_def z split: reply.split prod.split option.split)
qed

lemma r_infra_simps [simp]:
  "ru_undo (r_infra a y r) = ru_undo r" "ru_infra (r_infra a y r) = y"
  "cs (ru_srv (r_infra a y r)) = change_pod (pa_id a) (\<lambda>p. p\<lparr>infraContainer := Some y\<rparr>) (AddInfraContainer y (cs (ru_srv r)))"
  by (simp_all add: r_infra_def r_pod_def r_cs_def)

lemma mild_infra:
  assumes "infra_id a y"
  shows "mild a True True c (change_pod (pa_id a) (\<lambda>p. p\<lparr>infraContainer := Some y\<rparr>) (AddInfraContainer y c))"
proof -
  have "mild a True True c (AddInfraContainer y c)"
    using assms by (auto simp: mild_def in_stage_def AddInfraContainer_def infra_id_def GetContainer_def GetSandbox_cs_def)
  moreover have "keeps_pod a True (\<lambda>p. p\<lparr>infraContainer := Some y\<rparr>)" using assms by (simp add: keeps_pod_def fits_def sb_ID_def)
  ultimately show ?thesis by (rule mild_trans [OF _ mild_change_pod])
qed

lemma quiet_start:
  fixes a :: "'b pod_args"
  assumes "start_ok (pa_env a)"
  shows "quiet a True True (\<lambda>r. infra_id a (ru_infra r)) (ph_start a)"
proof -
  let ?L = "\<lambda>r. infra_id a (ru_infra r)"
  have svc: "services_ok (pe_svc (pa_env a))" and start: "\<And>y e. same_identity (fst (snd (pe_StartContainer (pa_env a) y e))) y"
    using assms by (simp_all add: start_ok_def)
  have 1: "quiet a True True ?L (\<lambda>r. let (e, ctr, err) = sv_runtimeCreate (pe_svc (pa_env a)) (ru_infra r) (world (ru_srv r))
           in (r_infra a ctr (r_world e r), case err of None \<Rightarrow> Reply () | Some m \<Rightarrow> Fail m))"
    by (rule quietI) (auto split: prod.split dest!: services_okD(2) [OF svc] intro: infra_id_same intro!: mild_infra)
  have 2: "quiet a True True ?L (\<lambda>r. case pe_StartContainer (pa_env a) (ru_infra r) (world (ru_srv r)) of
             (e, ctr, Some m) \<Rightarrow> (r_infra a ctr (r_world e r), Fail m)
           | (e, ctr, None) \<Rightarrow> (r_undo (undo_started (pa_env a) (pa_deadline a) ctr) (r_infra a ctr (r_world e r)), Reply ()))" (is "quiet _ _ _ _ ?f")
  proof (rule quiet_registers)
    fix r :: "'b run" assume L: "?L r"
    obtain e y err where s: "pe_StartContainer (pa_env a) (ru_infra r) (world (ru_srv r)) = (e, y, err)" by (metis prod.exhaust)
    have "infra_id a y" using start [of "ru_infra r" "world (ru_srv r)"] s infra_id_same [OF _ L] by simp
    then show "?L (fst (?f r)) \<and> mild a True True (cs (ru_srv r)) (cs (ru_srv (fst (?f r)))) \<and>
      (ru_undo (fst (?f r)) = ru_undo r \<or> (\<exists>g. ru_undo (fst (?f r)) = ru_undo r @ [g] \<and> mild_undo a True True g))"
      by (cases err) (simp_all add: s mild_infra undo_started_mild [OF svc])
  qed
  have 3: "quiet a True True ?L (r_do (\<lambda>r. r_pod (pa_id a) (AddIPs (ru_ips r)) r))"
    by (rule quietI) (simp_all add: r_do_def mild_change_pod keeps_pod_update)
  show ?thesis
    unfolding ph_start_def
    by (rule quiet_list, simp only: list.pred_inject simp_thms, intro conjI, (rule 1 2 3 | (rule quiet_env quiet_do; simp))+)
qed

section \<open>The whole request\<close>

lemma triple_Ex: "(\<And>z. triple R (P z) f Q) \<Longrightarrow> triple R (\<lambda>r. \<exists>z. P z r) f Q"
  unfolding triple_def by (fastforce split: prod.splits reply.splits)

text \<open>The server, without the pod, in the course of a request that succeeds.\<close>

definition named_rest :: "'e pod_args \<Rightarrow> string \<Rightarrow> ContainerServer \<Rightarrow> ContainerServer" where
  "named_rest a k x = x\<lparr>ctrNameIndex := fst (Reserve (container_name a) k (ctrNameIndex x))\<rparr>"

definition indexed_rest :: "'e pod_args \<Rightarrow> string \<Rightarrow> ContainerServer \<Rightarrow> ContainerServer" where
  "indexed_rest a k x = (named_rest a k x)\<lparr>ctrIDIndex := fst (trunc_Add (pa_id a) (ctrIDIndex (named_rest a k x)))\<rparr>"

definition filed_rest :: "'e pod_args \<Rightarrow> string \<Rightarrow> string \<Rightarrow> ContainerServer \<Rightarrow> ContainerServer" where
  "filed_rest a k lv x = (count_level lv (indexed_rest a k x))\<lparr>podIDIndex := fst (trunc_Add (pa_id a) (podIDIndex (count_level lv (indexed_rest a k x))))\<rparr>"

lemma triple_frame: "triple R P f Q \<Longrightarrow> triple R (\<lambda>r. C \<and> P r) f (\<lambda>r. C \<and> Q r)"
  unfolding triple_def by (fastforce split: prod.splits reply.splits)

text \<open>A request that goes on has got the name and the two identifiers.\<close>

lemma container_name_triple:
  assumes "registrar_inv (ctrNameIndex x)" and "names (ctrNameIndex x) (container_name a) \<noteq> Some k"
  shows "triple (revocable a x0) (\<lambda>r. builds a r \<and> staged a x0 x l pf nf r) (ph_container_name a k)
    (\<lambda>r. names (ctrNameIndex x) (container_name a) = None \<and> builds a r \<and> staged a x0 (named_rest a k x) l pf nf r)"
  unfolding named_rest_def using acquire_container_name [OF assms]
proof (rule triple_and)
  fix r r' :: "'a run" and u assume "builds a r \<and> staged a x0 x l pf nf r" "ph_container_name a k r = (r', Reply u)"
  then show "names (ctrNameIndex x) (container_name a) = None"
    using assms(2) by (auto simp: ph_container_name_def ReserveContainerName_def Let_def Reserve_def staged_rest split: option.splits if_splits prod.splits)
qed

lemma ctr_index_triple:
  assumes "trunc_inv (ctrIDIndex x)"
  shows "triple (revocable a x0) (\<lambda>r. builds a r \<and> staged a x0 x l pf nf r) (ph_ctr_index a)
    (\<lambda>r. snd (trunc_Add (pa_id a) (ctrIDIndex x)) = None \<and> builds a r \<and>
       staged a x0 (x\<lparr>ctrIDIndex := fst (trunc_Add (pa_id a) (ctrIDIndex x))\<rparr>) l pf nf r)"
  using acquire_ctr_index [OF assms]
proof (rule triple_and)
  fix r r' :: "'a run" and u assume "builds a r \<and> staged a x0 x l pf nf r" "ph_ctr_index a r = (r', Reply u)"
  then show "snd (trunc_Add (pa_id a) (ctrIDIndex x)) = None"
    by (auto simp: ph_ctr_index_def staged_rest split: option.splits prod.splits)
qed

lemma pod_index_triple:
  assumes "trunc_inv (podIDIndex x)"
  shows "triple (revocable a x0) (\<lambda>r. builds a r \<and> staged a x0 x l pf nf r) (ph_pod_index a)
    (\<lambda>r. snd (trunc_Add (pa_id a) (podIDIndex x)) = None \<and> builds a r \<and>
       staged a x0 (x\<lparr>podIDIndex := fst (trunc_Add (pa_id a) (podIDIndex x))\<rparr>) l pf nf r)"
  using acquire_pod_index [OF assms]
proof (rule triple_and)
  fix r r' :: "'a run" and u assume "builds a r \<and> staged a x0 x l pf nf r" "ph_pod_index a r = (r', Reply u)"
  then show "snd (trunc_Add (pa_id a) (podIDIndex x)) = None"
    by (auto simp: ph_pod_index_def staged_rest split: option.splits prod.splits)
qed

lemmas early_triples = quiet_prepare [THEN quiet_triple] quiet_handler [THEN quiet_triple] quiet_describe [THEN quiet_triple]
  quiet_storage [THEN quiet_triple]

lemmas late_triples = quiet_namespaces [THEN quiet_triple] quiet_network [THEN quiet_triple] quiet_resources [THEN quiet_triple]

abbreviation late_phases :: "'e pod_args \<Rightarrow> 'e phase list" where
  "late_phases a \<equiv> [ph_add_pod a, ph_pod_index a, ph_user_annotations a, configureGeneratorForSandboxNamespaces a, ph_network a,
     ph_resources a, ph_infra a, ph_set_infra a, ph_save a, ph_start a]"

lemma pod_filed_triple:
  fixes a :: "'e pod_args"
  assumes env: "start_ok (pa_env a)" and pod: "trunc_inv (podIDIndex x)" and pos: "\<And>lv. processLevels x lv \<noteq> Some 0"
    and lv: "sv_level (pe_svc (pa_env a)) l' = Some lv"
  shows "triple (revocable a x0) (\<lambda>r. (builds a r \<and> processLabel (ru_sb r) = l') \<and> staged a x0 x l False False r) (v_steps (late_phases a))
     (\<lambda>r. snd (trunc_Add (pa_id a) (podIDIndex x)) = None \<and> infra_id a (ru_infra r) \<and>
        staged a x0 ((count_level lv x)\<lparr>podIDIndex := fst (trunc_Add (pa_id a) (podIDIndex (count_level lv x)))\<rparr>) l' True True r)"
proof -
  let ?y = "(count_level lv x)\<lparr>podIDIndex := fst (trunc_Add (pa_id a) (podIDIndex (count_level lv x)))\<rparr>"
  have same: "podIDIndex (count_level lv x) = podIDIndex x" by (simp add: count_level_def)
  then have pod': "trunc_inv (podIDIndex (count_level lv x))" using pod by simp
  have infra: "triple (revocable a x0) (\<lambda>r. builds a r \<and> staged a x0 ?y l' True False r) (ph_infra a)
     (\<lambda>r. infra_id a (ru_infra r) \<and> builds a r \<and> staged a x0 ?y l' True False r)"
    by (rule triple_and [OF quiet_triple [OF quiet_infra]]) (rule ph_infra_id)
  have "triple (revocable a x0) (\<lambda>r. (builds a r \<and> processLabel (ru_sb r) = l') \<and> staged a x0 x l False False r) (v_steps (late_phases a))
     (\<lambda>r. snd (trunc_Add (pa_id a) (podIDIndex (count_level lv x))) = None \<and> infra_id a (ru_infra r) \<and> staged a x0 ?y l' True True r)"
    by (rule triple_Cons [OF acquire_pod [OF pos lv]] triple_Cons [OF pod_index_triple [OF pod']] triple_Nil
        late_triples [THEN triple_frame, THEN triple_Cons] infra [THEN triple_frame, THEN triple_Cons]
        set_infra_triple [THEN triple_frame, THEN triple_Cons] save_triple [THEN triple_frame, THEN triple_Cons]
        quiet_start [OF env, THEN quiet_triple, THEN triple_frame, THEN triple_Cons])+
  then show ?thesis by (simp add: same)
qed

text \<open>The whole sequence: wherever a phase fails, the registered functions lead back to
  \<open>x0\<close>.\<close>

lemma run_triple:
  fixes a :: "'e pod_args"
  assumes env: "start_ok (pa_env a)" and level: "\<And>l. sv_level (pe_svc (pa_env a)) l \<noteq> None"
    and reg: "registrar_inv (ctrNameIndex x)" and k: "names (ctrNameIndex x) (container_name a) \<noteq> Some k"
    and ix: "trunc_inv (ctrIDIndex x)" "trunc_inv (podIDIndex x)" and pos: "\<And>lv. processLevels x lv \<noteq> Some 0"
  shows "triple (revocable a x0) (\<lambda>r. builds a r \<and> staged a x0 x l False False r) (v_steps (run_phases a k))
     (\<lambda>r. names (ctrNameIndex x) (container_name a) = None \<and> snd (trunc_Add (pa_id a) (ctrIDIndex x)) = None \<and>
        (\<exists>l lv. snd (trunc_Add (pa_id a) (podIDIndex x)) = None \<and> infra_id a (ru_infra r) \<and> staged a x0 (filed_rest a k lv x) l True True r))"
proof -
  let ?n = "named_rest a k x" and ?i = "indexed_rest a k x"
  let ?Q = "\<lambda>r. \<exists>l lv. snd (trunc_Add (pa_id a) (podIDIndex x)) = None \<and> infra_id a (ru_infra r) \<and> staged a x0 (filed_rest a k lv x) l True True r"
  have i: "triple (revocable a x0) (\<lambda>r. builds a r \<and> staged a x0 ?n l False False r) (ph_ctr_index a)
     (\<lambda>r. snd (trunc_Add (pa_id a) (ctrIDIndex x)) = None \<and> builds a r \<and> staged a x0 ?i l False False r)"
    using ctr_index_triple [of ?n a x0 l False False] ix(1) by (simp add: named_rest_def indexed_rest_def)
  have "triple (revocable a x0) (\<lambda>r. \<exists>l'. (builds a r \<and> processLabel (ru_sb r) = l') \<and> staged a x0 ?i l False False r) (v_steps (late_phases a)) ?Q"
  proof (rule triple_Ex)
    fix l'
    obtain lv where lv: "sv_level (pe_svc (pa_env a)) l' = Some lv" using level [of l'] by blast
    show "triple (revocable a x0) (\<lambda>r. (builds a r \<and> processLabel (ru_sb r) = l') \<and> staged a x0 ?i l False False r) (v_steps (late_phases a)) ?Q"
      by (rule triple_conseq [OF pod_filed_triple [OF env _ _ lv]])
        (auto simp: ix pos indexed_rest_def named_rest_def filed_rest_def)
  qed
  then have late: "triple (revocable a x0) (\<lambda>r. builds a r \<and> staged a x0 ?i l False False r) (v_steps (late_phases a)) ?Q"
    by (rule triple_conseq) auto
  show ?thesis
    unfolding run_phases_def
    by (rule container_name_triple [OF reg k, THEN triple_Cons] i [THEN triple_frame, THEN triple_Cons] late [THEN triple_frame, THEN triple_frame]
        early_triples [THEN triple_Cons] early_triples [THEN triple_frame, THEN triple_Cons] early_triples [THEN triple_frame, THEN triple_frame, THEN triple_Cons])+
qed

end
