(* ===== verification/Spec2Isabelle.thy ===== *)
theory Spec2Isabelle
  imports Prelude Registrar Memory_Store Trunc_Index Resource_Store Oci_Container Stop_Protocol Runtime_Oci
    Sandbox_State Container_Server Server_Restore Host_Files Cgroups Ctr_Factory Restore_Roundtrip
    Server_Lifecycle Cpu_Set Irq_Affinity Cpu_Hooks Annotations Workloads Devices Sysctls Runtime_Config Pod_Creation
begin

text \<open>
  A verification development of the container runtime under src/.

  \<^item> Prelude: the fragments of the language and its standard library the code uses.
  \<^item> Registrar: the name registrar, internal/registrar/registrar.go.
\<close>

end
